(* ===== verification/Prelude.thy ===== *)
theory Prelude
  imports Main "HOL-Library.Word"
begin

text \<open>
  Shared vocabulary of the development: the machine integers of the Go code, the
  three-way outcome of a Go call (a value, a returned error, a panic), the fact
  collections the component theories fill, and the generic lemmas on words, lists and
  maps that several components use.
\<close>

section \<open>Types and outcomes\<close>

type_synonym uint8 = "8 word"
type_synonym uint16 = "16 word"
type_synonym uint32 = "32 word"
type_synonym uint64 = "64 word"
type_synonym int64 = "64 word"

type_synonym bytes = "uint8 list"
type_synonym error = string

text \<open>
  A Go call ends in one of three ways. An \<open>error\<close> value carries the text that
  \<open>Error()\<close> yields, because the code only ever prints or wraps it.
\<close>

datatype 'a result = Ok 'a | Fail error | Panic

definition is_ok :: "'a result \<Rightarrow> bool" where
  "is_ok r \<longleftrightarrow> (case r of Ok _ \<Rightarrow> True | _ \<Rightarrow> False)"

lemma is_ok_simps [simp]: "is_ok (Ok x)" "\<not> is_ok (Fail e)" "\<not> is_ok Panic"
  by (simp_all add: is_ok_def)

lemma is_okE: "is_ok r \<Longrightarrow> (\<And>x. r = Ok x \<Longrightarrow> P) \<Longrightarrow> P"
  by (cases r) auto

text \<open>The wrapping \<open>fmt.Errorf("prefix: %w", err)\<close> of an error.\<close>

definition wrap :: "string \<Rightarrow> error \<Rightarrow> error" where
  "wrap p e = p @ '': '' @ e"

text \<open>
  Go code runs over a state and leaves at the first error: \<open>and_then\<close> continues after a
  value, \<open>wrapped\<close> rewrites the error on the way out, \<open>failing\<close> is a call that may
  report the given error and otherwise goes on.
\<close>

fun and_then :: "'a result \<times> 's \<Rightarrow> ('a \<Rightarrow> 's \<Rightarrow> 'b result \<times> 's) \<Rightarrow> 'b result \<times> 's" where
  "and_then (Ok x, s) k = k x s"
| "and_then (Fail e, s) k = (Fail e, s)"
| "and_then (Panic, s) k = (Panic, s)"

fun wrapped :: "string \<Rightarrow> 'a result \<times> 's \<Rightarrow> 'a result \<times> 's" where
  "wrapped p (Fail e, s) = (Fail (wrap p e), s)"
| "wrapped p (Ok x, s) = (Ok x, s)"
| "wrapped p (Panic, s) = (Panic, s)"

definition failing :: "error option \<Rightarrow> 's \<Rightarrow> unit result \<times> 's" where
  "failing fault s = (case fault of Some e \<Rightarrow> (Fail e, s) | None \<Rightarrow> (Ok (), s))"

lemma failing_simps [simp]: "failing None s = (Ok (), s)" "failing (Some e) s = (Fail e, s)"
  by (simp_all add: failing_def)

lemma and_then_Ok_iff:
  "and_then r k = (Ok y, t) \<longleftrightarrow> (\<exists>x s. r = (Ok x, s) \<and> k x s = (Ok y, t))"
  by (cases "(r, k)" rule: and_then.cases) auto

lemma and_then_assoc: "and_then (and_then r k) l = and_then r (\<lambda>x s. and_then (k x s) l)"
  by (cases "(r, k)" rule: and_then.cases) auto

lemma wrapped_Ok_iff [simp]: "wrapped p r = (Ok y, t) \<longleftrightarrow> r = (Ok y, t)"
  by (cases "(p, r)" rule: wrapped.cases) auto

lemma snd_wrapped [simp]: "snd (wrapped p r) = snd r"
  by (cases "(p, r)" rule: wrapped.cases) auto

lemma failing_Ok_iff [simp]: "failing f s = (Ok x, t) \<longleftrightarrow> f = None \<and> t = s"
  by (auto simp: failing_def split: option.splits)

lemma snd_failing [simp]: "snd (failing f s) = s"
  by (simp add: failing_def split: option.splits)

text \<open>An invariant of every step is one of the sequence.\<close>

lemma and_then_invariant:
  assumes "P (snd r)" "\<And>x s. r = (Ok x, s) \<Longrightarrow> P s \<Longrightarrow> P (snd (k x s))"
  shows "P (snd (and_then r k))"
  using assms by (cases "(r, k)" rule: and_then.cases) auto

lemma and_then_steps:
  assumes "P (snd r)" "\<And>x s. P s \<Longrightarrow> P (snd (k x s))"
  shows "P (snd (and_then r k))"
  using assms by (cases "(r, k)" rule: and_then.cases) auto

section \<open>Collections of facts\<close>

named_theorems go_simps \<open>evaluation equations of the standard-library functions\<close>
named_theorems inv_intros \<open>operations preserve the component invariants\<close>
named_theorems frame_simps \<open>what an operation leaves unchanged\<close>

section \<open>Words\<close>

lemma unat_sub_word: "b \<le> a \<Longrightarrow> unat (a - b) = unat a - unat (b :: 'a::len word)"
  by (rule unat_sub)

lemma word_sub_then_add [simp]: "(a :: 'a::len word) - b + b = a"
  by simp

lemma unat_add_no_wrap:
  "unat a + unat b < 2 ^ LENGTH('a) \<Longrightarrow> unat (a + b) = unat a + unat (b :: 'a::len word)"
  by (simp add: unat_word_ariths)

lemma word_sub_wraps:
  assumes "a < (b :: 'a::len word)"
  shows "unat (a - b) = 2 ^ LENGTH('a) + unat a - unat b"
  using assms by (simp add: unat_sub_if' word_less_nat_alt)

section \<open>Lists and maps\<close>

lemma list_update_nth_update:
  "i < length xs \<Longrightarrow> (xs[i := f (xs ! i)]) ! j = (if j = i then f (xs ! i) else xs ! j)"
  by (simp add: nth_list_update)

lemma map_of_snoc:
  "k \<notin> fst ` set xs \<Longrightarrow> map_of (xs @ [(k, v)]) = (map_of xs)(k \<mapsto> v)"
  by (induction xs) (auto simp: fun_eq_iff)

lemma find_index_split:
  assumes "\<exists>x\<in>set xs. P x"
  obtains i where "i < length xs" "P (xs ! i)" "\<forall>j<i. \<not> P (xs ! j)"
proof -
  let ?i = "LEAST i. i < length xs \<and> P (xs ! i)"
  from assms obtain k where k: "k < length xs \<and> P (xs ! k)"
    by (auto simp: in_set_conv_nth)
  have i: "?i < length xs \<and> P (xs ! ?i)"
    using k by (rule LeastI)
  moreover have "\<forall>j < ?i. \<not> P (xs ! j)"
    using i not_less_Least by fastforce
  ultimately show thesis using that by blast
qed

section \<open>Histories\<close>

text \<open>A component with an invariant that each of its operations keeps, for the operations that are
  allowed in a history.\<close>

locale invariant_steps =
  fixes step :: "'c \<Rightarrow> 's \<Rightarrow> 's"
    and inv :: "'s \<Rightarrow> bool"
    and allowed :: "'c \<Rightarrow> bool"
  assumes step_inv: "inv s \<Longrightarrow> allowed c \<Longrightarrow> inv (step c s)"
begin

lemma history: "inv s \<Longrightarrow> list_all allowed cs \<Longrightarrow> inv (fold step cs s)"
  by (induction cs arbitrary: s) (simp_all add: step_inv)

lemma any_history: "inv s \<Longrightarrow> (\<And>c. allowed c) \<Longrightarrow> inv (fold step cs s)"
  by (rule history) (simp_all add: list_all_iff)

end

end
