(* ===== verification/GoStd.thy ===== *)
theory GoStd
  imports Prelude
begin

text \<open>
  The parts of the Go standard library the program computes with: \<open>strings.Split\<close> and
  \<open>strings.Join\<close> on a one-character separator, \<open>strconv.Itoa\<close> and
  \<open>strconv.Atoi\<close> on 64-bit \<open>int\<close>, and the conversion of one byte to a
  string. A Go string is a list of bytes, written here as a \<open>char list\<close>.
\<close>

section \<open>Splitting and joining\<close>

fun split_on :: "char \<Rightarrow> string \<Rightarrow> string list" where
  "split_on c [] = [[]]"
| "split_on c (x # xs) =
     (if x = c then [] # split_on c xs
      else (x # hd (split_on c xs)) # tl (split_on c xs))"

fun join_with :: "char \<Rightarrow> string list \<Rightarrow> string" where
  "join_with c [] = []"
| "join_with c [p] = p"
| "join_with c (p # q # ps) = p @ c # join_with c (q # ps)"

lemma split_on_not_Nil [simp]: "split_on c s \<noteq> []"
  by (cases s) auto

lemma length_split_on [go_simps]: "length (split_on c s) = Suc (count_list s c)"
proof (induction s)
  case (Cons x xs)
  then show ?case by (cases "split_on c xs") auto
qed simp

lemma join_with_Cons: "ps \<noteq> [] \<Longrightarrow> join_with c (p # ps) = p @ c # join_with c ps"
  by (cases ps) auto

lemma join_with_extend:
  "ps \<noteq> [] \<Longrightarrow> join_with c ((x # hd ps) # tl ps) = x # join_with c ps"
  by (cases ps; cases "tl ps") auto

lemma join_split [go_simps]: "join_with c (split_on c s) = s"
  by (induction s) (auto simp: join_with_Cons join_with_extend)

lemma split_parts_no_sep: "p \<in> set (split_on c s) \<Longrightarrow> c \<notin> set p"
proof (induction s arbitrary: p)
  case (Cons x xs)
  then show ?case by (cases "split_on c xs") (auto split: if_splits)
qed simp

lemma split_on_no_sep [go_simps]: "c \<notin> set s \<Longrightarrow> split_on c s = [s]"
  by (induction s) auto

lemma split_on_append [go_simps]:
  "c \<notin> set p \<Longrightarrow> split_on c (p @ c # s) = p # split_on c s"
  by (induction p) auto

section \<open>Decimal numbers\<close>

definition digit_char :: "nat \<Rightarrow> char" where
  "digit_char d = char_of (48 + d)"

definition is_digit :: "char \<Rightarrow> bool" where
  "is_digit c \<longleftrightarrow> 48 \<le> (of_char c :: nat) \<and> (of_char c :: nat) \<le> 57"

definition digit_val :: "char \<Rightarrow> nat" where
  "digit_val c = of_char c - 48"

lemma digit_char_props [simp]:
  assumes "d < 10"
  shows "is_digit (digit_char d)" "digit_val (digit_char d) = d"
    "of_char (digit_char d) = (48 + d :: nat)"
  using assms by (simp_all add: is_digit_def digit_char_def digit_val_def)

lemma digit_char_literals [go_simps]:
  "digit_char 0 = CHR ''0''" "digit_char 1 = CHR ''1''" "digit_char (Suc 0) = CHR ''1''"
  "digit_char 2 = CHR ''2''" "digit_char 3 = CHR ''3''" "digit_char 4 = CHR ''4''"
  "digit_char 5 = CHR ''5''" "digit_char 6 = CHR ''6''" "digit_char 7 = CHR ''7''"
  "digit_char 8 = CHR ''8''" "digit_char 9 = CHR ''9''"
  by (code_simp)+

fun nat_digits :: "nat \<Rightarrow> string" where
  "nat_digits n =
     (if n < 10 then [digit_char n] else nat_digits (n div 10) @ [digit_char (n mod 10)])"

declare nat_digits.simps [simp del]

definition itoa :: "int \<Rightarrow> string" where
  "itoa i = (if i < 0 then CHR ''-'' # nat_digits (nat (- i)) else nat_digits (nat i))"

text \<open>
  \<open>strconv.ParseUint\<close> reads left to right and stops at the first problem: a
  character that is no digit (a syntax error, value 0) or a value above \<open>2 ^ 64 - 1\<close>
  (a range error, value the maximum).
\<close>

datatype uparse = UVal nat | USyntax | URange

fun parse_uint_loop :: "string \<Rightarrow> nat \<Rightarrow> uparse" where
  "parse_uint_loop [] n = UVal n"
| "parse_uint_loop (c # cs) n =
     (if \<not> is_digit c then USyntax
      else if 10 * n + digit_val c \<ge> 2 ^ 64 then URange
      else parse_uint_loop cs (10 * n + digit_val c))"

definition parse_uint :: "string \<Rightarrow> uparse" where
  "parse_uint s = (if s = [] then USyntax else parse_uint_loop s 0)"

text \<open>
  \<open>strconv.Atoi\<close>: the value and whether the error is nil. A range error still
  carries the clamped value, a syntax error carries 0.
\<close>

definition atoi_unsigned :: "bool \<Rightarrow> string \<Rightarrow> int \<times> bool" where
  "atoi_unsigned neg s =
     (case parse_uint s of
        USyntax \<Rightarrow> (0, False)
      | URange \<Rightarrow> (if neg then - (2 ^ 63) else 2 ^ 63 - 1, False)
      | UVal n \<Rightarrow>
          if neg then (if n > 2 ^ 63 then (- (2 ^ 63), False) else (- int n, True))
          else (if n \<ge> 2 ^ 63 then (2 ^ 63 - 1, False) else (int n, True)))"

definition atoi :: "string \<Rightarrow> int \<times> bool" where
  "atoi s =
     (case s of
        [] \<Rightarrow> (0, False)
      | c # cs \<Rightarrow>
          if c = CHR ''-'' then atoi_unsigned True cs
          else if c = CHR ''+'' then atoi_unsigned False cs
          else atoi_unsigned False s)"

subsection \<open>Printing and parsing agree\<close>

lemma nat_digits_not_Nil [simp]: "nat_digits n \<noteq> []"
  by (subst nat_digits.simps) simp

lemma nat_digits_is_digit: "c \<in> set (nat_digits n) \<Longrightarrow> is_digit c"
proof (induction n arbitrary: c rule: nat_digits.induct)
  case (1 n)
  then show ?case
    by (cases "n < 10") (auto simp: nat_digits.simps [of n])
qed

lemma parse_uint_loop_append:
  "parse_uint_loop s m = UVal k \<Longrightarrow> parse_uint_loop (s @ t) m = parse_uint_loop t k"
  by (induction s arbitrary: m) (auto split: if_splits)

lemma parse_nat_digits_loop: "n < 2 ^ 64 \<Longrightarrow> parse_uint_loop (nat_digits n) 0 = UVal n"
proof (induction n rule: nat_digits.induct)
  case (1 n)
  show ?case
  proof (cases "n < 10")
    case True
    then show ?thesis by (simp add: nat_digits.simps [of n])
  next
    case False
    with 1 have "parse_uint_loop (nat_digits (n div 10)) 0 = UVal (n div 10)" by simp
    with False 1(2) show ?thesis
      by (simp add: nat_digits.simps [of n] parse_uint_loop_append)
  qed
qed

lemma parse_uint_nat_digits [go_simps]: "n < 2 ^ 64 \<Longrightarrow> parse_uint (nat_digits n) = UVal n"
  by (simp add: parse_uint_def parse_nat_digits_loop)

lemma digit_not_sign: "is_digit c \<Longrightarrow> c \<noteq> CHR ''-'' \<and> c \<noteq> CHR ''+'' \<and> c \<noteq> CHR ''.''"
  by (auto simp: is_digit_def)

lemma nat_digits_no_char [simp]:
  "CHR ''.'' \<notin> set (nat_digits n)" "CHR '':'' \<notin> set (nat_digits n)"
  using nat_digits_is_digit [of _ n] by (force simp: is_digit_def)+

lemma hd_nat_digits_no_sign:
  "nat_digits n = c # cs \<Longrightarrow> c \<noteq> CHR ''-'' \<and> c \<noteq> CHR ''+''"
  using nat_digits_is_digit [of c n] digit_not_sign [of c] by simp

lemma atoi_nat_digits [go_simps]:
  "n < 2 ^ 63 \<Longrightarrow> atoi (nat_digits n) = (int n, True)"
  using hd_nat_digits_no_sign [of n] parse_uint_nat_digits [of n]
  by (cases "nat_digits n") (auto simp: atoi_def atoi_unsigned_def)

lemma atoi_itoa [go_simps]:
  assumes "- (2 ^ 63) \<le> i" "i < 2 ^ 63"
  shows "atoi (itoa i) = (i, True)"
proof (cases "i < 0")
  case True
  with assms(1) have "nat (- i) \<le> 2 ^ 63" by simp
  then have "parse_uint (nat_digits (nat (- i))) = UVal (nat (- i))"
    by (simp add: parse_uint_nat_digits)
  with True \<open>nat (- i) \<le> 2 ^ 63\<close> show ?thesis
    by (simp add: itoa_def atoi_def atoi_unsigned_def)
next
  case False
  with assms(2) show ?thesis by (simp add: itoa_def atoi_nat_digits nat_less_iff)
qed

text \<open>\<open>string(b)\<close> for a byte \<open>b\<close> is the UTF-8 encoding of the code point \<open>b\<close>.\<close>

definition string_of_byte :: "char \<Rightarrow> string" where
  "string_of_byte c =
     (let n = (of_char c :: nat)
      in if n < 128 then [c] else [char_of (192 + n div 64), char_of (128 + n mod 64)])"

lemma string_of_byte_ascii [go_simps]: "is_digit c \<Longrightarrow> string_of_byte c = [c]"
  by (simp add: string_of_byte_def is_digit_def)

end
