(* ===== verification/Network.thy ===== *)
theory Network
  imports GoStd
begin

text \<open>
  \<open>pkg/network/network.go\<close>: the computation of the next /24 subnet prefix
  (\<open>FindSubnet\<close>) and of the prefix an address lies in (\<open>GetSubnetFromIP\<close>). The code
  indexes the string byte by byte, so a string with too few dots is an index out of
  range, which is \<open>Panic\<close> here. The abstract view of a prefix is the datatype
  \<open>subnet\<close> of its three octets, ordered lexicographically; the interface the
  allocation of new subnets relies on is the locale \<open>subnet_supply\<close>.
\<close>

section \<open>The code\<close>

text \<open>The inner loop \<open>for lastSubnet[j] != '.'\<close>; \<open>None\<close> is the index out of range.\<close>

function scan_octet :: "string \<Rightarrow> nat \<Rightarrow> string \<Rightarrow> (string \<times> nat) option" where
  "scan_octet s j temp =
     (if length s \<le> j then None
      else if s ! j = CHR ''.'' then Some (temp, j)
      else scan_octet s (Suc j) (temp @ string_of_byte (s ! j)))"
  by pat_completeness auto
termination
  by (relation "measure (\<lambda>(s, j, temp). length s - j)") auto

declare scan_octet.simps [simp del]

text \<open>The outer loop over \<open>value[i]\<close>; the error of \<open>Atoi\<close> is dropped.\<close>

fun read_octets :: "nat \<Rightarrow> string \<Rightarrow> nat \<Rightarrow> int list option" where
  "read_octets 0 s j = Some []"
| "read_octets (Suc k) s j =
     (case scan_octet s j [] of
        None \<Rightarrow> None
      | Some (temp, j') \<Rightarrow>
          (case read_octets k s (Suc j') of
             None \<Rightarrow> None
           | Some vs \<Rightarrow> Some (fst (atoi temp) # vs)))"

fun next_octets :: "int list \<Rightarrow> int list option" where
  "next_octets [a, b, c] =
     (if c \<ge> 255 then
        if b \<ge> 255 then
          if a \<ge> 255 then None
          else Some [a + 1, 0, 0]
        else Some [a, b + 1, 0]
      else Some [a, b, c + 1])"
| "next_octets _ = None"

fun print_octets :: "int list \<Rightarrow> string" where
  "print_octets [] = []"
| "print_octets (v # vs) = itoa v @ ''.'' @ print_octets vs"

definition find_subnet :: "string \<Rightarrow> string result" where
  "find_subnet lastSubnet =
     (case read_octets 3 lastSubnet 0 of
        None \<Rightarrow> Panic
      | Some value \<Rightarrow>
          (case next_octets value of
             None \<Rightarrow> Ok ''err''
           | Some value' \<Rightarrow> Ok (print_octets value')))"

definition get_subnet_from_ip :: "string \<Rightarrow> string result" where
  "get_subnet_from_ip ip =
     (let parts = split_on CHR ''.'' ip
      in if length parts \<noteq> 4 then Fail (''invalid IP format: '' @ ip)
         else Ok (join_with CHR ''.'' (take 3 parts) @ ''.''))"

section \<open>The abstract prefix\<close>

datatype subnet = Subnet (oct0: nat) (oct1: nat) (oct2: nat)

instantiation subnet :: linorder
begin

definition less_eq_subnet :: "subnet \<Rightarrow> subnet \<Rightarrow> bool" where
  "less_eq_subnet m n \<longleftrightarrow>
     oct0 m < oct0 n \<or> (oct0 m = oct0 n \<and>
       (oct1 m < oct1 n \<or> (oct1 m = oct1 n \<and> oct2 m \<le> oct2 n)))"

definition less_subnet :: "subnet \<Rightarrow> subnet \<Rightarrow> bool" where
  "less_subnet m n \<longleftrightarrow> m \<le> n \<and> \<not> n \<le> (m :: subnet)"

instance
  by standard (auto simp: less_eq_subnet_def less_subnet_def intro: subnet.expand)

end

definition wf_subnet :: "subnet \<Rightarrow> bool" where
  "wf_subnet n \<longleftrightarrow> oct0 n \<le> 255 \<and> oct1 n \<le> 255 \<and> oct2 n \<le> 255"

definition last_of_all :: subnet where
  "last_of_all = Subnet 255 255 255"

definition subnet_no :: "subnet \<Rightarrow> nat" where
  "subnet_no n = oct0 n * 65536 + oct1 n * 256 + oct2 n"

definition subnet_str :: "subnet \<Rightarrow> string" where
  "subnet_str n = nat_digits (oct0 n) @ ''.'' @ nat_digits (oct1 n) @ ''.'' @ nat_digits (oct2 n) @ ''.''"

definition subnet_succ :: "subnet \<Rightarrow> subnet" where
  "subnet_succ n =
     (if oct2 n < 255 then Subnet (oct0 n) (oct1 n) (oct2 n + 1)
      else if oct1 n < 255 then Subnet (oct0 n) (oct1 n + 1) 0
      else Subnet (oct0 n + 1) 0 0)"

lemma subnet_no_less_iff:
  "wf_subnet m \<Longrightarrow> wf_subnet n \<Longrightarrow> subnet_no m < subnet_no n \<longleftrightarrow> m < n"
  by (cases m; cases n)
    (auto simp: subnet_no_def wf_subnet_def less_subnet_def less_eq_subnet_def)

lemma subnet_succ_props:
  assumes "wf_subnet n" "n \<noteq> last_of_all"
  shows "wf_subnet (subnet_succ n)" "subnet_no (subnet_succ n) = Suc (subnet_no n)"
  using assms
  by (cases n; auto simp: wf_subnet_def subnet_succ_def subnet_no_def last_of_all_def)+

lemma subnet_succ_greater: "wf_subnet n \<Longrightarrow> n \<noteq> last_of_all \<Longrightarrow> n < subnet_succ n"
  using subnet_succ_props [of n] subnet_no_less_iff [of n "subnet_succ n"] by simp

lemma subnet_no_bound: "wf_subnet n \<Longrightarrow> subnet_no n \<le> 16777215"
  by (cases n) (auto simp: wf_subnet_def subnet_no_def)

lemma subnet_no_max:
  assumes "wf_subnet n"
  shows "subnet_no n = 16777215 \<longleftrightarrow> n = last_of_all"
proof (cases n)
  case (Subnet a b c)
  moreover have "a * 65536 + b * 256 + c = 16777215 \<longleftrightarrow> a = 255 \<and> b = 255 \<and> c = 255"
    if "a \<le> 255" "b \<le> 255" "c \<le> 255"
    using that by arith
  ultimately show ?thesis
    using assms by (simp add: wf_subnet_def subnet_no_def last_of_all_def)
qed

section \<open>Reading the octets\<close>

lemma scan_octet_eq:
  "scan_octet s j temp =
     (let rest = drop j s; p = takeWhile (\<lambda>c. c \<noteq> CHR ''.'') rest
      in if CHR ''.'' \<in> set rest then Some (temp @ concat (map string_of_byte p), j + length p)
         else None)"
proof (induction s j temp rule: scan_octet.induct)
  case (1 s j temp)
  show ?case
  proof (cases "length s \<le> j")
    case True
    then show ?thesis by (simp add: scan_octet.simps [of s j])
  next
    case False
    then have "drop j s = s ! j # drop (Suc j) s" by (simp add: Cons_nth_drop_Suc)
    with False 1 show ?thesis by (simp add: scan_octet.simps [of s j] Let_def)
  qed
qed

lemma count_list_dropWhile:
  "CHR ''.'' \<in> set r \<Longrightarrow>
     count_list r CHR ''.'' =
       Suc (count_list (drop (Suc (length (takeWhile (\<lambda>c. c \<noteq> CHR ''.'') r))) r) CHR ''.'')"
  by (induction r) auto

lemma read_octets_None_iff: "read_octets k s j = None \<longleftrightarrow> count_list (drop j s) CHR ''.'' < k"
proof (induction k arbitrary: j)
  case (Suc k)
  let ?r = "drop j s" and ?p = "takeWhile (\<lambda>c. c \<noteq> CHR ''.'') (drop j s)"
  show ?case
  proof (cases "CHR ''.'' \<in> set ?r")
    case True
    have "drop (Suc (length ?p)) ?r = drop (Suc (j + length ?p)) s" by (simp add: add.commute)
    with True count_list_dropWhile [of ?r] Suc.IH [of "Suc (j + length ?p)"] show ?thesis
      by (cases "read_octets k s (Suc (j + length ?p))") (simp_all add: scan_octet_eq Let_def)
  next
    case False
    then have "count_list ?r CHR ''.'' = 0" by (rule count_notin)
    with False show ?thesis by (simp add: scan_octet_eq Let_def)
  qed
qed simp

lemma read_octets_length: "read_octets k s j = Some vs \<Longrightarrow> length vs = k"
  by (induction k arbitrary: j vs) (auto split: option.splits)

lemma takeWhile_nat_digits:
  "takeWhile (\<lambda>c. c \<noteq> CHR ''.'') (nat_digits n @ CHR ''.'' # t) = nat_digits n"
  using nat_digits_no_char(1) [of n] by (subst takeWhile_append2) auto

lemma bytes_of_nat_digits: "concat (map string_of_byte (nat_digits n)) = nat_digits n"
proof -
  have "map string_of_byte (nat_digits n) = map (\<lambda>c. [c]) (nat_digits n)"
    by (rule map_cong) (auto intro: string_of_byte_ascii nat_digits_is_digit)
  then show ?thesis by (simp only: concat_map_singleton) simp
qed

lemma read_octets_step:
  assumes "n < 2 ^ 63"
  shows "read_octets (Suc k) (pre @ nat_digits n @ CHR ''.'' # t) (length pre) =
           map_option ((#) (int n)) (read_octets k ((pre @ nat_digits n @ ''.'') @ t)
                                       (length (pre @ nat_digits n @ ''.'')))"
  using assms
  by (simp add: scan_octet_eq Let_def takeWhile_nat_digits bytes_of_nat_digits atoi_nat_digits
      split: option.split)

lemma read_octets_subnet:
  assumes "wf_subnet n"
  shows "read_octets 3 (subnet_str n @ rest) 0 = Some [int (oct0 n), int (oct1 n), int (oct2 n)]"
proof -
  from assms have b: "oct0 n < 2 ^ 63" "oct1 n < 2 ^ 63" "oct2 n < 2 ^ 63"
    by (auto simp: wf_subnet_def)
  show ?thesis
    using read_octets_step [OF b(1), of 2 "[]" "nat_digits (oct1 n) @ ''.'' @ nat_digits (oct2 n) @ ''.'' @ rest"]
      read_octets_step [OF b(2), of 1 "nat_digits (oct0 n) @ ''.''" "nat_digits (oct2 n) @ ''.'' @ rest"]
      read_octets_step [OF b(3), of 0 "nat_digits (oct0 n) @ ''.'' @ nat_digits (oct1 n) @ ''.''" rest]
    by (simp add: subnet_str_def eval_nat_numeral)
qed

lemma find_subnet_wf:
  assumes "wf_subnet n"
  shows "find_subnet (subnet_str n @ rest) =
           Ok (if n = last_of_all then ''err'' else subnet_str (subnet_succ n))"
proof -
  have "find_subnet (subnet_str n @ rest) =
      (case next_octets [int (oct0 n), int (oct1 n), int (oct2 n)] of
         None \<Rightarrow> Ok ''err'' | Some value' \<Rightarrow> Ok (print_octets value'))"
    by (simp add: find_subnet_def read_octets_subnet [OF assms])
  with assms show ?thesis
    by (cases n) (auto simp: subnet_str_def subnet_succ_def itoa_def wf_subnet_def
        last_of_all_def nat_add_distrib)
qed

section \<open>The supply of subnets\<close>

text \<open>
  What the allocation of a new subnet relies on: from a usable last subnet the next one
  exists, is usable again and is numbered one higher, until the numbers run out.
\<close>

primrec iterate_step :: "('s \<Rightarrow> 's result) \<Rightarrow> nat \<Rightarrow> 's \<Rightarrow> 's result" where
  "iterate_step f 0 s = Ok s"
| "iterate_step f (Suc k) s =
     (case iterate_step f k s of Ok t \<Rightarrow> f t | Fail e \<Rightarrow> Fail e | Panic \<Rightarrow> Panic)"

locale subnet_supply =
  fixes step :: "'s \<Rightarrow> 's result"
    and usable :: "'s \<Rightarrow> bool"
    and number :: "'s \<Rightarrow> nat"
    and limit :: nat
  assumes step_usable: "usable s \<Longrightarrow> number s < limit \<Longrightarrow>
      \<exists>t. step s = Ok t \<and> usable t \<and> number t = Suc (number s)"
begin

lemma iterate_usable:
  "usable s \<Longrightarrow> number s + k \<le> limit \<Longrightarrow>
     \<exists>t. iterate_step step k s = Ok t \<and> usable t \<and> number t = number s + k"
proof (induction k)
  case (Suc k)
  then obtain t where t: "iterate_step step k s = Ok t" "usable t" "number t = number s + k"
    by auto
  with Suc.prems(2) step_usable [of t] show ?case by auto
qed simp

lemma iterate_distinct:
  assumes "usable s" "i < j" "number s + j \<le> limit"
  shows "iterate_step step i s \<noteq> iterate_step step j s"
  using assms iterate_usable [of s i] iterate_usable [of s j] by fastforce

end

definition usable_last :: "string \<Rightarrow> bool" where
  "usable_last s \<longleftrightarrow> (\<exists>n rest. wf_subnet n \<and> s = subnet_str n @ rest)"

definition last_no :: "string \<Rightarrow> nat" where
  "last_no s =
     (case read_octets 3 s 0 of
        Some [a, b, c] \<Rightarrow> subnet_no (Subnet (nat a) (nat b) (nat c))
      | _ \<Rightarrow> 0)"

lemma last_no_subnet [simp]: "wf_subnet n \<Longrightarrow> last_no (subnet_str n @ rest) = subnet_no n"
  by (simp add: last_no_def read_octets_subnet)

lemma usable_lastI: "wf_subnet n \<Longrightarrow> usable_last (subnet_str n)"
  unfolding usable_last_def by (metis append_Nil2)

interpretation net: subnet_supply find_subnet usable_last last_no 16777215
proof
  fix s assume "usable_last s" and less: "last_no s < 16777215"
  then obtain n rest where n: "wf_subnet n" "s = subnet_str n @ rest"
    by (auto simp: usable_last_def)
  with less have "n \<noteq> last_of_all" by (simp add: subnet_no_max [symmetric])
  with n have "find_subnet s = Ok (subnet_str (subnet_succ n))"
    "wf_subnet (subnet_succ n)" "subnet_no (subnet_succ n) = Suc (subnet_no n)"
    by (simp_all add: find_subnet_wf subnet_succ_props)
  moreover from this(2) have "last_no (subnet_str (subnet_succ n)) = subnet_no (subnet_succ n)"
    using last_no_subnet [of "subnet_succ n" "[]"] by simp
  ultimately show "\<exists>t. find_subnet s = Ok t \<and> usable_last t \<and> last_no t = Suc (last_no s)"
    using n by (auto intro: usable_lastI)
qed

lemma split_ip_parts:
  "length (split_on CHR ''.'' ip) = 4 \<Longrightarrow>
     \<exists>host. ip = join_with CHR ''.'' (take 3 (split_on CHR ''.'' ip)) @ ''.'' @ host \<and>
            CHR ''.'' \<notin> set host"
proof -
  assume "length (split_on CHR ''.'' ip) = 4"
  then obtain a b c d where s: "split_on CHR ''.'' ip = [a, b, c, d]"
    by (auto simp: length_Suc_conv eval_nat_numeral)
  then have "ip = join_with CHR ''.'' [a, b, c, d]" and "CHR ''.'' \<notin> set d"
    using join_split [of "CHR ''.''" ip] split_parts_no_sep [of d "CHR ''.''" ip] by simp_all
  with s show ?thesis by (intro exI [of _ d]) simp
qed

section \<open>Properties\<close>

text \<open>C22: \<open>FindSubnet\<close> on a stored last subnet \<open>a.b.c.\<close> (with or without a host part
  after it) whose octets are bytes returns the text of the next prefix in numeric order:
  the prefix after \<open>n\<close>, numbered one higher and greater in the lexicographic order.\<close>

theorem find_subnet_successor:
  assumes "wf_subnet n" "n \<noteq> last_of_all"
  shows "find_subnet (subnet_str n @ rest) = Ok (subnet_str (subnet_succ n)) \<and>
         wf_subnet (subnet_succ n) \<and> n < subnet_succ n \<and>
         subnet_no (subnet_succ n) = subnet_no n + 1"
  using assms by (simp add: find_subnet_wf subnet_succ_props subnet_succ_greater)

theorem find_subnet_successor_witness:
  "find_subnet ''10.0.255.7'' = Ok ''10.1.0.''"
proof -
  have "wf_subnet (Subnet 10 0 255)" "Subnet 10 0 255 \<noteq> last_of_all"
    by (simp_all add: wf_subnet_def last_of_all_def)
  from find_subnet_successor [OF this, of "''7''"] show ?thesis
    by (simp add: subnet_str_def subnet_succ_def nat_digits.simps go_simps)
qed

text \<open>\<open>FindSubnet\<close> indexes past the end of its argument, and so panics, exactly when
  the argument holds fewer than three dots.\<close>

theorem find_subnet_panic_iff: "find_subnet s = Panic \<longleftrightarrow> count_list s CHR ''.'' < 3"
  by (auto simp: find_subnet_def read_octets_None_iff [of 3 s 0, simplified, symmetric]
      split: option.splits)

text \<open>After the last prefix \<open>255.255.255.\<close> the function reports exhaustion by the
  string \<open>err\<close> with no error value, and a caller that stores this string as the last
  subnet makes the next call panic.\<close>

theorem find_subnet_exhausted:
  "find_subnet (''255.255.255.'' @ rest) = Ok ''err'' \<and> find_subnet ''err'' = Panic"
proof -
  have "subnet_str last_of_all = ''255.255.255.''"
    by (simp add: subnet_str_def last_of_all_def nat_digits.simps go_simps)
  moreover have "wf_subnet last_of_all" by (simp add: wf_subnet_def last_of_all_def)
  ultimately have "find_subnet (''255.255.255.'' @ rest) = Ok ''err''"
    using find_subnet_wf [of last_of_all rest] by simp
  moreover have "find_subnet ''err'' = Panic"
    by (simp add: find_subnet_panic_iff)
  ultimately show ?thesis by blast
qed

text \<open>Starting from any usable last subnet, repeated calls of \<open>FindSubnet\<close> (each on
  the result of the one before) never return the same prefix twice as long as the prefixes
  last, so two allocations of a new subnet never collide.\<close>

theorem find_subnet_never_repeats:
  assumes "usable_last s" "i < j" "last_no s + j \<le> 16777215"
  shows "iterate_step find_subnet i s \<noteq> iterate_step find_subnet j s \<and>
         (\<exists>t. iterate_step find_subnet j s = Ok t \<and> last_no t = last_no s + j)"
  using net.iterate_distinct [OF assms] net.iterate_usable [OF assms(1,3)] by blast

theorem find_subnet_never_repeats_witness:
  "iterate_step find_subnet 1 ''10.0.0.'' \<noteq> iterate_step find_subnet 300 ''10.0.0.''"
proof -
  have w: "wf_subnet (Subnet 10 0 0)" by (simp add: wf_subnet_def)
  have s: "subnet_str (Subnet 10 0 0) = ''10.0.0.''"
    by (simp add: subnet_str_def nat_digits.simps go_simps)
  have "usable_last ''10.0.0.''" "last_no ''10.0.0.'' = 655360"
    using usable_lastI [OF w] last_no_subnet [OF w, of "[]"] s by (simp_all add: subnet_no_def)
  then show ?thesis using find_subnet_never_repeats [of "''10.0.0.''" 1 300] by simp
qed

text \<open>\<open>GetSubnetFromIP\<close> succeeds exactly on the strings with three dots, and then
  returns the part of the address up to and including the third dot: the address is the
  result followed by a host part without a dot.\<close>

theorem get_subnet_from_ip_ok_iff:
  "(\<exists>p. get_subnet_from_ip ip = Ok p \<and>
      (\<exists>host. ip = p @ host \<and> CHR ''.'' \<notin> set host \<and> count_list p CHR ''.'' = 3))
   \<longleftrightarrow> count_list ip CHR ''.'' = 3" (is "?L \<longleftrightarrow> ?R")
proof
  assume ?R
  then have len: "length (split_on CHR ''.'' ip) = 4" by (simp add: length_split_on)
  let ?p = "join_with CHR ''.'' (take 3 (split_on CHR ''.'' ip)) @ ''.''"
  from split_ip_parts [OF len] obtain host where h: "ip = ?p @ host" "CHR ''.'' \<notin> set host"
    by auto
  then have "count_list ip CHR ''.'' = count_list ?p CHR ''.''"
    by (metis count_list_append count_notin add_0_right)
  with \<open>?R\<close> len h show ?L by (auto simp: get_subnet_from_ip_def Let_def)
next
  assume ?L
  then show ?R by (auto simp: get_subnet_from_ip_def Let_def length_split_on split: if_splits)
qed

text \<open>An address the controller builds in a freshly computed subnet is mapped back
  to this subnet by \<open>GetSubnetFromIP\<close>, so a later "Add" joins the subnet that "New"
  allocated.\<close>

theorem new_subnet_round_trip:
  assumes "wf_subnet n" "n \<noteq> last_of_all" "CHR ''.'' \<notin> set host"
    "find_subnet (subnet_str n @ rest) = Ok p"
  shows "get_subnet_from_ip (p @ host) = Ok p"
proof -
  from assms have "p = subnet_str (subnet_succ n)" by (simp add: find_subnet_wf)
  with assms(3) show ?thesis
    by (simp add: subnet_str_def get_subnet_from_ip_def split_on_append split_on_no_sep Let_def)
qed

theorem new_subnet_round_trip_witness:
  "get_subnet_from_ip ''10.0.1.42'' = Ok ''10.0.1.''"
proof -
  have w: "wf_subnet (Subnet 10 0 0)" "Subnet 10 0 0 \<noteq> last_of_all"
    by (simp_all add: wf_subnet_def last_of_all_def)
  have "find_subnet (subnet_str (Subnet 10 0 0) @ ''1'') = Ok ''10.0.1.''"
    using find_subnet_wf [OF w(1), of "''1''"] w(2)
    by (simp add: subnet_str_def subnet_succ_def nat_digits.simps go_simps)
  from new_subnet_round_trip [OF w _ this, of "''42''"] show ?thesis by simp
qed

end
