(* ===== verification/Sha256.thy ===== *)
theory Sha256
  imports Prelude
begin

text \<open>
  \<open>crypto/sha256\<close> of the Go standard library (FIPS 180-4), as far as
  \<open>pkg/crypto/password.go\<close> uses it: the digest of one byte sequence. It is written
  over 32-bit words so that it computes.
\<close>

unbundle bit_operations_syntax

text \<open>
  The constants are the first 32 bits of the fractional parts of the cube roots of the first
  64 primes (round constants) and of the square roots of the first eight (initial value);
  \<open>root_bits k n b r\<close> searches the integer \<open>k\<close>-th root of \<open>n\<close> from bit \<open>b - 1\<close> downwards.
\<close>

primrec root_bits :: "nat \<Rightarrow> int \<Rightarrow> nat \<Rightarrow> int \<Rightarrow> int" where
  "root_bits k n 0 r = r"
| "root_bits k n (Suc b) r = root_bits k n b (if (r + 2 ^ b) ^ k \<le> n then r + 2 ^ b else r)"

definition root_fraction :: "nat \<Rightarrow> int \<Rightarrow> uint32" where
  "root_fraction k p = word_of_int (root_bits k (p * 2 ^ (32 * k)) 40 0)"

definition small_primes :: "int list" where
  "small_primes = filter (\<lambda>n. list_all (\<lambda>d. n mod d \<noteq> 0) [2..n - 1]) [2..311]"

definition sha_k :: "uint32 list" where
  "sha_k = map (root_fraction 3) small_primes"

definition sha_init :: "uint32 list" where
  "sha_init = map (root_fraction 2) [2, 3, 5, 7, 11, 13, 17, 19]"

definition be32 :: "uint8 \<Rightarrow> uint8 \<Rightarrow> uint8 \<Rightarrow> uint8 \<Rightarrow> uint32" where
  "be32 a b c d = push_bit 24 (ucast a) OR push_bit 16 (ucast b) OR push_bit 8 (ucast c) OR ucast d"

definition put_be32 :: "uint32 \<Rightarrow> bytes" where
  "put_be32 w = map (\<lambda>k. ucast (drop_bit (8 * k) w)) [3, 2, 1, 0]"

fun words_of :: "bytes \<Rightarrow> uint32 list" where
  "words_of (a # b # c # d # bs) = be32 a b c d # words_of bs"
| "words_of _ = []"

definition sha_pad :: "bytes \<Rightarrow> bytes" where
  "sha_pad m =
     (let n = length m; z = (119 - n mod 64) mod 64
      in m @ [0x80] @ replicate z 0 @
         map (\<lambda>k. word_of_int (8 * int n div 256 ^ k)) [7, 6, 5, 4, 3, 2, 1, 0])"

text \<open>The message schedule keeps its last 16 words, newest first.\<close>

definition sched_next :: "uint32 list \<Rightarrow> uint32" where
  "sched_next w =
     (let x = w ! 14; y = w ! 1;
          s0 = word_rotr 7 x XOR word_rotr 18 x XOR drop_bit 3 x;
          s1 = word_rotr 17 y XOR word_rotr 19 y XOR drop_bit 10 y
      in w ! 15 + s0 + w ! 6 + s1)"

fun schedule :: "nat \<Rightarrow> uint32 list \<Rightarrow> uint32 list" where
  "schedule 0 w = w"
| "schedule (Suc k) w = schedule k (sched_next w # w)"

fun sha_round :: "uint32 list \<Rightarrow> uint32 \<times> uint32 \<Rightarrow> uint32 list" where
  "sha_round [a, b, c, d, e, f, g, h] (k, w) =
     (let s1 = word_rotr 6 e XOR word_rotr 11 e XOR word_rotr 25 e;
          ch = (e AND f) XOR (NOT e AND g);
          t1 = h + s1 + ch + k + w;
          s0 = word_rotr 2 a XOR word_rotr 13 a XOR word_rotr 22 a;
          maj = (a AND b) XOR (a AND c) XOR (b AND c)
      in [t1 + s0 + maj, a, b, c, d + t1, e, f, g])"
| "sha_round v kw = v"

definition sha_block :: "uint32 list \<Rightarrow> bytes \<Rightarrow> uint32 list" where
  "sha_block v blk =
     (let w = rev (schedule 48 (rev (words_of blk)))
      in map2 (+) v (foldl sha_round v (zip sha_k w)))"

function sha_blocks :: "uint32 list \<Rightarrow> bytes \<Rightarrow> uint32 list" where
  "sha_blocks v m = (if length m < 64 then v else sha_blocks (sha_block v (take 64 m)) (drop 64 m))"
  by pat_completeness auto
termination
  by (relation "measure (\<lambda>(v, m). length m)") auto

declare sha_blocks.simps [simp del]

definition sha256 :: "bytes \<Rightarrow> bytes" where
  "sha256 m = concat (map put_be32 (sha_blocks sha_init (sha_pad m)))"

lemma length_sha_round: "length v = 8 \<Longrightarrow> length (sha_round v kw) = 8"
  by (cases "(v, kw)" rule: sha_round.cases) (auto simp: Let_def)

lemma length_sha_rounds: "length v = 8 \<Longrightarrow> length (foldl sha_round v kws) = 8"
  by (induction kws arbitrary: v) (auto simp: length_sha_round)

lemma length_sha_blocks: "length v = 8 \<Longrightarrow> length (sha_blocks v m) = 8"
proof (induction v m rule: sha_blocks.induct)
  case (1 v m)
  then show ?case
    by (cases "length m < 64")
      (simp_all add: sha_blocks.simps [of v m] sha_block_def Let_def length_sha_rounds)
qed

lemma length_concat_const: "(\<And>x. length (f x) = k) \<Longrightarrow> length (concat (map f xs)) = k * length xs"
  by (induction xs) auto

lemma length_sha256: "length (sha256 m) = 32"
  by (simp add: sha256_def length_concat_const [where k = 4] put_be32_def
      length_sha_blocks sha_init_def)

end
