(* ===== verification/Crypto.thy ===== *)
theory Crypto
  imports Sha256 GoStd
begin

text \<open>
  \<open>pkg/crypto/password.go\<close>: the salted password hash Guacamole expects, the random
  salt and the random password. \<open>crypto/rand\<close> is the argument \<open>rnd\<close>: what
  \<open>rand.Read\<close> puts into a buffer of the given length, or its error. The encoders
  \<open>encoding/hex\<close> and \<open>base64.RawURLEncoding\<close> are written out.
\<close>

section \<open>Encoders\<close>

definition bytes_of :: "string \<Rightarrow> bytes" where
  "bytes_of s = map of_char s"

definition hex_digit :: "nat \<Rightarrow> char" where
  "hex_digit n = ''0123456789abcdef'' ! n"

definition hex_encode :: "bytes \<Rightarrow> string" where
  "hex_encode bs = concat (map (\<lambda>b. [hex_digit (unat b div 16), hex_digit (unat b mod 16)]) bs)"

definition upper_char :: "char \<Rightarrow> char" where
  "upper_char c =
     (let n = (of_char c :: nat) in if 97 \<le> n \<and> n \<le> 122 then char_of (n - 32) else c)"

definition to_upper :: "string \<Rightarrow> string" where
  "to_upper s = map upper_char s"

definition url_alphabet :: string where
  "url_alphabet = ''ABCDEFGHIJKLMNOPQRSTUVWXYZabcdefghijklmnopqrstuvwxyz0123456789-_''"

fun base64url :: "bytes \<Rightarrow> string" where
  "base64url (a # b # c # bs) =
     url_alphabet ! (unat a div 4) #
     url_alphabet ! ((unat a mod 4) * 16 + unat b div 16) #
     url_alphabet ! ((unat b mod 16) * 4 + unat c div 64) #
     url_alphabet ! (unat c mod 64) # base64url bs"
| "base64url [a, b] =
     [url_alphabet ! (unat a div 4),
      url_alphabet ! ((unat a mod 4) * 16 + unat b div 16),
      url_alphabet ! ((unat b mod 16) * 4)]"
| "base64url [a] = [url_alphabet ! (unat a div 4), url_alphabet ! ((unat a mod 4) * 16)]"
| "base64url [] = []"

section \<open>The code\<close>

type_synonym rand_source = "nat \<Rightarrow> bytes result"

definition hash_password_with_salt :: "string \<Rightarrow> bytes \<Rightarrow> bytes" where
  "hash_password_with_salt password salt =
     (let temp = to_upper (hex_encode salt) in sha256 (bytes_of password @ bytes_of temp))"

definition generate_random_salt :: "rand_source \<Rightarrow> nat \<Rightarrow> bytes result" where
  "generate_random_salt rnd n = rnd n"

text \<open>The slice \<open>[:length]\<close> panics beyond the end of the encoded text.\<close>

definition generate_random_password :: "rand_source \<Rightarrow> nat \<Rightarrow> string result" where
  "generate_random_password rnd n =
     (case rnd n of
        Fail e \<Rightarrow> Fail e
      | Panic \<Rightarrow> Panic
      | Ok bs \<Rightarrow>
          (let enc = base64url bs in if length enc < n then Panic else Ok (take n enc)))"

section \<open>Facts about the encoders\<close>

lemma unat_byte_less [simp]: "unat (b :: uint8) < 256"
  using unsigned_less [of b, where ?'a = nat] by simp

lemma byte_quotients [simp]:
  "unat (a :: uint8) div 4 < 64" "unat a div 16 < 16" "unat a div 64 < 4"
  using unat_byte_less [of a] by (simp_all add: less_mult_imp_div_less)

lemma byte_digit_bounds [simp]:
  "unat a mod 4 * 16 + unat (b :: uint8) div 16 < 64"
  "unat a mod 16 * 4 + unat (b :: uint8) div 64 < 64"
  "unat (a :: uint8) mod 4 * 16 < 64" "unat a mod 16 * 4 < 64"
proof -
  have "unat a mod 4 < 4" "unat a mod 16 < 16" "unat b div 16 < 16" "unat b div 64 < 4"
    by simp_all
  then show "unat a mod 4 * 16 + unat b div 16 < 64" "unat a mod 16 * 4 + unat b div 64 < 64"
    "unat a mod 4 * 16 < 64" "unat a mod 16 * 4 < 64"
    by linarith+
qed

lemma length_base64url: "length bs \<le> length (base64url bs)"
  by (induction bs rule: base64url.induct) auto

lemma url_alphabet_length: "length url_alphabet = 64"
  by (simp add: url_alphabet_def)

lemma base64url_alphabet: "set (base64url bs) \<subseteq> set url_alphabet"
  by (induction bs rule: base64url.induct) (auto simp: url_alphabet_length)

lemma url_alphabet_distinct: "distinct url_alphabet"
  unfolding url_alphabet_def by code_simp

lemma url_alphabet_inj: "i < 64 \<Longrightarrow> j < 64 \<Longrightarrow> url_alphabet ! i = url_alphabet ! j \<longleftrightarrow> i = j"
  by (simp add: nth_eq_iff_index_eq url_alphabet_distinct url_alphabet_length)

lemma two_digits_inj:
  "y < k \<Longrightarrow> y' < k \<Longrightarrow> x * k + y = x' * k + (y' :: nat) \<Longrightarrow> x = x' \<and> y = y'"
  by (metis add.commute div_less div_mult_self1 mod_less mod_mult_self1 add_0 gr_zeroI not_less_zero)

lemma base64_digits_inj:
  assumes "b < 256" "b' < 256" "c < 256" "c' < (256::nat)"
    and eqs: "a div 4 = a' div 4" "a mod 4 * 16 + b div 16 = a' mod 4 * 16 + b' div 16"
    "b mod 16 * 4 + c div 64 = b' mod 16 * 4 + c' div 64" "c mod 64 = c' mod 64"
  shows "a = a' \<and> b = b' \<and> c = c'"
proof -
  have "b div 16 < 16" "b' div 16 < 16" "c div 64 < 4" "c' div 64 < 4"
    using assms by (simp_all add: less_mult_imp_div_less)
  then have "a mod 4 = a' mod 4" "b div 16 = b' div 16" "b mod 16 = b' mod 16" "c div 64 = c' div 64"
    using two_digits_inj [OF _ _ eqs(2)] two_digits_inj [OF _ _ eqs(3)] by simp_all
  with eqs show ?thesis by (metis div_mult_mod_eq)
qed

lemma base64url_inj:
  "length bs = 3 * k \<Longrightarrow> length cs = 3 * k \<Longrightarrow> base64url bs = base64url cs \<Longrightarrow> bs = cs"
proof (induction k arbitrary: bs cs)
  case (Suc k)
  then obtain a b c r a' b' c' r' where bs: "bs = a # b # c # r" and cs: "cs = a' # b' # c' # r'"
    by (auto simp: length_Suc_conv numeral_3_eq_3)
  with Suc.prems have
    "unat a div 4 = unat a' div 4"
    "unat a mod 4 * 16 + unat b div 16 = unat a' mod 4 * 16 + unat b' div 16"
    "unat b mod 16 * 4 + unat c div 64 = unat b' mod 16 * 4 + unat c' div 64"
    "unat c mod 64 = unat c' mod 64"
    by (simp_all add: url_alphabet_inj)
  then have "a = a' \<and> b = b' \<and> c = c'"
    using base64_digits_inj [of "unat b" "unat b'" "unat c" "unat c'" "unat a" "unat a'"]
    by (simp add: word_unat_eq_iff)
  with Suc bs cs show ?case by simp
qed simp

lemma base64url_append:
  "length bs = 3 * k \<Longrightarrow> base64url (bs @ cs) = base64url bs @ base64url cs"
proof (induction k arbitrary: bs)
  case (Suc k)
  then obtain a b c r where "bs = a # b # c # r" "length r = 3 * k"
    by (auto simp: length_Suc_conv numeral_3_eq_3)
  with Suc.IH [of r] show ?case by simp
qed simp

lemma length_base64url_triples: "length bs = 3 * k \<Longrightarrow> length (base64url bs) = 4 * k"
proof (induction k arbitrary: bs)
  case (Suc k)
  then obtain a b c r where "bs = a # b # c # r" "length r = 3 * k"
    by (auto simp: length_Suc_conv numeral_3_eq_3)
  with Suc.IH [of r] show ?case by simp
qed simp

lemma hex_digit_values:
  "n < 16 \<Longrightarrow> upper_char (hex_digit n) \<in> set ''0123456789ABCDEF''"
proof -
  assume "n < 16"
  then have "n \<in> set [0..<16]" by simp
  moreover have "\<forall>n \<in> set [0..<16]. upper_char (hex_digit n) \<in> set ''0123456789ABCDEF''"
    by code_simp
  ultimately show ?thesis by blast
qed

lemma length_hex_encode: "length (hex_encode bs) = 2 * length bs"
  by (induction bs) (auto simp: hex_encode_def)

lemma hex_upper_chars: "set (to_upper (hex_encode bs)) \<subseteq> set ''0123456789ABCDEF''"
proof (induction bs)
  case (Cons b bs)
  have "unat b div 16 < 16" "unat b mod 16 < 16" by simp_all
  then have "upper_char (hex_digit (unat b div 16)) \<in> set ''0123456789ABCDEF''"
    "upper_char (hex_digit (unat b mod 16)) \<in> set ''0123456789ABCDEF''"
    by (simp_all only: hex_digit_values)
  with Cons show ?case unfolding to_upper_def hex_encode_def by simp
qed (simp add: to_upper_def hex_encode_def)

lemma generate_random_password_ok:
  "rnd n = Ok bs \<Longrightarrow> length bs = n \<Longrightarrow> generate_random_password rnd n = Ok (take n (base64url bs))"
  using length_base64url [of bs] by (simp add: generate_random_password_def Let_def)

section \<open>Properties\<close>

text \<open>When the random source fills the buffer, \<open>GenerateRandomPassword\<close> never slices
  past the encoded text: it returns a password of exactly the asked length over the
  URL-safe alphabet.\<close>

theorem generate_random_password_shape:
  assumes "rnd n = Ok bs" "length bs = n"
  shows "\<exists>p. generate_random_password rnd n = Ok p \<and> length p = n \<and> set p \<subseteq> set url_alphabet"
proof -
  have "length (take n (base64url bs)) = n" using assms(2) length_base64url [of bs] by simp
  moreover have "set (take n (base64url bs)) \<subseteq> set url_alphabet"
    using base64url_alphabet [of bs] set_take_subset [of n "base64url bs"] by (rule order_trans [rotated])
  ultimately show ?thesis using generate_random_password_ok [of rnd n bs] assms by simp
qed

theorem generate_random_password_shape_witness:
  "\<exists>p. generate_random_password (\<lambda>n. Ok (replicate n 255)) 12 = Ok p \<and> length p = 12"
  using generate_random_password_shape [of "\<lambda>n. Ok (replicate n 255)" 12 "replicate 12 255"] by auto

text \<open>The 12-character Guacamole password carries exactly the first nine of the twelve
  random bytes: it is their Base64 text, and equal passwords mean equal first nine bytes
  (72 bits of randomness).\<close>

theorem password_entropy:
  assumes "rnd 12 = Ok bs" "length bs = 12" "rnd' 12 = Ok bs'" "length bs' = 12"
  shows "generate_random_password rnd 12 = Ok (base64url (take 9 bs)) \<and>
         (generate_random_password rnd 12 = generate_random_password rnd' 12 \<longleftrightarrow>
            take 9 bs = take 9 bs')"
proof -
  have split: "take 12 (base64url cs) = base64url (take 9 cs)" if "length cs = 12" for cs
    using that base64url_append [of "take 9 cs" 3 "drop 9 cs"]
      length_base64url_triples [of "take 9 cs" 3] by simp
  then have "generate_random_password rnd 12 = Ok (base64url (take 9 bs))"
    "generate_random_password rnd' 12 = Ok (base64url (take 9 bs'))"
    using assms generate_random_password_ok [of rnd 12 bs]
      generate_random_password_ok [of rnd' 12 bs'] by simp_all
  then show ?thesis
    using base64url_inj [of "take 9 bs" 3 "take 9 bs'"] assms(2,4) by auto
qed

theorem password_entropy_witness:
  "generate_random_password (\<lambda>n. Ok (replicate n 0)) 12 \<noteq>
   generate_random_password (\<lambda>n. Ok (replicate n 7)) 12"
proof -
  have "take 9 (replicate 12 (0 :: uint8)) \<noteq> take 9 (replicate 12 7)"
    by (simp only: take_replicate) simp
  then show ?thesis
    using password_entropy [of "\<lambda>n. Ok (replicate n 0)" "replicate 12 0"
        "\<lambda>n. Ok (replicate n 7)" "replicate 12 7"] by (metis length_replicate)
qed

text \<open>The stored hash is a 32-byte SHA-256 digest of the password followed by the
  upper-case hexadecimal text of the salt (Guacamole's format), not of the salt followed by
  the password.\<close>

theorem password_hash_format:
  "length (hash_password_with_salt password salt) = 32 \<and>
   (\<exists>h. hash_password_with_salt password salt = sha256 (bytes_of password @ bytes_of h) \<and>
        length h = 2 * length salt \<and> set h \<subseteq> set ''0123456789ABCDEF'')"
proof -
  have "length (to_upper (hex_encode salt)) = 2 * length salt"
    by (simp add: to_upper_def length_hex_encode)
  then show ?thesis
    using hex_upper_chars [of salt]
    by (auto simp: hash_password_with_salt_def Let_def length_sha256
        intro!: exI [of _ "to_upper (hex_encode salt)"] simp del: set_simps)
qed

end
