(* ===== verification/Cleanup.thy ===== *)
theory Cleanup
  imports Prelude
begin

text \<open>
  \<open>service/cleanup.go\<close>: the chain of rollback functions \<open>CreateVM\<close> registers, over
  any state \<open>'s\<close>. The locale \<open>reversible\<close> is the contract between a step and the
  rollback registered for it: undoing the step restores the part of the state that
  \<open>view\<close> shows, and undoing looks at nothing else.
\<close>

section \<open>The code\<close>

record 's cleanup_chain =
  steps :: "('s \<Rightarrow> 's) list"

definition chain_push :: "('s \<Rightarrow> 's) \<Rightarrow> 's cleanup_chain \<Rightarrow> 's cleanup_chain" where
  "chain_push fn c = c\<lparr>steps := steps c @ [fn]\<rparr>"

text \<open>The loop counts \<open>i\<close> down from \<open>len(c.steps) - 1\<close>; the argument is \<open>i + 1\<close>.\<close>

fun run_from :: "('s \<Rightarrow> 's) list \<Rightarrow> nat \<Rightarrow> 's \<Rightarrow> 's" where
  "run_from fs 0 s = s"
| "run_from fs (Suc i) s = run_from fs i ((fs ! i) s)"

definition chain_run :: "'s cleanup_chain \<Rightarrow> 's \<Rightarrow> 's \<times> 's cleanup_chain" where
  "chain_run c s = (run_from (steps c) (length (steps c)) s, c\<lparr>steps := []\<rparr>)"

definition empty_chain :: "'s cleanup_chain" where
  "empty_chain = \<lparr>steps = []\<rparr>"

lemma run_from_append: "i \<le> length fs \<Longrightarrow> run_from (fs @ gs) i s = run_from fs i s"
  by (induction i arbitrary: s) (auto simp: nth_append)

lemma run_from_rev: "run_from fs (length fs) s = fold (\<lambda>f. f) (rev fs) s"
  by (induction fs arbitrary: s rule: rev_induct) (simp_all add: run_from_append)

lemma chain_run_empty [simp]: "fst (chain_run empty_chain s) = s"
  by (simp add: chain_run_def empty_chain_def)

lemma chain_run_push [simp]: "fst (chain_run (chain_push f c) s) = fst (chain_run c (f s))"
  by (simp add: chain_run_def chain_push_def run_from_append)

section \<open>The contract of a reversible step\<close>

locale reversible =
  fixes act :: "'a \<Rightarrow> 's \<Rightarrow> 's"
    and undo :: "'a \<Rightarrow> 's \<Rightarrow> 's"
    and enabled :: "'a \<Rightarrow> 's \<Rightarrow> bool"
    and view :: "'s \<Rightarrow> 'v"
  assumes undo_act: "enabled a s \<Longrightarrow> view (undo a (act a s)) = view s"
    and undo_cong: "view s = view t \<Longrightarrow> view (undo a s) = view (undo a t)"
begin

lemma undo_after_view_change:
  "enabled a s \<Longrightarrow> view t = view (act a s) \<Longrightarrow> view (undo a t) = view s"
  using undo_act undo_cong by metis

text \<open>
  Running the chain that registered one undo per performed step restores the view, also when
  the state moved on meanwhile, as long as the view is the one the last step left.
\<close>

lemma chain_restores:
  assumes "\<forall>i < length as. enabled (as ! i) (fold act (take i as) s)"
    and "view t = view (fold act as s)"
  shows "view (fst (chain_run (fold (\<lambda>a c. chain_push (undo a) c) as empty_chain) t)) = view s"
  using assms(2,1)
proof (induction as arbitrary: t rule: rev_induct)
  case (snoc a as)
  from snoc.prems(2) have "enabled a (fold act as s)"
    by (metis length_append_singleton lessI nth_append_length append_eq_conv_conj)
  with snoc.prems(1) have "view (undo a t) = view (fold act as s)"
    by (simp add: undo_after_view_change)
  moreover have "\<forall>i < length as. enabled (as ! i) (fold act (take i as) s)"
    using snoc.prems(2) by (metis length_append_singleton less_SucI nth_append take_append
        less_imp_le_nat diff_is_0_eq' take_0 append_Nil2)
  ultimately show ?case using snoc.IH [of "undo a t"] by simp
qed simp

end

section \<open>Properties\<close>

text \<open>\<open>run\<close> executes the registered functions in the reverse of the order they were
  pushed, each exactly once, and leaves the chain empty, so that a second \<open>run\<close> does
  nothing.\<close>

theorem cleanup_runs_in_reverse_once:
  "chain_run (fold chain_push fs empty_chain) s = (fold (\<lambda>f. f) (rev fs) s, empty_chain) \<and>
   chain_run (snd (chain_run c s)) t = (t, snd (chain_run c s))"
proof -
  have "steps (fold chain_push fs c) = steps c @ fs" for c
    by (induction fs arbitrary: c) (auto simp: chain_push_def)
  then have "fold chain_push fs empty_chain = \<lparr>steps = fs\<rparr>"
    by (simp add: empty_chain_def)
  then show ?thesis
    by (simp add: chain_run_def run_from_rev empty_chain_def)
qed

end
