(* ===== verification/ResourceManager.thy ===== *)
theory ResourceManager
  imports Cleanup
begin

text \<open>
  \<open>structure/vm.go\<close> and \<open>structure/resource_manager.go\<close>: the in-memory table of the
  Core machines, the VMs on them and their free resources. A Go pointer into the slice
  \<open>Cores\<close> is the index of its element (the slice does not move after startup; the
  moving slice of startup is modelled in \<open>Startup\<close>). A Go map that may be nil is an
  optional map. Each operation holds the mutex from beginning to end, so it is one
  function of the state here; \<open>LockedOperations\<close> has its accesses and its calls of the mutex. The free counters are \<open>uint32\<close> and wrap around.
\<close>

section \<open>The state\<close>

type_synonym uuid = string

record core_info =
  ci_Memory :: uint32
  ci_Cpu :: uint32
  ci_Disk :: uint32

record vm_info =
  IP_VM :: string
  VM_UUID :: uuid
  GuacPassword :: string
  MacAddr :: string
  VM_Memory :: uint32
  VM_Cpu :: uint32
  VM_Disk :: uint32

record core =
  core_IP :: string
  core_Port :: uint16
  CoreInfoIdx :: core_info
  IsAlive :: bool
  VMInfoIdx :: "(uuid \<rightharpoonup> vm_info) option"
  FreeMemory :: uint32
  FreeCPU :: uint32
  FreeDisk :: uint32

record resource_manager =
  Cores :: "core list"
  AliveVM :: "vm_info list"
  VMLocation :: "uuid \<rightharpoonup> nat"

record hardware_requirement =
  req_Memory :: uint32
  req_CPU :: uint32
  req_Disk :: uint32

record core_selection_result =
  sel_Core :: "nat option"
  sel_Index :: int
  AliveCount :: nat
  TotalCores :: nat

section \<open>The operations\<close>

definition new_resource_manager :: resource_manager where
  "new_resource_manager = \<lparr>Cores = [], AliveVM = [], VMLocation = Map.empty\<rparr>"

definition fits :: "hardware_requirement \<Rightarrow> core \<Rightarrow> bool" where
  "fits req c \<longleftrightarrow>
     FreeMemory c \<ge> req_Memory req \<and> FreeCPU c \<ge> req_CPU req \<and> FreeDisk c \<ge> req_Disk req"

fun select_loop ::
  "core list \<Rightarrow> nat \<Rightarrow> hardware_requirement \<Rightarrow> core_selection_result \<Rightarrow> core_selection_result" where
  "select_loop [] i req r = r"
| "select_loop (c # cs) i req r =
     (if \<not> IsAlive c then select_loop cs (Suc i) req r
      else let r' = r\<lparr>AliveCount := AliveCount r + 1\<rparr>
           in if fits req c then r'\<lparr>sel_Core := Some i, sel_Index := int i\<rparr>
              else select_loop cs (Suc i) req r')"

definition select_core :: "hardware_requirement \<Rightarrow> resource_manager \<Rightarrow> core_selection_result" where
  "select_core req rm =
     select_loop (Cores rm) 0 req
       \<lparr>sel_Core = None, sel_Index = -1, AliveCount = 0, TotalCores = length (Cores rm)\<rparr>"

text \<open>Reading a nil map yields no entry.\<close>

definition vms_of :: "core \<Rightarrow> uuid \<rightharpoonup> vm_info" where
  "vms_of c = (case VMInfoIdx c of None \<Rightarrow> Map.empty | Some m \<Rightarrow> m)"

definition alloc_core :: "uuid \<Rightarrow> vm_info \<Rightarrow> hardware_requirement \<Rightarrow> core \<Rightarrow> core" where
  "alloc_core uuid vm req c =
     c\<lparr>VMInfoIdx := Some ((vms_of c)(uuid \<mapsto> vm)),
       FreeMemory := FreeMemory c - req_Memory req,
       FreeCPU := FreeCPU c - req_CPU req,
       FreeDisk := FreeDisk c - req_Disk req\<rparr>"

definition allocate_resources ::
  "nat \<Rightarrow> uuid \<Rightarrow> vm_info \<Rightarrow> hardware_requirement \<Rightarrow> resource_manager \<Rightarrow> resource_manager" where
  "allocate_resources i uuid vm req rm =
     rm\<lparr>Cores := (Cores rm)[i := alloc_core uuid vm req (Cores rm ! i)]\<rparr>"

text \<open>Deleting from a nil map does nothing.\<close>

definition dealloc_core :: "uuid \<Rightarrow> hardware_requirement \<Rightarrow> core \<Rightarrow> core" where
  "dealloc_core uuid req c =
     c\<lparr>VMInfoIdx := map_option (\<lambda>m. m(uuid := None)) (VMInfoIdx c),
       FreeMemory := FreeMemory c + req_Memory req,
       FreeCPU := FreeCPU c + req_CPU req,
       FreeDisk := FreeDisk c + req_Disk req\<rparr>"

definition deallocate_resources ::
  "nat \<Rightarrow> uuid \<Rightarrow> hardware_requirement \<Rightarrow> resource_manager \<Rightarrow> resource_manager" where
  "deallocate_resources i uuid req rm =
     rm\<lparr>Cores := (Cores rm)[i := dealloc_core uuid req (Cores rm ! i)]\<rparr>"

definition register_vm :: "uuid \<Rightarrow> nat \<Rightarrow> vm_info \<Rightarrow> resource_manager \<Rightarrow> resource_manager" where
  "register_vm uuid i vm rm =
     rm\<lparr>VMLocation := (VMLocation rm)(uuid \<mapsto> i), AliveVM := AliveVM rm @ [vm]\<rparr>"

fun unregister_loop :: "uuid \<Rightarrow> vm_info list \<Rightarrow> vm_info list \<times> bool" where
  "unregister_loop uuid [] = ([], False)"
| "unregister_loop uuid (vm # vs) =
     (if VM_UUID vm = uuid then (vs, True)
      else let (rest, found) = unregister_loop uuid vs in (vm # rest, found))"

definition unregister_alive :: "uuid \<Rightarrow> resource_manager \<Rightarrow> bool \<times> resource_manager" where
  "unregister_alive uuid rm =
     (let (vs, found) = unregister_loop uuid (AliveVM rm) in (found, rm\<lparr>AliveVM := vs\<rparr>))"

section \<open>Selecting a core\<close>

lemma select_loop_None:
  assumes "\<forall>c \<in> set cs. \<not> (IsAlive c \<and> fits req c)"
  shows "select_loop cs i req r = r\<lparr>AliveCount := AliveCount r + length (filter IsAlive cs)\<rparr>"
  using assms by (induction cs arbitrary: i r) (auto simp: Let_def)

lemma select_loop_Some:
  assumes "k < length cs" "IsAlive (cs ! k)" "fits req (cs ! k)"
    "\<forall>j<k. \<not> (IsAlive (cs ! j) \<and> fits req (cs ! j))"
  shows "select_loop cs i req r =
    r\<lparr>AliveCount := AliveCount r + length (filter IsAlive (take (Suc k) cs)),
      sel_Core := Some (i + k), sel_Index := int (i + k)\<rparr>"
  using assms
proof (induction cs arbitrary: i r k)
  case (Cons c cs)
  show ?case
  proof (cases k)
    case 0
    with Cons.prems show ?thesis by (simp add: Let_def)
  next
    case (Suc k')
    with Cons.prems(4) have "\<not> (IsAlive c \<and> fits req c)" by force
    moreover have "\<forall>j<k'. \<not> (IsAlive (cs ! j) \<and> fits req (cs ! j))"
      using Cons.prems(4) Suc by force
    ultimately show ?thesis
      using Cons.IH [of k' "Suc i"] Cons.prems(1-3) Suc by (auto simp: Let_def)
  qed
qed simp

lemma select_core_cases:
  obtains (found) k where "k < length (Cores rm)" "IsAlive (Cores rm ! k)" "fits req (Cores rm ! k)"
      "\<forall>j<k. \<not> (IsAlive (Cores rm ! j) \<and> fits req (Cores rm ! j))"
      "select_core req rm =
        \<lparr>sel_Core = Some k, sel_Index = int k,
         AliveCount = length (filter IsAlive (take (Suc k) (Cores rm))),
         TotalCores = length (Cores rm)\<rparr>"
  | (none) "\<forall>c \<in> set (Cores rm). \<not> (IsAlive c \<and> fits req c)"
      "select_core req rm =
        \<lparr>sel_Core = None, sel_Index = -1, AliveCount = length (filter IsAlive (Cores rm)),
         TotalCores = length (Cores rm)\<rparr>"
proof (cases "\<exists>c \<in> set (Cores rm). IsAlive c \<and> fits req c")
  case True
  then obtain k where "k < length (Cores rm)" "IsAlive (Cores rm ! k) \<and> fits req (Cores rm ! k)"
    "\<forall>j<k. \<not> (IsAlive (Cores rm ! j) \<and> fits req (Cores rm ! j))"
    by (rule find_index_split)
  then show thesis
    by (intro found [of k]) (auto simp: select_core_def select_loop_Some [of k])
next
  case False
  then show thesis by (intro none) (auto simp: select_core_def select_loop_None)
qed

lemma select_core_Some_iff:
  "sel_Core (select_core req rm) = Some k \<longleftrightarrow>
     k < length (Cores rm) \<and> IsAlive (Cores rm ! k) \<and> fits req (Cores rm ! k) \<and>
     (\<forall>j<k. \<not> (IsAlive (Cores rm ! j) \<and> fits req (Cores rm ! j)))"
proof (cases rule: select_core_cases [where rm = rm and req = req])
  case (found l)
  then show ?thesis by (auto intro: linorder_cases [of k l])
next
  case none
  then show ?thesis by (auto dest: nth_mem)
qed

lemma select_core_None_iff:
  "sel_Core (select_core req rm) = None \<longleftrightarrow> (\<forall>c \<in> set (Cores rm). \<not> (IsAlive c \<and> fits req c))"
  by (cases rule: select_core_cases [where rm = rm and req = req]) auto

lemma select_core_Index:
  "sel_Index (select_core req rm) = (case sel_Core (select_core req rm) of None \<Rightarrow> -1 | Some k \<Rightarrow> int k)"
  by (cases rule: select_core_cases [where rm = rm and req = req]) auto

section \<open>Well-formedness\<close>

definition wf_core :: "core \<Rightarrow> bool" where
  "wf_core c \<longleftrightarrow> finite (dom (vms_of c)) \<and> (\<forall>u v. vms_of c u = Some v \<longrightarrow> VM_UUID v = u)"

definition wf_rm :: "resource_manager \<Rightarrow> bool" where
  "wf_rm rm \<longleftrightarrow> (\<forall>c \<in> set (Cores rm). wf_core c) \<and>
     (\<forall>u i. VMLocation rm u = Some i \<longrightarrow> i < length (Cores rm))"

lemma wf_rm_nth: "wf_rm rm \<Longrightarrow> i < length (Cores rm) \<Longrightarrow> wf_core (Cores rm ! i)"
  by (simp add: wf_rm_def)

lemma vms_of_alloc [simp]: "vms_of (alloc_core u vm req c) = (vms_of c)(u \<mapsto> vm)"
  by (simp add: vms_of_def alloc_core_def)

lemma vms_of_dealloc [simp]: "vms_of (dealloc_core u req c) = (vms_of c)(u := None)"
  by (auto simp: vms_of_def dealloc_core_def split: option.splits)

lemma free_alloc [simp]:
  "FreeMemory (alloc_core u vm req c) = FreeMemory c - req_Memory req"
  "FreeCPU (alloc_core u vm req c) = FreeCPU c - req_CPU req"
  "FreeDisk (alloc_core u vm req c) = FreeDisk c - req_Disk req"
  by (simp_all add: alloc_core_def)

lemma free_dealloc [simp]:
  "FreeMemory (dealloc_core u req c) = FreeMemory c + req_Memory req"
  "FreeCPU (dealloc_core u req c) = FreeCPU c + req_CPU req"
  "FreeDisk (dealloc_core u req c) = FreeDisk c + req_Disk req"
  by (simp_all add: dealloc_core_def)

lemma core_identity_kept [frame_simps]:
  "core_IP (alloc_core u vm req c) = core_IP c" "core_Port (alloc_core u vm req c) = core_Port c"
  "core_IP (dealloc_core u req c) = core_IP c" "core_Port (dealloc_core u req c) = core_Port c"
  "IsAlive (alloc_core u vm req c) = IsAlive c" "IsAlive (dealloc_core u req c) = IsAlive c"
  by (simp_all add: alloc_core_def dealloc_core_def)

lemma Cores_ops [simp]:
  "length (Cores (allocate_resources i u vm req rm)) = length (Cores rm)"
  "length (Cores (deallocate_resources i u req rm)) = length (Cores rm)"
  "Cores (register_vm u i vm rm) = Cores rm"
  "Cores (snd (unregister_alive u rm)) = Cores rm"
  "VMLocation (allocate_resources i u vm req rm) = VMLocation rm"
  "VMLocation (deallocate_resources i u req rm) = VMLocation rm"
  "VMLocation (snd (unregister_alive u rm)) = VMLocation rm"
  "AliveVM (allocate_resources i u vm req rm) = AliveVM rm"
  "AliveVM (deallocate_resources i u req rm) = AliveVM rm"
  by (simp_all add: allocate_resources_def deallocate_resources_def register_vm_def
      unregister_alive_def split: prod.split)

lemma wf_core_alloc: "wf_core c \<Longrightarrow> VM_UUID vm = u \<Longrightarrow> wf_core (alloc_core u vm req c)"
  by (auto simp: wf_core_def)

lemma wf_core_dealloc: "wf_core c \<Longrightarrow> wf_core (dealloc_core u req c)"
  by (auto simp: wf_core_def)

lemma set_list_update_intro:
  "\<forall>x \<in> set xs. P x \<Longrightarrow> (i < length xs \<Longrightarrow> P y) \<Longrightarrow> \<forall>x \<in> set (xs[i := y]). P x"
  by (metis in_set_conv_nth length_list_update list_update_beyond not_le_imp_less nth_list_update)

lemma wf_rm_allocate [inv_intros]:
  assumes "wf_rm rm" "VM_UUID vm = u"
  shows "wf_rm (allocate_resources i u vm req rm)"
proof -
  have "\<forall>c \<in> set ((Cores rm)[i := alloc_core u vm req (Cores rm ! i)]). wf_core c"
    using assms by (intro set_list_update_intro) (auto simp: wf_rm_def intro: wf_core_alloc)
  with assms(1) show ?thesis by (simp add: wf_rm_def allocate_resources_def)
qed

lemma wf_rm_deallocate [inv_intros]:
  assumes "wf_rm rm"
  shows "wf_rm (deallocate_resources i u req rm)"
proof -
  have "\<forall>c \<in> set ((Cores rm)[i := dealloc_core u req (Cores rm ! i)]). wf_core c"
    using assms by (intro set_list_update_intro) (auto simp: wf_rm_def intro: wf_core_dealloc)
  with assms show ?thesis by (simp add: wf_rm_def deallocate_resources_def)
qed

lemma wf_rm_register [inv_intros]:
  "wf_rm rm \<Longrightarrow> i < length (Cores rm) \<Longrightarrow> wf_rm (register_vm u i vm rm)"
  by (auto simp: wf_rm_def register_vm_def)

lemma wf_rm_unregister [inv_intros]: "wf_rm rm \<Longrightarrow> wf_rm (snd (unregister_alive u rm))"
  by (auto simp: wf_rm_def)

lemma wf_rm_new [inv_intros]: "wf_rm new_resource_manager"
  by (simp add: wf_rm_def new_resource_manager_def)

section \<open>The ledger of a core\<close>

text \<open>
  The free counters and the resources of the VMs on the core add up to a capacity,
  counted in natural numbers, so a counter that wrapped around would show.
\<close>

definition used :: "(vm_info \<Rightarrow> uint32) \<Rightarrow> core \<Rightarrow> nat" where
  "used f c = (\<Sum>u \<in> dom (vms_of c). unat (f (the (vms_of c u))))"

definition ledger :: "core \<Rightarrow> nat \<times> nat \<times> nat" where
  "ledger c = (unat (FreeMemory c) + used VM_Memory c,
               unat (FreeCPU c) + used VM_Cpu c,
               unat (FreeDisk c) + used VM_Disk c)"

definition matches :: "hardware_requirement \<Rightarrow> vm_info \<Rightarrow> bool" where
  "matches req vm \<longleftrightarrow>
     VM_Memory vm = req_Memory req \<and> VM_Cpu vm = req_CPU req \<and> VM_Disk vm = req_Disk req"

definition in_word_range :: "nat \<times> nat \<times> nat \<Rightarrow> bool" where
  "in_word_range t \<longleftrightarrow> (case t of (m, p, d) \<Rightarrow> m < 2 ^ 32 \<and> p < 2 ^ 32 \<and> d < 2 ^ 32)"

lemma used_alloc:
  assumes "finite (dom (vms_of c))" "vms_of c u = None"
  shows "used f (alloc_core u vm req c) = used f c + unat (f vm)"
proof -
  have "u \<notin> dom (vms_of c)" using assms(2) by auto
  then have "(\<Sum>w \<in> dom (vms_of c). unat (f (the (((vms_of c)(u \<mapsto> vm)) w)))) = used f c"
    unfolding used_def by (intro sum.cong) auto
  with assms \<open>u \<notin> dom (vms_of c)\<close> show ?thesis by (simp add: used_def)
qed

lemma used_dealloc:
  assumes "finite (dom (vms_of c))" "vms_of c u = Some vm"
  shows "used f c = used f (dealloc_core u req c) + unat (f vm)"
proof -
  have d: "dom (vms_of c) = insert u (dom (vms_of c) - {u})" using assms(2) by auto
  have "used f c = unat (f vm) + (\<Sum>w \<in> dom (vms_of c) - {u}. unat (f (the (vms_of c w))))"
    unfolding used_def using assms by (subst d, subst sum.insert) auto
  moreover have "(\<Sum>w \<in> dom (vms_of c) - {u}. unat (f (the (vms_of c w)))) =
      used f (dealloc_core u req c)"
    unfolding used_def by (intro sum.cong) auto
  ultimately show ?thesis by simp
qed

lemma ledger_alloc:
  assumes "finite (dom (vms_of c))" "vms_of c u = None" "matches req vm" "fits req c"
  shows "ledger (alloc_core u vm req c) = ledger c"
proof -
  have "unat (FreeMemory c - req_Memory req) + unat (req_Memory req) = unat (FreeMemory c)"
    "unat (FreeCPU c - req_CPU req) + unat (req_CPU req) = unat (FreeCPU c)"
    "unat (FreeDisk c - req_Disk req) + unat (req_Disk req) = unat (FreeDisk c)"
    using assms(4) by (auto simp: fits_def unat_sub_word word_le_nat_alt)
  with assms(3) show ?thesis
    using used_alloc [OF assms(1,2)] by (simp add: ledger_def matches_def)
qed

lemma ledger_dealloc:
  assumes "finite (dom (vms_of c))" "vms_of c u = Some vm" "matches req vm"
    "in_word_range (ledger c)"
  shows "ledger (dealloc_core u req c) = ledger c"
proof -
  note used = used_dealloc [OF assms(1,2), where req = req]
  have "unat (FreeMemory c + req_Memory req) = unat (FreeMemory c) + unat (req_Memory req)"
    "unat (FreeCPU c + req_CPU req) = unat (FreeCPU c) + unat (req_CPU req)"
    "unat (FreeDisk c + req_Disk req) = unat (FreeDisk c) + unat (req_Disk req)"
    using assms(3,4) used [of VM_Memory] used [of VM_Cpu] used [of VM_Disk]
    by (auto simp: ledger_def in_word_range_def matches_def intro!: unat_add_no_wrap)
  with assms(3) used [of VM_Memory] used [of VM_Cpu] used [of VM_Disk] show ?thesis
    by (simp add: ledger_def matches_def)
qed

section \<open>Allocation is reversible\<close>

text \<open>
  Allocating into a nil map creates it, and undoing leaves an empty map: the view
  identifies the two, as every reader of the map does.
\<close>

definition norm_core :: "core \<Rightarrow> core" where
  "norm_core c = c\<lparr>VMInfoIdx := Some (vms_of c)\<rparr>"

definition rm_view :: "resource_manager \<Rightarrow> core list \<times> vm_info list \<times> (uuid \<rightharpoonup> nat)" where
  "rm_view rm = (map norm_core (Cores rm), AliveVM rm, VMLocation rm)"

type_synonym allocation = "nat \<times> uuid \<times> vm_info \<times> hardware_requirement"

fun do_allocate :: "allocation \<Rightarrow> resource_manager \<Rightarrow> resource_manager" where
  "do_allocate (i, u, vm, req) rm = allocate_resources i u vm req rm"

fun undo_allocate :: "allocation \<Rightarrow> resource_manager \<Rightarrow> resource_manager" where
  "undo_allocate (i, u, vm, req) rm = deallocate_resources i u req rm"

fun can_allocate :: "allocation \<Rightarrow> resource_manager \<Rightarrow> bool" where
  "can_allocate (i, u, vm, req) rm \<longleftrightarrow> i < length (Cores rm) \<and> vms_of (Cores rm ! i) u = None"

lemma norm_core_dealloc: "norm_core (dealloc_core u req c) = dealloc_core u req (norm_core c)"
  by (auto simp: norm_core_def dealloc_core_def vms_of_def split: option.splits)

lemma norm_core_dealloc_alloc:
  "vms_of c u = None \<Longrightarrow> norm_core (dealloc_core u req (alloc_core u vm req c)) = norm_core c"
  by (auto simp: norm_core_def dealloc_core_def alloc_core_def vms_of_def fun_eq_iff
      split: option.splits)

lemma vms_of_norm_core [simp]: "vms_of (norm_core c) = vms_of c"
  by (simp add: norm_core_def vms_of_def)

interpretation alloc: reversible do_allocate undo_allocate can_allocate rm_view
proof
  fix a :: allocation and s :: resource_manager
  obtain i u vm req where a: "a = (i, u, vm, req)" by (cases a)
  show "rm_view (undo_allocate a (do_allocate a s)) = rm_view s" if "can_allocate a s"
    using that
    by (simp add: a rm_view_def allocate_resources_def deallocate_resources_def
        map_update norm_core_dealloc_alloc list_update_same_conv)
next
  fix a :: allocation and s t :: resource_manager
  obtain i u vm req where a: "a = (i, u, vm, req)" by (cases a)
  assume v: "rm_view s = rm_view t"
  have view: "rm_view (undo_allocate a r) =
      ((map norm_core (Cores r))[i := dealloc_core u req (map norm_core (Cores r) ! i)],
       AliveVM r, VMLocation r)" for r
    by (cases "i < length (Cores r)")
      (auto simp: a rm_view_def deallocate_resources_def map_update norm_core_dealloc list_update_beyond)
  from v show "rm_view (undo_allocate a s) = rm_view (undo_allocate a t)"
    by (simp only: view) (simp add: rm_view_def)
qed

lemma rm_view_lookup:
  assumes "rm_view rm = rm_view rm'"
  shows "length (Cores rm) = length (Cores rm')" "VMLocation rm = VMLocation rm'"
    "AliveVM rm = AliveVM rm'"
    "i < length (Cores rm) \<Longrightarrow> norm_core (Cores rm ! i) = norm_core (Cores rm' ! i)"
  using assms map_eq_imp_length_eq [of norm_core "Cores rm" norm_core "Cores rm'"]
  by (auto simp: rm_view_def) (metis nth_map)

section \<open>Properties\<close>

text \<open>C18: \<open>SelectCore\<close> is first fit: it returns the first core that is alive and has at least
  the memory, the CPUs and the disk of the request free, with its index and the number of alive cores looked at; it
  returns no core and index -1 exactly when no alive core fits, and then counts all alive
  cores.\<close>

theorem select_core_first_fit:
  "(let enough = (\<lambda>c. IsAlive c \<and> unat (req_Memory req) \<le> unat (FreeMemory c) \<and>
         unat (req_CPU req) \<le> unat (FreeCPU c) \<and> unat (req_Disk req) \<le> unat (FreeDisk c))
    in case sel_Core (select_core req rm) of
      Some k \<Rightarrow> k < length (Cores rm) \<and> enough (Cores rm ! k) \<and>
        filter enough (take k (Cores rm)) = [] \<and>
        sel_Index (select_core req rm) = int k \<and>
        AliveCount (select_core req rm) = length (filter IsAlive (take (Suc k) (Cores rm)))
    | None \<Rightarrow> filter enough (Cores rm) = [] \<and>
        sel_Index (select_core req rm) = -1 \<and>
        AliveCount (select_core req rm) = length (filter IsAlive (Cores rm))) \<and>
   TotalCores (select_core req rm) = length (Cores rm)"
proof -
  have enough: "(IsAlive c \<and> unat (req_Memory req) \<le> unat (FreeMemory c) \<and>
      unat (req_CPU req) \<le> unat (FreeCPU c) \<and> unat (req_Disk req) \<le> unat (FreeDisk c)) = (IsAlive c \<and> fits req c)" for c
    by (simp add: fits_def word_le_nat_alt)
  show ?thesis
  proof (cases rule: select_core_cases [where rm = rm and req = req])
    case (found k)
    then have "filter (\<lambda>c. IsAlive c \<and> fits req c) (take k (Cores rm)) = []"
      by (auto simp: filter_empty_conv in_set_conv_nth)
    with found show ?thesis by (simp add: enough)
  qed (simp add: enough filter_empty_conv)
qed

text \<open>Allocating the VM on the core \<open>SelectCore\<close> chose never wraps a counter around
  and conserves the capacity of every core: free plus used memory, CPU and disk stay what
  they were, counted in natural numbers.\<close>

theorem allocate_selected_conserves_capacity:
  assumes "wf_rm rm" "sel_Core (select_core req rm) = Some k"
    "vms_of (Cores rm ! k) u = None" "matches req vm"
  defines "rm' \<equiv> allocate_resources k u vm req rm"
  shows "map ledger (Cores rm') = map ledger (Cores rm) \<and>
         unat (FreeMemory (Cores rm' ! k)) + unat (req_Memory req) = unat (FreeMemory (Cores rm ! k)) \<and>
         unat (FreeCPU (Cores rm' ! k)) + unat (req_CPU req) = unat (FreeCPU (Cores rm ! k)) \<and>
         unat (FreeDisk (Cores rm' ! k)) + unat (req_Disk req) = unat (FreeDisk (Cores rm ! k))"
proof -
  from assms(2) have k: "k < length (Cores rm)" "fits req (Cores rm ! k)"
    by (auto simp: select_core_Some_iff)
  with assms have "ledger (alloc_core u vm req (Cores rm ! k)) = ledger (Cores rm ! k)"
    by (intro ledger_alloc) (auto dest: wf_rm_nth simp: wf_core_def)
  with k show ?thesis
    by (auto simp: rm'_def allocate_resources_def map_update list_update_same_conv fits_def
        unat_sub_word word_le_nat_alt)
qed

definition demo_core :: core where
  "demo_core = \<lparr>core_IP = ''10.0.0.5'', core_Port = 8080,
     CoreInfoIdx = \<lparr>ci_Memory = 65536, ci_Cpu = 9999, ci_Disk = 512000\<rparr>, IsAlive = True,
     VMInfoIdx = None, FreeMemory = 49152, FreeCPU = 9999, FreeDisk = 409600\<rparr>"

definition demo_rm :: resource_manager where
  "demo_rm = \<lparr>Cores = [demo_core\<lparr>IsAlive := False\<rparr>, demo_core], AliveVM = [], VMLocation = Map.empty\<rparr>"

definition demo_req :: hardware_requirement where
  "demo_req = \<lparr>req_Memory = 4096, req_CPU = 2, req_Disk = 20480\<rparr>"

definition demo_vm :: vm_info where
  "demo_vm = \<lparr>IP_VM = ''10.0.1.100'', VM_UUID = ''vm-1'', GuacPassword = ''pw'', MacAddr = ''m'',
     VM_Memory = 4096, VM_Cpu = 2, VM_Disk = 20480\<rparr>"

lemmas demo_defs = demo_core_def demo_rm_def demo_req_def demo_vm_def

lemma demo_facts:
  "sel_Core (select_core demo_req demo_rm) = Some 1" "wf_rm demo_rm"
  "vms_of (Cores demo_rm ! 1) u = None" "matches demo_req demo_vm"
  by (simp_all add: demo_defs select_core_def fits_def wf_rm_def wf_core_def vms_of_def matches_def)

theorem allocate_selected_conserves_capacity_witness:
  "unat (FreeMemory (Cores (allocate_resources 1 ''vm-1'' demo_vm demo_req demo_rm) ! 1)) + 4096 = 49152"
  using allocate_selected_conserves_capacity [OF demo_facts(2,1,3,4), of "''vm-1''"]
  by (simp add: demo_defs)

text \<open>\<open>DeallocateResources\<close> is the inverse of \<open>AllocateResources\<close> for a VM that was not
  on the core: whatever the requested sizes, the free counters (as wrapping words), the VM
  table, the locations and the list of running VMs are what they were.\<close>

theorem deallocate_undoes_allocate:
  assumes "i < length (Cores rm)" "vms_of (Cores rm ! i) u = None"
  shows "rm_view (deallocate_resources i u req (allocate_resources i u vm req rm)) = rm_view rm"
  using alloc.undo_act [of "(i, u, vm, req)" rm] assms by simp

theorem deallocate_undoes_allocate_witness:
  "rm_view (deallocate_resources 1 ''vm-1'' demo_req
     (allocate_resources 1 ''vm-1'' demo_vm demo_req demo_rm)) = rm_view demo_rm"
  by (rule deallocate_undoes_allocate) (simp_all add: demo_defs vms_of_def)

text \<open>\<open>UnregisterAlive\<close> removes exactly the first running VM with the given UUID, keeps
  the order of the others, reports whether there was one and changes nothing else.\<close>

theorem unregister_alive_removes_first:
  "map VM_UUID (AliveVM (snd (unregister_alive u rm))) = remove1 u (map VM_UUID (AliveVM rm)) \<and>
   (fst (unregister_alive u rm) \<longleftrightarrow> u \<in> VM_UUID ` set (AliveVM rm)) \<and>
   set (AliveVM (snd (unregister_alive u rm))) \<subseteq> set (AliveVM rm) \<and>
   (snd (unregister_alive u rm))\<lparr>AliveVM := AliveVM rm\<rparr> = rm"
proof -
  have loop: "map VM_UUID (fst (unregister_loop u vs)) = remove1 u (map VM_UUID vs) \<and>
      (snd (unregister_loop u vs) \<longleftrightarrow> u \<in> VM_UUID ` set vs) \<and>
      set (fst (unregister_loop u vs)) \<subseteq> set vs" for vs
    by (induction vs) (auto split: prod.splits)
  show ?thesis using loop [of "AliveVM rm"]
    by (auto simp: unregister_alive_def split: prod.splits)
qed

end
