(* ===== verification/Repository.thy ===== *)
theory Repository
  imports ResourceManager
begin

text \<open>
  \<open>structure/repository.go\<close> and \<open>structure/mysql_vm_repository.go\<close>: the interface
  \<open>VMRepository\<close> is the locale \<open>vm_repository\<close>, its MySQL implementation the
  definitions below, over the tables \<open>inst_info\<close>, \<open>inst_loc\<close> and \<open>subnet\<close>
  of \<open>startup/init.sh\<close>. A table is the list of its rows; the primary keys are the only
  constraint the statements can violate by themselves. Everything else that can go wrong
  (a lost connection, the 5 s or 3 s timeout of the context, a value a column rejects) is
  an error the environment record injects at the statement it names. A COMMIT may report
  an error without effect, or after it took effect (the acknowledgement was lost).
\<close>

section \<open>The database\<close>

record info_row =
  inst_uuid :: uuid
  inst_ip :: string
  guac_pass :: string
  inst_mem :: uint32
  inst_vcpu :: uint32
  inst_disk :: uint32

record main_db =
  inst_info :: "info_row list"
  inst_loc :: "(uuid \<times> int) list"
  last_subnet :: string

datatype commit_result = Committed | CommitFailed error | CommitLost error

text \<open>A transaction works on a copy: \<open>old\<close> is the committed state, \<open>new\<close> the copy.\<close>

fun commit_tx :: "commit_result \<Rightarrow> 'd \<Rightarrow> 'd \<Rightarrow> unit result \<times> 'd" where
  "commit_tx Committed old new = (Ok (), new)"
| "commit_tx (CommitFailed e) old new = (Fail e, old)"
| "commit_tx (CommitLost e) old new = (Fail e, new)"

record tx_env =
  tx_begin :: "error option"
  tx_stmt1 :: "error option"
  tx_stmt2 :: "error option"
  tx_commit :: commit_result

definition no_faults :: tx_env where
  "no_faults = \<lparr>tx_begin = None, tx_stmt1 = None, tx_stmt2 = None, tx_commit = Committed\<rparr>"

definition duplicate_error :: "string \<Rightarrow> uuid \<Rightarrow> error" where
  "duplicate_error table u =
     ''Error 1062 (23000): Duplicate entry '' @ u @ '' for key '' @ table @ ''.PRIMARY''"

definition no_rows_error :: error where
  "no_rows_error = ''sql: no rows in result set''"

section \<open>The operations\<close>

definition row_of_info :: "vm_info \<Rightarrow> info_row" where
  "row_of_info i = \<lparr>inst_uuid = VM_UUID i, inst_ip = IP_VM i, guac_pass = GuacPassword i,
     inst_mem = VM_Memory i, inst_vcpu = VM_Cpu i, inst_disk = VM_Disk i\<rparr>"

text \<open>The scan of a row leaves the field \<open>MacAddr\<close>, which has no column, at its zero value.\<close>

definition info_of_row :: "info_row \<Rightarrow> vm_info" where
  "info_of_row r = \<lparr>IP_VM = inst_ip r, VM_UUID = inst_uuid r, GuacPassword = guac_pass r,
     MacAddr = [], VM_Memory = inst_mem r, VM_Cpu = inst_vcpu r, VM_Disk = inst_disk r\<rparr>"

definition insert_info :: "error option \<Rightarrow> info_row \<Rightarrow> main_db \<Rightarrow> main_db result" where
  "insert_info fault r db =
     (case fault of Some e \<Rightarrow> Fail e
      | None \<Rightarrow>
          if inst_uuid r \<in> inst_uuid ` set (inst_info db)
          then Fail (duplicate_error ''inst_info'' (inst_uuid r))
          else Ok (db\<lparr>inst_info := inst_info db @ [r]\<rparr>))"

definition insert_loc :: "error option \<Rightarrow> uuid \<Rightarrow> int \<Rightarrow> main_db \<Rightarrow> main_db result" where
  "insert_loc fault u k db =
     (case fault of Some e \<Rightarrow> Fail e
      | None \<Rightarrow>
          if u \<in> fst ` set (inst_loc db) then Fail (duplicate_error ''inst_loc'' u)
          else Ok (db\<lparr>inst_loc := inst_loc db @ [(u, k)]\<rparr>))"

definition add_instance :: "tx_env \<Rightarrow> vm_info \<Rightarrow> int \<Rightarrow> main_db \<Rightarrow> unit result \<times> main_db" where
  "add_instance e i k db =
     (case tx_begin e of Some err \<Rightarrow> (Fail err, db)
      | None \<Rightarrow>
        (case insert_info (tx_stmt1 e) (row_of_info i) db of
           Ok db1 \<Rightarrow>
             (case insert_loc (tx_stmt2 e) (VM_UUID i) k db1 of
                Ok db2 \<Rightarrow> commit_tx (tx_commit e) db db2
              | Fail err \<Rightarrow> (Fail err, db)
              | Panic \<Rightarrow> (Panic, db))
         | Fail err \<Rightarrow> (Fail err, db)
         | Panic \<Rightarrow> (Panic, db)))"

definition update_row :: "vm_info \<Rightarrow> info_row \<Rightarrow> info_row" where
  "update_row i r =
     (if inst_uuid r = VM_UUID i
      then r\<lparr>inst_ip := IP_VM i, inst_mem := VM_Memory i, inst_vcpu := VM_Cpu i, inst_disk := VM_Disk i\<rparr>
      else r)"

definition update_instance :: "tx_env \<Rightarrow> vm_info \<Rightarrow> main_db \<Rightarrow> unit result \<times> main_db" where
  "update_instance e i db =
     (case tx_begin e of Some err \<Rightarrow> (Fail err, db)
      | None \<Rightarrow>
        (case tx_stmt1 e of Some err \<Rightarrow> (Fail err, db)
         | None \<Rightarrow>
             commit_tx (tx_commit e) db (db\<lparr>inst_info := map (update_row i) (inst_info db)\<rparr>)))"

definition delete_instance :: "tx_env \<Rightarrow> uuid \<Rightarrow> main_db \<Rightarrow> unit result \<times> main_db" where
  "delete_instance e u db =
     (case tx_begin e of Some err \<Rightarrow> (Fail err, db)
      | None \<Rightarrow>
        (case tx_stmt1 e of Some err \<Rightarrow> (Fail err, db)
         | None \<Rightarrow>
           let db1 = db\<lparr>inst_info := filter (\<lambda>r. inst_uuid r \<noteq> u) (inst_info db)\<rparr>
           in (case tx_stmt2 e of Some err \<Rightarrow> (Fail err, db)
               | None \<Rightarrow>
                   commit_tx (tx_commit e) db
                     (db1\<lparr>inst_loc := filter (\<lambda>p. fst p \<noteq> u) (inst_loc db1)\<rparr>))))"

text \<open>A read ends with COMMIT too, whose error it returns beside the value.\<close>

definition commit_read :: "commit_result \<Rightarrow> 'a \<Rightarrow> 'a result" where
  "commit_read c x =
     (case c of Committed \<Rightarrow> Ok x | CommitFailed e \<Rightarrow> Fail e | CommitLost e \<Rightarrow> Fail e)"

definition get_instance :: "tx_env \<Rightarrow> uuid \<Rightarrow> main_db \<Rightarrow> vm_info result" where
  "get_instance e u db =
     (case tx_begin e of Some err \<Rightarrow> Fail err
      | None \<Rightarrow>
        (case tx_stmt1 e of Some err \<Rightarrow> Fail err
         | None \<Rightarrow>
           (case find (\<lambda>r. inst_uuid r = u) (inst_info db) of
              None \<Rightarrow> Fail no_rows_error
            | Some r \<Rightarrow> commit_read (tx_commit e) (info_of_row r))))"

definition get_instance_location :: "tx_env \<Rightarrow> uuid \<Rightarrow> main_db \<Rightarrow> int result" where
  "get_instance_location e u db =
     (case tx_begin e of Some err \<Rightarrow> Fail err
      | None \<Rightarrow>
        (case tx_stmt1 e of Some err \<Rightarrow> Fail err
         | None \<Rightarrow>
           (case map_of (inst_loc db) u of
              None \<Rightarrow> Fail no_rows_error
            | Some k \<Rightarrow> commit_read (tx_commit e) k)))"

text \<open>
  The join of the two tables on the UUID; \<open>tx_stmt1\<close> is an error of the query,
  \<open>tx_stmt2\<close> one of \<open>rows.Scan\<close> or \<open>rows.Err\<close>.
\<close>

definition join_rows :: "main_db \<Rightarrow> (vm_info \<times> int) list" where
  "join_rows db =
     concat (map (\<lambda>(u, k). map (\<lambda>r. (info_of_row r, k)) (filter (\<lambda>r. inst_uuid r = u) (inst_info db)))
                 (inst_loc db))"

definition get_all_instance_info :: "tx_env \<Rightarrow> main_db \<Rightarrow> (vm_info list \<times> int list) result" where
  "get_all_instance_info e db =
     (case tx_begin e of Some err \<Rightarrow> Fail err
      | None \<Rightarrow>
        (case tx_stmt1 e of Some err \<Rightarrow> Fail err
         | None \<Rightarrow>
           (case tx_stmt2 e of Some err \<Rightarrow> Fail err
            | None \<Rightarrow> commit_read (tx_commit e) (map fst (join_rows db), map snd (join_rows db)))))"

section \<open>The interface\<close>

text \<open>What reading back an instance yields: everything but the MAC address.\<close>

definition stored :: "vm_info \<Rightarrow> vm_info" where
  "stored i = i\<lparr>MacAddr := []\<rparr>"

definition updated :: "vm_info \<Rightarrow> vm_info \<Rightarrow> vm_info" where
  "updated i old = old\<lparr>IP_VM := IP_VM i, VM_Memory := VM_Memory i, VM_Cpu := VM_Cpu i, VM_Disk := VM_Disk i\<rparr>"

locale vm_repository =
  fixes add :: "'e \<Rightarrow> vm_info \<Rightarrow> int \<Rightarrow> 'db \<Rightarrow> unit result \<times> 'db"
    and upd :: "'e \<Rightarrow> vm_info \<Rightarrow> 'db \<Rightarrow> unit result \<times> 'db"
    and del :: "'e \<Rightarrow> uuid \<Rightarrow> 'db \<Rightarrow> unit result \<times> 'db"
    and locate :: "'e \<Rightarrow> uuid \<Rightarrow> 'db \<Rightarrow> int result"
    and get_all :: "'e \<Rightarrow> 'db \<Rightarrow> (vm_info list \<times> int list) result"
    and invar :: "'db \<Rightarrow> bool"
    and view :: "'db \<Rightarrow> uuid \<rightharpoonup> vm_info \<times> int"
  assumes add_cases: "invar db \<Longrightarrow> add e i k db = (r, db') \<Longrightarrow> invar db' \<and>
      (view db' = view db \<and> \<not> is_ok r \<or>
       view db (VM_UUID i) = None \<and> view db' = (view db)(VM_UUID i \<mapsto> (stored i, k)))"
    and upd_cases: "invar db \<Longrightarrow> upd e i db = (r, db') \<Longrightarrow> invar db' \<and>
      (view db' = view db \<and> \<not> is_ok r \<or>
       view db' = (view db)(VM_UUID i :=
         map_option (\<lambda>(old, k). (updated i old, k)) (view db (VM_UUID i))))"
    and del_cases: "invar db \<Longrightarrow> del e u db = (r, db') \<Longrightarrow> invar db' \<and>
      (view db' = view db \<and> \<not> is_ok r \<or> view db' = (view db)(u := None))"
    and locate_ok: "invar db \<Longrightarrow> locate e u db = Ok k \<Longrightarrow> \<exists>i. view db u = Some (i, k)"
    and get_all_ok: "invar db \<Longrightarrow> get_all e db = Ok (vs, ks) \<Longrightarrow>
      length vs = length ks \<and> distinct (map VM_UUID vs) \<and>
      map_of (zip (map VM_UUID vs) (zip vs ks)) = view db"
begin

lemma add_ok:
  assumes "invar db" "add e i k db = (Ok (), db')"
  shows "view db (VM_UUID i) = None" "view db' = (view db)(VM_UUID i \<mapsto> (stored i, k))"
  using add_cases [OF assms] by auto

lemma added_is_located:
  assumes "invar db" "add e i k db = (Ok (), db')" "locate e' (VM_UUID i) db' = Ok k'"
  shows "k' = k"
  using add_cases [OF assms(1,2)] locate_ok [of db' e' "VM_UUID i" k'] assms(3) by auto

lemma del_ok:
  assumes "invar db" "del e u db = (Ok (), db')"
  shows "view db' = (view db)(u := None)"
  using del_cases [OF assms] by auto

lemma deleted_is_not_located:
  assumes "invar db" "del e u db = (Ok (), db')"
  shows "locate e' u db' \<noteq> Ok k"
  using del_cases [OF assms] locate_ok [of db' e' u k] by auto

lemma deleted_is_not_listed:
  assumes "invar db" "del e u db = (Ok (), db')" "get_all e' db' = Ok (vs, ks)"
  shows "u \<notin> VM_UUID ` set vs"
proof -
  from assms have "invar db'" and v: "view db' u = None" using del_cases by fastforce+
  with get_all_ok [OF this(1) assms(3)] have "map_of (zip (map VM_UUID vs) (zip vs ks)) u = None"
    "length vs = length ks" by simp_all
  then show ?thesis by (simp add: map_of_zip_is_None)
qed

end

section \<open>MySQL implements the interface\<close>

definition wf_db :: "main_db \<Rightarrow> bool" where
  "wf_db db \<longleftrightarrow> distinct (map inst_uuid (inst_info db)) \<and> distinct (map fst (inst_loc db)) \<and>
     inst_uuid ` set (inst_info db) = fst ` set (inst_loc db)"

definition info_map :: "main_db \<Rightarrow> uuid \<rightharpoonup> info_row" where
  "info_map db = map_of (map (\<lambda>r. (inst_uuid r, r)) (inst_info db))"

definition db_view :: "main_db \<Rightarrow> uuid \<rightharpoonup> vm_info \<times> int" where
  "db_view db u =
     (case (info_map db u, map_of (inst_loc db) u) of
        (Some r, Some k) \<Rightarrow> Some (info_of_row r, k)
      | _ \<Rightarrow> None)"

lemma info_map_Some: "info_map db u = Some r \<Longrightarrow> r \<in> set (inst_info db) \<and> inst_uuid r = u"
  unfolding info_map_def by (auto dest!: map_of_SomeD)

lemma info_map_None_iff: "info_map db u = None \<longleftrightarrow> u \<notin> inst_uuid ` set (inst_info db)"
  by (simp add: info_map_def map_of_eq_None_iff image_image)

lemma loc_None_iff: "map_of (inst_loc db) u = None \<longleftrightarrow> u \<notin> fst ` set (inst_loc db)"
  by (simp add: map_of_eq_None_iff)

lemma same_keys:
  "wf_db db \<Longrightarrow> info_map db u = None \<longleftrightarrow> map_of (inst_loc db) u = None"
  by (simp add: info_map_None_iff loc_None_iff wf_db_def)

lemma info_of_row_of_info [simp]: "info_of_row (row_of_info i) = stored i"
  by (simp add: info_of_row_def row_of_info_def stored_def)

lemma info_of_row_uuid [simp]: "VM_UUID (info_of_row r) = inst_uuid r"
  by (simp add: info_of_row_def)

lemma stored_simps [simp]:
  "VM_UUID (stored i) = VM_UUID i" "IP_VM (stored i) = IP_VM i"
  "GuacPassword (stored i) = GuacPassword i" "VM_Memory (stored i) = VM_Memory i"
  "VM_Cpu (stored i) = VM_Cpu i" "VM_Disk (stored i) = VM_Disk i" "MacAddr (stored i) = []"
  by (simp_all add: stored_def)

lemma map_of_filter_key:
  "map_of (map (\<lambda>r. (f r, r)) (filter (\<lambda>r. f r \<noteq> u) xs)) = (map_of (map (\<lambda>r. (f r, r)) xs))(u := None)"
  by (induction xs) (auto simp: fun_eq_iff)

lemma map_of_filter_fst:
  "map_of (filter (\<lambda>p. fst p \<noteq> u) xs) = (map_of xs)(u := None)"
  by (induction xs) (auto simp: fun_eq_iff)

lemma map_of_update_row:
  "map_of (map (\<lambda>r. (inst_uuid r, r)) (map (update_row i) xs)) w =
     map_option (update_row i) (map_of (map (\<lambda>r. (inst_uuid r, r)) xs) w)"
  by (induction xs) (auto simp: update_row_def)

lemma update_row_uuid [simp]: "inst_uuid (update_row i r) = inst_uuid r"
  by (simp add: update_row_def)

lemma filter_unique:
  assumes "distinct (map inst_uuid rs)" "r \<in> set rs"
  shows "filter (\<lambda>x. inst_uuid x = inst_uuid r) rs = [r]"
  using assms by (induction rs) (auto simp: filter_empty_conv image_iff)

subsection \<open>The three writes\<close>

lemma insert_rows_view:
  fixes k :: int
  assumes "wf_db db" "VM_UUID i \<notin> inst_uuid ` set (inst_info db)"
  defines "db2 \<equiv> db\<lparr>inst_info := inst_info db @ [row_of_info i], inst_loc := inst_loc db @ [(VM_UUID i, k)]\<rparr>"
  shows "wf_db db2" "db_view db (VM_UUID i) = None"
    "db_view db2 = (db_view db)(VM_UUID i \<mapsto> (stored i, k))"
proof -
  have u: "inst_uuid (row_of_info i) = VM_UUID i" by (simp add: row_of_info_def)
  have nl: "VM_UUID i \<notin> fst ` set (inst_loc db)" using assms(1,2) by (auto simp: wf_db_def)
  show "wf_db db2" using assms(1,2) nl by (auto simp: wf_db_def db2_def u)
  have "VM_UUID i \<notin> fst ` set (map (\<lambda>r. (inst_uuid r, r)) (inst_info db))"
    using assms(2) by (simp add: image_image)
  then have info: "info_map db2 = (info_map db)(VM_UUID i \<mapsto> row_of_info i)"
    by (simp add: info_map_def db2_def u map_of_snoc del: map_of_append)
  have loc: "map_of (inst_loc db2) = (map_of (inst_loc db))(VM_UUID i \<mapsto> k)"
    using nl by (simp add: db2_def map_of_snoc del: map_of_append)
  show "db_view db (VM_UUID i) = None"
    using assms(2) by (simp add: db_view_def info_map_None_iff [symmetric])
  show "db_view db2 = (db_view db)(VM_UUID i \<mapsto> (stored i, k))"
    by (rule ext) (simp add: db_view_def info loc)
qed

lemma add_instance_cases:
  assumes "add_instance e i k db = (r, db')"
  obtains (unchanged) "db' = db" "\<not> is_ok r"
  | (written) "VM_UUID i \<notin> inst_uuid ` set (inst_info db)"
      "db' = db\<lparr>inst_info := inst_info db @ [row_of_info i], inst_loc := inst_loc db @ [(VM_UUID i, k)]\<rparr>"
      "(r = Ok ()) = (tx_commit e = Committed)"
proof -
  have u: "inst_uuid (row_of_info i) = VM_UUID i" by (simp add: row_of_info_def)
  from assms show thesis
    by (cases "tx_commit e")
      (auto simp: add_instance_def insert_info_def insert_loc_def u
        split: option.splits if_splits intro: unchanged written)
qed

lemma delete_rows_view:
  fixes u :: uuid
  assumes "wf_db db"
  defines "db2 \<equiv> db\<lparr>inst_info := filter (\<lambda>r. inst_uuid r \<noteq> u) (inst_info db),
                     inst_loc := filter (\<lambda>p. fst p \<noteq> u) (inst_loc db)\<rparr>"
  shows "wf_db db2" "db_view db2 = (db_view db)(u := None)"
proof -
  have "inst_uuid ` {r \<in> set (inst_info db). inst_uuid r \<noteq> u} = inst_uuid ` set (inst_info db) - {u}"
    "fst ` {p \<in> set (inst_loc db). fst p \<noteq> u} = fst ` set (inst_loc db) - {u}" by auto
  with assms(1) show "wf_db db2"
    by (simp add: wf_db_def db2_def distinct_map_filter)
  have "info_map db2 = (info_map db)(u := None)" "map_of (inst_loc db2) = (map_of (inst_loc db))(u := None)"
    by (simp_all add: info_map_def db2_def map_of_filter_key map_of_filter_fst)
  then show "db_view db2 = (db_view db)(u := None)"
    by (auto simp: db_view_def fun_eq_iff)
qed

lemma delete_instance_cases:
  assumes "delete_instance e u db = (r, db')"
  obtains (unchanged) "db' = db" "\<not> is_ok r"
  | (written) "db' = db\<lparr>inst_info := filter (\<lambda>r. inst_uuid r \<noteq> u) (inst_info db),
                        inst_loc := filter (\<lambda>p. fst p \<noteq> u) (inst_loc db)\<rparr>"
      "(r = Ok ()) = (tx_commit e = Committed)"
  using assms
  by (cases "tx_commit e")
    (auto simp: delete_instance_def Let_def split: option.splits intro: unchanged written)

lemma update_rows_view:
  fixes i :: vm_info
  assumes "wf_db db"
  defines "db2 \<equiv> db\<lparr>inst_info := map (update_row i) (inst_info db)\<rparr>"
  shows "wf_db db2" "db_view db2 = (db_view db)(VM_UUID i :=
           map_option (\<lambda>(old, k). (updated i old, k)) (db_view db (VM_UUID i)))"
proof -
  have "map inst_uuid (inst_info db2) = map inst_uuid (inst_info db)"
    by (simp add: db2_def comp_def)
  moreover have "inst_uuid ` set (inst_info db2) = inst_uuid ` set (inst_info db)"
    by (simp add: db2_def image_image)
  moreover have "inst_loc db2 = inst_loc db" by (simp add: db2_def)
  ultimately show "wf_db db2" using assms(1) unfolding wf_db_def by (simp only:)
  have im: "info_map db2 w = map_option (update_row i) (info_map db w)" for w
    unfolding info_map_def db2_def by (simp add: map_of_update_row del: map_map)
  have loc: "inst_loc db2 = inst_loc db" by (simp add: db2_def)
  show "db_view db2 = (db_view db)(VM_UUID i :=
           map_option (\<lambda>(old, k). (updated i old, k)) (db_view db (VM_UUID i)))"
  proof
    fix w
    show "db_view db2 w = ((db_view db)(VM_UUID i :=
           map_option (\<lambda>(old, k). (updated i old, k)) (db_view db (VM_UUID i)))) w"
      by (cases "info_map db w"; cases "map_of (inst_loc db) w")
        (auto simp: db_view_def im loc update_row_def updated_def info_of_row_def
          dest: info_map_Some)
  qed
qed

subsection \<open>The join\<close>

lemma join_rows_eq:
  assumes "wf_db db"
  shows "join_rows db = map (\<lambda>(u, k). (info_of_row (the (info_map db u)), k)) (inst_loc db)"
proof -
  have "filter (\<lambda>r. inst_uuid r = u) (inst_info db) = [the (info_map db u)]"
    if "(u, k) \<in> set (inst_loc db)" for u k
  proof -
    from that assms have "u \<in> inst_uuid ` set (inst_info db)"
      unfolding wf_db_def by (metis fst_conv image_eqI)
    then obtain r where r: "info_map db u = Some r"
      using info_map_None_iff [of db u] by (cases "info_map db u") auto
    with info_map_Some [OF r] assms filter_unique [of "inst_info db" r] show ?thesis
      by (auto simp: wf_db_def)
  qed
  then have "join_rows db = concat (map (\<lambda>(u, k). [(info_of_row (the (info_map db u)), k)]) (inst_loc db))"
    unfolding join_rows_def by (intro arg_cong [where f = concat] map_cong) auto
  then show ?thesis by (simp add: case_prod_unfold)
qed

lemma join_rows_view:
  assumes "wf_db db"
  shows "map (VM_UUID \<circ> fst) (join_rows db) = map fst (inst_loc db)"
    "map_of (map (\<lambda>(i, k). (VM_UUID i, (i, k))) (join_rows db)) = db_view db"
proof -
  have known: "\<exists>r. info_map db u = Some r \<and> inst_uuid r = u" if "u \<in> fst ` set (inst_loc db)" for u
    using that assms info_map_None_iff [of db u] info_map_Some [of db u]
    by (cases "info_map db u") (auto simp: wf_db_def)
  have key: "inst_uuid (the (info_map db (fst p))) = fst p" if "p \<in> set (inst_loc db)" for p
    using known [of "fst p"] that by auto
  show "map (VM_UUID \<circ> fst) (join_rows db) = map fst (inst_loc db)"
    unfolding join_rows_eq [OF assms] by (simp add: case_prod_unfold key)
  have "map (\<lambda>(i, k). (VM_UUID i, (i, k))) (join_rows db) =
      map (\<lambda>(u, k). (u, (info_of_row (the (info_map db u)), k))) (inst_loc db)"
    unfolding join_rows_eq [OF assms] by (simp add: case_prod_unfold key)
  moreover have "map_of (map (\<lambda>(u, k). (u, g u k)) ls) w = map_option (g w) (map_of ls w)"
    for g :: "uuid \<Rightarrow> int \<Rightarrow> vm_info \<times> int" and ls w
    by (induction ls) auto
  ultimately have "map_of (map (\<lambda>(i, k). (VM_UUID i, (i, k))) (join_rows db)) w =
      map_option (\<lambda>k. (info_of_row (the (info_map db w)), k)) (map_of (inst_loc db) w)" for w
    by simp
  then show "map_of (map (\<lambda>(i, k). (VM_UUID i, (i, k))) (join_rows db)) = db_view db"
    using same_keys [OF assms]
    by (intro ext) (auto simp: db_view_def split: option.splits)
qed

lemma get_all_instance_info_ok:
  "get_all_instance_info e db = Ok (vs, ks) \<Longrightarrow> vs = map fst (join_rows db) \<and> ks = map snd (join_rows db)"
  by (cases "tx_commit e")
    (auto simp: get_all_instance_info_def commit_read_def split: option.splits)

interpretation mysql: vm_repository add_instance update_instance delete_instance
  get_instance_location get_all_instance_info wf_db db_view
proof
  fix db e i k r db' assume wf: "wf_db db"
  show "wf_db db' \<and> (db_view db' = db_view db \<and> \<not> is_ok r \<or>
      db_view db (VM_UUID i) = None \<and> db_view db' = (db_view db)(VM_UUID i \<mapsto> (stored i, k)))"
    if "add_instance e i k db = (r, db')"
    using that by (cases rule: add_instance_cases) (use wf insert_rows_view [OF wf] in auto)
next
  fix db e i r db' assume wf: "wf_db db" "update_instance e i db = (r, db')"
  show "wf_db db' \<and> (db_view db' = db_view db \<and> \<not> is_ok r \<or>
      db_view db' = (db_view db)(VM_UUID i :=
         map_option (\<lambda>(old, k). (updated i old, k)) (db_view db (VM_UUID i))))"
    using wf(2) update_rows_view [OF wf(1), of i] wf(1)
    by (cases "tx_commit e") (auto simp: update_instance_def split: option.splits)
next
  fix db e u r db' assume wf: "wf_db db" and "delete_instance e u db = (r, db')"
  from this(2) show "wf_db db' \<and> (db_view db' = db_view db \<and> \<not> is_ok r \<or>
      db_view db' = (db_view db)(u := None))"
    by (cases rule: delete_instance_cases) (use wf delete_rows_view [OF wf] in auto)
next
  fix db e u k assume wf: "wf_db db" and "get_instance_location e u db = Ok k"
  from this(2) have "map_of (inst_loc db) u = Some k"
    by (cases "tx_commit e") (auto simp: get_instance_location_def commit_read_def split: option.splits)
  with same_keys [OF wf, of u] show "\<exists>i. db_view db u = Some (i, k)"
    by (auto simp: db_view_def split: option.splits)
next
  fix db e vs ks assume wf: "wf_db db" and "get_all_instance_info e db = Ok (vs, ks)"
  from get_all_instance_info_ok [OF this(2)]
  have vs: "vs = map fst (join_rows db)" "ks = map snd (join_rows db)" by simp_all
  have "map VM_UUID vs = map fst (inst_loc db)"
    using join_rows_view(1) [OF wf] vs by simp
  moreover have "zip (map VM_UUID vs) (zip vs ks) = map (\<lambda>(i, k). (VM_UUID i, (i, k))) (join_rows db)"
    unfolding vs by (induction "join_rows db" rule: list.induct)
      (simp_all add: zip_map_fst_snd zip_map1 zip_map2 case_prod_unfold zip_same_conv_map)
  ultimately show "length vs = length ks \<and> distinct (map VM_UUID vs) \<and>
      map_of (zip (map VM_UUID vs) (zip vs ks)) = db_view db"
    using wf join_rows_view(2) [OF wf] vs by (simp add: wf_db_def)
qed

lemma find_info: "find (\<lambda>r. inst_uuid r = u) (inst_info db) = info_map db u"
proof -
  have "find (\<lambda>r. inst_uuid r = u) rs = map_of (map (\<lambda>r. (inst_uuid r, r)) rs) u"
    for rs :: "info_row list"
    by (induction rs) auto
  then show ?thesis by (simp add: info_map_def)
qed

lemma reads_without_faults:
  assumes "wf_db db"
  shows "get_instance no_faults u db =
      (case db_view db u of Some (i, k) \<Rightarrow> Ok i | None \<Rightarrow> Fail no_rows_error)"
    "get_instance_location no_faults u db =
      (case db_view db u of Some (i, k) \<Rightarrow> Ok k | None \<Rightarrow> Fail no_rows_error)"
  using same_keys [OF assms, of u]
  by (auto simp: get_instance_def get_instance_location_def no_faults_def commit_read_def
      find_info db_view_def split: option.splits)

section \<open>Properties\<close>

datatype repo_op =
    AddOp tx_env vm_info int
  | UpdateOp tx_env vm_info
  | DeleteOp tx_env uuid

fun repo_step :: "repo_op \<Rightarrow> main_db \<Rightarrow> main_db" where
  "repo_step (AddOp e i k) db = snd (add_instance e i k db)"
| "repo_step (UpdateOp e i) db = snd (update_instance e i db)"
| "repo_step (DeleteOp e u) db = snd (delete_instance e u db)"

lemma repo_step_wf: "wf_db db \<Longrightarrow> wf_db (repo_step x db)"
  by (cases x) (auto intro: mysql.add_cases [THEN conjunct1] mysql.upd_cases [THEN conjunct1]
      mysql.del_cases [THEN conjunct1] simp: prod_eq_iff)

interpretation tables: invariant_steps repo_step wf_db "\<lambda>_. True"
  by unfold_locales (rule repo_step_wf)

text \<open>C19: whatever the order of inserts, updates and deletes, and whichever statements or
  commits fail (a lost acknowledgement included), the two tables stay in step: no UUID
  occurs twice in a table, and an instance has a location row exactly when it has an info
  row.\<close>

theorem repository_tables_in_step:
  assumes "wf_db db"
  shows "wf_db (fold repo_step ops db)"
  using assms by (rule tables.any_history) simp

definition empty_db :: main_db where
  "empty_db = \<lparr>inst_info = [], inst_loc = [], last_subnet = ''10.0.0.1''\<rparr>"

lemma wf_empty_db: "wf_db empty_db"
  by (simp add: wf_db_def empty_db_def)

theorem repository_tables_in_step_witness:
  "wf_db (fold repo_step
     [AddOp no_faults demo_vm 1,
      AddOp (no_faults\<lparr>tx_stmt2 := Some ''timeout''\<rparr>) (demo_vm\<lparr>VM_UUID := ''vm-2''\<rparr>) 0,
      DeleteOp (no_faults\<lparr>tx_commit := CommitLost ''eof''\<rparr>) ''vm-1''] empty_db)"
  by (rule repository_tables_in_step [OF wf_empty_db])

text \<open>A successful \<open>AddInstance\<close> was of a new UUID, and reading the instance and its
  location back yields the core index and everything of the VM but its MAC address, which
  has no column; other instances are untouched.\<close>

theorem add_instance_round_trip:
  assumes "wf_db db" "add_instance e i k db = (Ok (), db')"
  shows "db_view db (VM_UUID i) = None \<and>
         get_instance no_faults (VM_UUID i) db' = Ok (i\<lparr>MacAddr := []\<rparr>) \<and>
         get_instance_location no_faults (VM_UUID i) db' = Ok k \<and>
         (\<forall>u. u \<noteq> VM_UUID i \<longrightarrow> db_view db' u = db_view db u)"
  using mysql.add_ok [OF assms] mysql.add_cases [OF assms]
  by (simp add: reads_without_faults stored_def)

theorem add_instance_round_trip_witness:
  "get_instance_location no_faults ''vm-1'' (snd (add_instance no_faults demo_vm 1 empty_db)) = Ok 1"
proof -
  have "add_instance no_faults demo_vm 1 empty_db = (Ok (), snd (add_instance no_faults demo_vm 1 empty_db))"
    by (simp add: add_instance_def no_faults_def insert_info_def insert_loc_def empty_db_def)
  from add_instance_round_trip [OF wf_empty_db this] show ?thesis by (simp add: demo_vm_def)
qed

text \<open>\<open>AddInstance\<close> on a UUID that already has a row fails and leaves the database as it
  was; and a failed \<open>AddInstance\<close> changes nothing unless the commit itself took effect
  and only its acknowledgement was lost.\<close>

theorem add_instance_failure:
  assumes "wf_db db" "add_instance e i k db = (r, db')"
  shows "(VM_UUID i \<in> inst_uuid ` set (inst_info db) \<longrightarrow> \<not> is_ok r \<and> db' = db) \<and>
         (\<not> is_ok r \<longrightarrow> db' = db \<or> (\<exists>m. tx_commit e = CommitLost m))"
  using assms(2)
proof (cases rule: add_instance_cases)
  case written
  with assms(2) show ?thesis
    by (cases "tx_commit e")
      (auto simp: add_instance_def insert_info_def insert_loc_def split: option.splits if_splits)
qed auto

theorem add_instance_failure_witness:
  "let db = snd (add_instance no_faults demo_vm 1 empty_db)
   in \<not> is_ok (fst (add_instance no_faults demo_vm 0 db)) \<and> snd (add_instance no_faults demo_vm 0 db) = db"
proof -
  let ?db = "snd (add_instance no_faults demo_vm 1 empty_db)"
  have "wf_db ?db" using repo_step_wf [OF wf_empty_db, of "AddOp no_faults demo_vm 1"] by simp
  moreover have "VM_UUID demo_vm \<in> inst_uuid ` set (inst_info ?db)"
    by (simp add: add_instance_def no_faults_def insert_info_def insert_loc_def empty_db_def row_of_info_def)
  ultimately show ?thesis
    using add_instance_failure [where db = ?db and e = no_faults and i = demo_vm and k = 0,
        OF _ prod.collapse [symmetric]]
    by (simp add: Let_def)
qed

text \<open>After a successful \<open>DeleteInstance\<close> no later read, with whatever faults, yields
  a location of the instance or lists it, and all other instances are kept.\<close>

theorem delete_instance_forgets:
  assumes "wf_db db" "delete_instance e u db = (Ok (), db')"
  shows "get_instance_location e' u db' \<noteq> Ok k \<and>
         (get_all_instance_info e' db' = Ok (vs, ks) \<longrightarrow> u \<notin> VM_UUID ` set vs) \<and>
         db_view db' = (db_view db)(u := None)"
  using mysql.deleted_is_not_located [OF assms] mysql.deleted_is_not_listed [OF assms]
    mysql.del_ok [OF assms] by blast

theorem delete_instance_forgets_witness:
  "get_instance_location no_faults ''vm-1''
     (snd (delete_instance no_faults ''vm-1'' (snd (add_instance no_faults demo_vm 1 empty_db)))) \<noteq> Ok 1"
proof -
  let ?db = "snd (add_instance no_faults demo_vm 1 empty_db)"
  have "wf_db ?db" using repo_step_wf [OF wf_empty_db, of "AddOp no_faults demo_vm 1"] by simp
  moreover have "delete_instance no_faults ''vm-1'' ?db = (Ok (), snd (delete_instance no_faults ''vm-1'' ?db))"
    by (simp add: delete_instance_def no_faults_def Let_def)
  ultimately show ?thesis using delete_instance_forgets by blast
qed

end
