(* ===== verification/GuacConfig.thy ===== *)
theory GuacConfig
  imports Crypto Repository "HOL-Library.Multiset"
begin

text \<open>
  \<open>pkg/guacamole/config.go\<close>: creating and removing the user and SSH connection of a VM
  in the Guacamole database, over the tables of \<open>database.md\<close> (the columns the code
  writes; the type of an entity is always USER and the permission always READ). Row
  identifiers come from AUTO\_INCREMENT counters, which a rollback does not reset.
  Foreign keys delete by cascade. Errors of the driver are injected by the environment
  records; \<open>g_rank\<close> fixes the order in which the \<open>range\<close> over the Go map of
  connection parameters visits its keys.
\<close>

section \<open>The database\<close>

record user_row =
  u_entity :: nat
  u_hash :: bytes
  u_salt :: bytes
  u_date :: int

record connection_row =
  c_id :: nat
  c_name :: string
  c_protocol :: string

record guac_db =
  entities :: "(nat \<times> string) list"
  users :: "user_row list"
  connections :: "connection_row list"
  params :: "((nat \<times> string) \<times> string) list"
  permissions :: "(nat \<times> nat) list"
  next_entity :: nat
  next_connection :: nat

definition rollback_tx :: "guac_db \<Rightarrow> guac_db \<Rightarrow> guac_db" where
  "rollback_tx old new = old\<lparr>next_entity := next_entity new, next_connection := next_connection new\<rparr>"

section \<open>The statements\<close>

definition find_entity :: "string \<Rightarrow> guac_db \<Rightarrow> nat option" where
  "find_entity name db = map_option fst (find (\<lambda>e. snd e = name) (entities db))"

definition insert_entity :: "string \<Rightarrow> guac_db \<Rightarrow> nat \<times> guac_db" where
  "insert_entity name db =
     (next_entity db,
      db\<lparr>entities := entities db @ [(next_entity db, name)], next_entity := next_entity db + 1\<rparr>)"

text \<open>INSERT ... ON DUPLICATE KEY UPDATE, keyed by the unique \<open>entity_id\<close>.\<close>

definition upsert_user :: "user_row \<Rightarrow> guac_db \<Rightarrow> guac_db" where
  "upsert_user u db =
     (if u_entity u \<in> u_entity ` set (users db)
      then db\<lparr>users := map (\<lambda>w. if u_entity w = u_entity u then u else w) (users db)\<rparr>
      else db\<lparr>users := users db @ [u]\<rparr>)"

text \<open>The table has no unique key but the generated id, so the insert always adds a row.\<close>

definition insert_connection :: "string \<Rightarrow> guac_db \<Rightarrow> nat \<times> guac_db" where
  "insert_connection name db =
     (next_connection db,
      db\<lparr>connections := connections db @
           [\<lparr>c_id = next_connection db, c_name = name, c_protocol = ''ssh''\<rparr>],
         next_connection := next_connection db + 1\<rparr>)"

definition upsert_param :: "nat \<Rightarrow> string \<Rightarrow> string \<Rightarrow> guac_db \<Rightarrow> guac_db" where
  "upsert_param cid name val db =
     (if (cid, name) \<in> fst ` set (params db)
      then db\<lparr>params := map (\<lambda>p. if fst p = (cid, name) then ((cid, name), val) else p) (params db)\<rparr>
      else db\<lparr>params := params db @ [((cid, name), val)]\<rparr>)"

definition upsert_permission :: "nat \<Rightarrow> nat \<Rightarrow> guac_db \<Rightarrow> guac_db" where
  "upsert_permission eid cid db =
     (if (eid, cid) \<in> set (permissions db) then db
      else db\<lparr>permissions := permissions db @ [(eid, cid)]\<rparr>)"

definition delete_entity :: "nat \<Rightarrow> guac_db \<Rightarrow> guac_db" where
  "delete_entity eid db =
     db\<lparr>entities := filter (\<lambda>e. fst e \<noteq> eid) (entities db),
        users := filter (\<lambda>u. u_entity u \<noteq> eid) (users db),
        permissions := filter (\<lambda>p. fst p \<noteq> eid) (permissions db)\<rparr>"

definition orphan :: "string \<Rightarrow> guac_db \<Rightarrow> connection_row \<Rightarrow> bool" where
  "orphan name db c \<longleftrightarrow> c_name c = name \<and> c_id c \<notin> snd ` set (permissions db)"

definition delete_orphans :: "string \<Rightarrow> guac_db \<Rightarrow> guac_db" where
  "delete_orphans name db =
     (let gone = c_id ` set (filter (orphan name db) (connections db))
      in db\<lparr>connections := filter (\<lambda>c. c_id c \<notin> gone) (connections db),
            params := filter (\<lambda>p. fst (fst p) \<notin> gone) (params db),
            permissions := filter (\<lambda>p. snd p \<notin> gone) (permissions db)\<rparr>)"

section \<open>Configure\<close>

record guac_env =
  g_rand_pw :: rand_source
  g_rand_salt :: rand_source
  g_begin :: "error option"
  g_select :: "error option"
  g_ins_entity :: "error option"
  g_entity_id :: "error option"
  g_user :: "error option"
  g_conn :: "error option"
  g_conn_id :: "error option"
  g_param :: "string \<Rightarrow> error option"
  g_perm :: "error option"
  g_commit :: commit_result
  g_now :: int
  g_rank :: "string \<Rightarrow> nat"

definition connection_name :: "uuid \<Rightarrow> string" where
  "connection_name uuid = uuid @ ''-ssh''"

definition parameters :: "string \<Rightarrow> string \<Rightarrow> string \<Rightarrow> (string \<times> string) list" where
  "parameters username ip privateKey =
     [(''hostname'', ip), (''port'', ''22''), (''username'', username), (''private-key'', privateKey)]"

fun set_params ::
  "(string \<Rightarrow> error option) \<Rightarrow> nat \<Rightarrow> (string \<times> string) list \<Rightarrow> guac_db \<Rightarrow> unit result \<times> guac_db" where
  "set_params fault cid [] db = (Ok (), db)"
| "set_params fault cid ((name, val) # ps) db =
     (case fault name of Some e \<Rightarrow> (Fail e, db)
      | None \<Rightarrow> set_params fault cid ps (upsert_param cid name val db))"

text \<open>Step 4 of the code: reuse the entity of that name or insert one.\<close>

definition entity_for :: "guac_env \<Rightarrow> uuid \<Rightarrow> guac_db \<Rightarrow> nat result \<times> guac_db" where
  "entity_for e uuid db =
     and_then (failing (g_select e) db) (\<lambda>_ db.
       (case find_entity uuid db of
          Some i \<Rightarrow> (Ok i, db)
        | None \<Rightarrow>
            and_then (failing (g_ins_entity e) db) (\<lambda>_ db.
              (let (i, db) = insert_entity uuid db
               in and_then (failing (g_entity_id e) db) (\<lambda>_ db. (Ok i, db))))))"

text \<open>Steps 4 to 8, on the copy of the transaction.\<close>

definition configure_tx ::
  "guac_env \<Rightarrow> string \<Rightarrow> uuid \<Rightarrow> string \<Rightarrow> string \<Rightarrow> bytes \<Rightarrow> bytes \<Rightarrow> guac_db \<Rightarrow> unit result \<times> guac_db" where
  "configure_tx e username uuid ip privateKey hash salt db =
     and_then (entity_for e uuid db) (\<lambda>eid db.
     and_then (failing (g_user e) db) (\<lambda>_ db.
       (let db = upsert_user \<lparr>u_entity = eid, u_hash = hash, u_salt = salt, u_date = g_now e\<rparr> db in
     and_then (failing (g_conn e) db) (\<lambda>_ db.
       (let (cid, db) = insert_connection (connection_name uuid) db in
     and_then (failing (g_conn_id e) db) (\<lambda>_ db.
     and_then (set_params (g_param e) cid
                 (sort_key (g_rank e \<circ> fst) (parameters username ip privateKey)) db) (\<lambda>_ db.
     and_then (failing (g_perm e) db) (\<lambda>_ db.
       (Ok (), upsert_permission eid cid db)))))))))"

text \<open>
  Every error is reported by the empty password; the deferred function rolls back. The
  argument is \<open>None\<close> for a nil database handle.
\<close>

definition configure_db ::
  "guac_env \<Rightarrow> string \<Rightarrow> uuid \<Rightarrow> string \<Rightarrow> string \<Rightarrow> guac_db \<Rightarrow> string result \<times> guac_db" where
  "configure_db e username uuid ip privateKey db =
     (case generate_random_password (g_rand_pw e) 12 of
        Panic \<Rightarrow> (Panic, db)
      | Fail _ \<Rightarrow> (Ok [], db)
      | Ok userPass \<Rightarrow>
        (case generate_random_salt (g_rand_salt e) 32 of
           Panic \<Rightarrow> (Panic, db)
         | Fail _ \<Rightarrow> (Ok [], db)
         | Ok salt \<Rightarrow>
           (case g_begin e of
              Some _ \<Rightarrow> (Ok [], db)
            | None \<Rightarrow>
              (case configure_tx e username uuid ip privateKey (hash_password_with_salt userPass salt) salt db of
                 (Ok _, db') \<Rightarrow>
                   (case g_commit e of
                      Committed \<Rightarrow> (Ok userPass, db')
                    | CommitFailed _ \<Rightarrow> (Ok [], rollback_tx db db')
                    | CommitLost _ \<Rightarrow> (Ok [], db'))
               | (_, db') \<Rightarrow> (Ok [], rollback_tx db db')))))"

definition configure ::
  "guac_env \<Rightarrow> string \<Rightarrow> uuid \<Rightarrow> string \<Rightarrow> string \<Rightarrow> guac_db option \<Rightarrow> string result \<times> guac_db option" where
  "configure e username uuid ip privateKey handle =
     (case handle of
        None \<Rightarrow> (Ok [], None)
      | Some db \<Rightarrow>
          (case configure_db e username uuid ip privateKey db of (r, db') \<Rightarrow> (r, Some db')))"

section \<open>Cleanup\<close>

record cleanup_env =
  gc_ping :: "error option"
  gc_begin :: "error option"
  gc_select :: "error option"
  gc_del_entity :: "error option"
  gc_del_conn :: "error option"
  gc_commit :: commit_result

definition cleanup_db :: "cleanup_env \<Rightarrow> uuid \<Rightarrow> guac_db \<Rightarrow> unit result \<times> guac_db" where
  "cleanup_db e uuid db =
     and_then (wrapped ''database connection test failed'' (failing (gc_ping e) db)) (\<lambda>_ db.
     and_then (wrapped ''failed to start transaction'' (failing (gc_begin e) db)) (\<lambda>_ db.
     and_then (wrapped (''failed to find entity for UUID '' @ uuid) (failing (gc_select e) db)) (\<lambda>_ db.
       (case find_entity uuid db of
          None \<Rightarrow> (Ok (), db)
        | Some eid \<Rightarrow>
     and_then (wrapped (''failed to delete entity for UUID '' @ uuid) (failing (gc_del_entity e) db)) (\<lambda>_ _.
     and_then (wrapped ''failed to delete orphaned connections'' (failing (gc_del_conn e) db)) (\<lambda>_ _.
       wrapped ''failed to commit transaction''
         (commit_tx (gc_commit e) db
            (delete_orphans (connection_name uuid) (delete_entity eid db)))))))))"

definition cleanup :: "cleanup_env \<Rightarrow> uuid \<Rightarrow> guac_db option \<Rightarrow> unit result \<times> guac_db option" where
  "cleanup e uuid handle =
     (case handle of
        None \<Rightarrow> (Fail ''db is nil'', None)
      | Some db \<Rightarrow> (case cleanup_db e uuid db of (r, db') \<Rightarrow> (r, Some db')))"

section \<open>Integrity of the tables\<close>

definition wf_guac :: "guac_db \<Rightarrow> bool" where
  "wf_guac db \<longleftrightarrow>
     distinct (map fst (entities db)) \<and> distinct (map snd (entities db)) \<and>
     (\<forall>i \<in> fst ` set (entities db). i < next_entity db) \<and>
     distinct (map u_entity (users db)) \<and>
     (\<forall>u \<in> set (users db). u_entity u \<in> fst ` set (entities db)) \<and>
     distinct (map c_id (connections db)) \<and>
     (\<forall>i \<in> c_id ` set (connections db). i < next_connection db) \<and>
     distinct (map fst (params db)) \<and>
     (\<forall>p \<in> set (params db). fst (fst p) \<in> c_id ` set (connections db)) \<and>
     distinct (permissions db) \<and>
     (\<forall>q \<in> set (permissions db).
        fst q \<in> fst ` set (entities db) \<and> snd q \<in> c_id ` set (connections db))"

text \<open>The tables without the counters.\<close>

definition guac_tables :: "guac_db \<Rightarrow> guac_db" where
  "guac_tables db = db\<lparr>next_entity := 0, next_connection := 0\<rparr>"

lemma guac_tables_rollback [simp]: "guac_tables (rollback_tx old new) = guac_tables old"
  by (simp add: guac_tables_def rollback_tx_def)

lemma guac_tables_eqD:
  assumes "guac_tables s = guac_tables t"
  shows "entities s = entities t" "users s = users t" "connections s = connections t"
    "params s = params t" "permissions s = permissions t"
  using assms by (cases s; cases t; simp add: guac_tables_def)+

lemma guac_tables_eqI:
  "entities s = entities t \<Longrightarrow> users s = users t \<Longrightarrow> connections s = connections t \<Longrightarrow>
   params s = params t \<Longrightarrow> permissions s = permissions t \<Longrightarrow> guac_tables s = guac_tables t"
  by (simp add: guac_tables_def)

lemma find_entity_None_iff: "find_entity name db = None \<longleftrightarrow> name \<notin> snd ` set (entities db)"
  by (force simp: find_entity_def find_None_iff)

lemma find_entity_Some: "find_entity name db = Some i \<Longrightarrow> (i, name) \<in> set (entities db)"
  by (auto simp: find_entity_def find_Some_iff) (metis nth_mem snd_conv)

lemma distinct_snd_unique:
  "distinct (map snd xs) \<Longrightarrow> (i, n) \<in> set xs \<Longrightarrow> (j, n) \<in> set xs \<Longrightarrow> i = j"
  by (induction xs) (auto simp: image_iff)

lemma find_entity_unique:
  assumes "wf_guac db" "(i, name) \<in> set (entities db)"
  shows "find_entity name db = Some i"
proof (cases "find_entity name db")
  case None
  with assms(2) show ?thesis by (force simp: find_entity_None_iff)
next
  case (Some j)
  from find_entity_Some [OF this] assms have "j = i"
    by (auto simp: wf_guac_def dest: distinct_snd_unique)
  with Some show ?thesis by simp
qed

lemma wf_guac_bounds:
  assumes "wf_guac db"
  shows "i \<in> fst ` set (entities db) \<Longrightarrow> i < next_entity db"
    "j \<in> c_id ` set (connections db) \<Longrightarrow> j < next_connection db"
    "u \<in> set (users db) \<Longrightarrow> u_entity u < next_entity db"
    "p \<in> set (params db) \<Longrightarrow> fst (fst p) < next_connection db"
    "q \<in> set (permissions db) \<Longrightarrow> fst q < next_entity db \<and> snd q < next_connection db"
  using assms unfolding wf_guac_def by blast+

lemma wf_guac_fresh:
  assumes "wf_guac db"
  shows "e \<in> set (entities db) \<Longrightarrow> fst e \<noteq> next_entity db"
    "c \<in> set (connections db) \<Longrightarrow> c_id c \<noteq> next_connection db"
    "u \<in> set (users db) \<Longrightarrow> u_entity u \<noteq> next_entity db"
    "p \<in> set (params db) \<Longrightarrow> fst (fst p) \<noteq> next_connection db"
    "q \<in> set (permissions db) \<Longrightarrow> fst q \<noteq> next_entity db \<and> snd q \<noteq> next_connection db"
proof -
  show "fst e \<noteq> next_entity db" if "e \<in> set (entities db)"
    using wf_guac_bounds(1) [OF assms imageI [OF that]] by simp
  show "c_id c \<noteq> next_connection db" if "c \<in> set (connections db)"
    using wf_guac_bounds(2) [OF assms imageI [OF that]] by simp
  show "u_entity u \<noteq> next_entity db" if "u \<in> set (users db)"
    using wf_guac_bounds(3) [OF assms that] by simp
  show "fst (fst p) \<noteq> next_connection db" if "p \<in> set (params db)"
    using wf_guac_bounds(4) [OF assms that] by simp
  show "fst q \<noteq> next_entity db \<and> snd q \<noteq> next_connection db" if "q \<in> set (permissions db)"
    using wf_guac_bounds(5) [OF assms that] by simp
qed

subsection \<open>What Configure writes\<close>

lemma set_params_ok:
  assumes "set_params fault cid ps db = (Ok (), db')" "distinct (map fst ps)"
    "\<forall>n \<in> fst ` set ps. (cid, n) \<notin> fst ` set (params db)"
  shows "db' = db\<lparr>params := params db @ map (\<lambda>(n, v). ((cid, n), v)) ps\<rparr>"
  using assms
proof (induction ps arbitrary: db)
  case (Cons p ps)
  obtain n v where p: "p = (n, v)" by (cases p)
  from Cons.prems p have up: "upsert_param cid n v db = db\<lparr>params := params db @ [((cid, n), v)]\<rparr>"
    by (simp add: upsert_param_def)
  have "set_params fault cid ps (upsert_param cid n v db) = (Ok (), db')"
    using Cons.prems(1) p by (auto split: option.splits)
  moreover have "\<forall>m \<in> fst ` set ps. (cid, m) \<notin> fst ` set (params (upsert_param cid n v db))"
    using Cons.prems(2,3) p up by auto
  ultimately have "db' = (upsert_param cid n v db)
      \<lparr>params := params (upsert_param cid n v db) @ map (\<lambda>(n, v). ((cid, n), v)) ps\<rparr>"
    using Cons.prems(2) by (intro Cons.IH) simp_all
  then show ?case using p up by simp
qed simp

lemma set_params_counters:
  "next_entity (snd (set_params fault cid ps db)) = next_entity db \<and>
   next_connection (snd (set_params fault cid ps db)) = next_connection db"
  by (induction ps arbitrary: db) (auto simp: upsert_param_def split: option.splits)

definition wrote_user :: "user_row \<Rightarrow> user_row list \<Rightarrow> user_row list" where
  "wrote_user u us =
     (if u_entity u \<in> u_entity ` set us
      then map (\<lambda>w. if u_entity w = u_entity u then u else w) us else us @ [u])"

definition sorted_params :: "guac_env \<Rightarrow> string \<Rightarrow> string \<Rightarrow> string \<Rightarrow> (string \<times> string) list" where
  "sorted_params e username ip privateKey =
     sort_key (g_rank e \<circ> fst) (parameters username ip privateKey)"

lemma sorted_params_props:
  "set (sorted_params e username ip privateKey) = set (parameters username ip privateKey)"
  "distinct (map fst (sorted_params e username ip privateKey))"
proof -
  show "set (sorted_params e username ip privateKey) = set (parameters username ip privateKey)"
    by (simp add: sorted_params_def)
  have "mset (map fst (sorted_params e username ip privateKey)) =
      mset (map fst (parameters username ip privateKey))"
    by (simp add: sorted_params_def)
  moreover have "distinct (map fst (parameters username ip privateKey))"
    by (simp add: parameters_def)
  ultimately show "distinct (map fst (sorted_params e username ip privateKey))"
    by (rule mset_eq_imp_distinct_iff [THEN iffD2])
qed

text \<open>The committed copy, given the entity id and whether the entity was inserted.\<close>

definition configured ::
  "guac_env \<Rightarrow> string \<Rightarrow> uuid \<Rightarrow> string \<Rightarrow> string \<Rightarrow> bytes \<Rightarrow> bytes \<Rightarrow> guac_db \<Rightarrow> guac_db" where
  "configured e username uuid ip privateKey hash salt db =
     (let new = find_entity uuid db = None;
          eid = (case find_entity uuid db of Some i \<Rightarrow> i | None \<Rightarrow> next_entity db);
          cid = next_connection db
      in db\<lparr>entities := (if new then entities db @ [(eid, uuid)] else entities db),
            users := wrote_user \<lparr>u_entity = eid, u_hash = hash, u_salt = salt, u_date = g_now e\<rparr> (users db),
            connections := connections db @ [\<lparr>c_id = cid, c_name = connection_name uuid, c_protocol = ''ssh''\<rparr>],
            params := params db @ map (\<lambda>(n, v). ((cid, n), v)) (sorted_params e username ip privateKey),
            permissions := permissions db @ [(eid, cid)],
            next_entity := (if new then next_entity db + 1 else next_entity db),
            next_connection := next_connection db + 1\<rparr>)"

lemma configure_tx_ok:
  assumes "wf_guac db" "configure_tx e username uuid ip privateKey hash salt db = (Ok (), db')"
  shows "db' = configured e username uuid ip privateKey hash salt db"
proof -
  define eid where "eid = (case find_entity uuid db of Some i \<Rightarrow> i | None \<Rightarrow> next_entity db)"
  define db1 where "db1 = (case find_entity uuid db of Some i \<Rightarrow> db | None \<Rightarrow> snd (insert_entity uuid db))"
  define u where "u = \<lparr>u_entity = eid, u_hash = hash, u_salt = salt, u_date = g_now e\<rparr>"
  define db3 where "db3 = snd (insert_connection (connection_name uuid) (upsert_user u db1))"
  define ps where "ps = sorted_params e username ip privateKey"
  have cid: "fst (insert_connection (connection_name uuid) (upsert_user u db1)) = next_connection db"
    by (auto simp: insert_connection_def upsert_user_def db1_def insert_entity_def split: option.splits)
  have ent: "entity_for e uuid db = (Ok i, d) \<Longrightarrow> i = eid \<and> d = db1" for i d
    by (auto simp: entity_for_def and_then_Ok_iff Let_def eid_def db1_def insert_entity_def
        split: option.splits prod.splits)
  obtain db4 where db4: "set_params (g_param e) (next_connection db) ps db3 = (Ok (), db4)"
    and db': "db' = upsert_permission eid (next_connection db) db4"
    using assms(2) unfolding configure_tx_def
    by (auto dest!: ent simp: and_then_Ok_iff Let_def split_beta u_def [symmetric] cid
        db3_def [symmetric] ps_def sorted_params_def)
  have tabs: "params db3 = params db" "permissions db3 = permissions db"
    by (auto simp: db3_def insert_connection_def upsert_user_def db1_def insert_entity_def
        split: option.splits)
  have "db4 = db3\<lparr>params := params db @ map (\<lambda>(n, v). ((next_connection db, n), v)) ps\<rparr>"
  proof -
    have "(next_connection db, n) \<notin> fst ` set (params db)" for n
      using wf_guac_bounds(4) [OF assms(1)] by force
    with set_params_ok [OF db4] sorted_params_props(2) tabs show ?thesis by (simp add: ps_def)
  qed
  moreover have "(eid, next_connection db) \<notin> set (permissions db)"
    using wf_guac_bounds(5) [OF assms(1)] by force
  ultimately have "db' = db3\<lparr>params := params db @ map (\<lambda>(n, v). ((next_connection db, n), v)) ps,
      permissions := permissions db @ [(eid, next_connection db)]\<rparr>"
    using tabs by (simp add: db' upsert_permission_def)
  then show ?thesis
    by (cases "find_entity uuid db")
      (simp_all add: configured_def Let_def db3_def insert_connection_def upsert_user_def wrote_user_def
        db1_def insert_entity_def eid_def u_def ps_def)
qed

lemma configure_tx_counters:
  "next_entity db \<le> next_entity (snd (configure_tx e username uuid ip privateKey hash salt db)) \<and>
   next_connection db \<le> next_connection (snd (configure_tx e username uuid ip privateKey hash salt db))"
proof -
  define P where "P s \<longleftrightarrow> next_entity db \<le> next_entity s \<and> next_connection db \<le> next_connection s"
    for s :: guac_db
  have ent: "P (snd (entity_for e uuid db))"
    by (simp add: entity_for_def failing_def insert_entity_def P_def Let_def split: option.split)
  have prm: "P s \<Longrightarrow> P (snd (set_params f c ps s))" for f c ps s
    using set_params_counters [of f c ps s] by (simp add: P_def)
  have step: "P s \<Longrightarrow> P (upsert_user u s)" "P s \<Longrightarrow> P (snd (insert_connection n s))"
    "P s \<Longrightarrow> P (upsert_permission i c s)" for u s n i c
    by (simp_all add: P_def upsert_user_def insert_connection_def upsert_permission_def)
  have "P (snd (configure_tx e username uuid ip privateKey hash salt db))"
    unfolding configure_tx_def Let_def split_beta
    by (intro and_then_steps [where P = P] ent prm) (simp_all add: step)
  then show ?thesis by (simp add: P_def)
qed

lemma wf_guac_rollback:
  assumes "wf_guac old" "next_entity old \<le> next_entity new" "next_connection old \<le> next_connection new"
  shows "wf_guac (rollback_tx old new)"
  using assms unfolding wf_guac_def rollback_tx_def by (auto intro: less_le_trans)

lemma wrote_user_props:
  "u_entity ` set (wrote_user u us) = insert (u_entity u) (u_entity ` set us)"
  "distinct (map u_entity us) \<Longrightarrow> distinct (map u_entity (wrote_user u us))"
  "u \<in> set (wrote_user u us)"
  "w \<in> set us \<Longrightarrow> u_entity w \<noteq> u_entity u \<Longrightarrow> w \<in> set (wrote_user u us)"
proof -
  have same: "map u_entity (map (\<lambda>w. if u_entity w = u_entity u then u else w) us) = map u_entity us"
    by (induction us) auto
  show "distinct (map u_entity us) \<Longrightarrow> distinct (map u_entity (wrote_user u us))"
    using same by (auto simp: wrote_user_def simp del: map_map)
  have "u_entity ` set (map (\<lambda>w. if u_entity w = u_entity u then u else w) us) = u_entity ` set us"
    using same by (metis list.set_map)
  then show "u_entity ` set (wrote_user u us) = insert (u_entity u) (u_entity ` set us)"
    by (auto simp: wrote_user_def simp del: set_map)
qed (auto simp: wrote_user_def image_iff)

lemma wf_configured:
  assumes wf: "wf_guac db"
  shows "wf_guac (configured e username uuid ip privateKey hash salt db)"
proof -
  define eid where "eid = (case find_entity uuid db of Some i \<Rightarrow> i | None \<Rightarrow> next_entity db)"
  define cid where "cid = next_connection db"
  define ps where "ps = map (\<lambda>(n, v). ((cid, n), v :: string)) (sorted_params e username ip privateKey)"
  let ?d = "configured e username uuid ip privateKey hash salt db"
  have ents: "fst ` set (entities ?d) = insert eid (fst ` set (entities db)) \<and>
    distinct (map fst (entities ?d)) \<and> distinct (map snd (entities ?d)) \<and>
    (\<forall>i \<in> fst ` set (entities ?d). i < next_entity ?d)"
  proof (cases "find_entity uuid db")
    case None
    then have "uuid \<notin> snd ` set (entities db)" by (simp add: find_entity_None_iff)
    moreover have "next_entity db \<notin> fst ` set (entities db)" using wf_guac_bounds(1) [OF wf] by blast
    moreover have d: "entities ?d = entities db @ [(eid, uuid)]" "next_entity ?d = next_entity db + 1"
      "eid = next_entity db"
      using None by (simp_all add: configured_def Let_def eid_def)
    ultimately show ?thesis using wf wf_guac_bounds(1) [OF wf]
      unfolding d wf_guac_def by (auto simp: less_SucI)
  next
    case (Some i)
    then have "entities ?d = entities db" "next_entity ?d = next_entity db" "eid = i"
      by (simp_all add: configured_def Let_def eid_def)
    moreover have "i \<in> fst ` set (entities db)" using find_entity_Some [OF Some] by force
    ultimately show ?thesis using wf by (simp add: wf_guac_def insert_absorb)
  qed
  note ents_set = ents [THEN conjunct1]
  have conns: "c_id ` set (connections ?d) = insert cid (c_id ` set (connections db))"
    "next_connection ?d = cid + 1"
    by (auto simp: configured_def Let_def cid_def)
  have "cid \<notin> c_id ` set (connections db)"
    using wf_guac_bounds(2) [OF wf] by (force simp: cid_def)
  with wf have conns': "distinct (map c_id (connections ?d))" "\<forall>i \<in> c_id ` set (connections ?d). i < next_connection ?d"
    unfolding conns by (auto simp: configured_def Let_def cid_def wf_guac_def)
  have users: "users ?d = wrote_user \<lparr>u_entity = eid, u_hash = hash, u_salt = salt, u_date = g_now e\<rparr> (users db)"
    by (simp add: configured_def Let_def eid_def)
  have users': "distinct (map u_entity (users ?d))" "\<forall>u \<in> set (users ?d). u_entity u \<in> fst ` set (entities ?d)"
  proof -
    show "distinct (map u_entity (users ?d))" using wf unfolding users by (simp add: wrote_user_props wf_guac_def)
    have "u_entity ` set (users ?d) \<subseteq> fst ` set (entities ?d)"
      using wf unfolding users wrote_user_props ents_set by (auto simp: wf_guac_def)
    then show "\<forall>u \<in> set (users ?d). u_entity u \<in> fst ` set (entities ?d)" by blast
  qed
  have params: "params ?d = params db @ ps"
    by (simp add: configured_def Let_def cid_def ps_def)
  have cids: "\<forall>p \<in> set ps. fst (fst p) = cid" by (auto simp: ps_def)
  then have "fst ` set ps \<inter> fst ` set (params db) = {}"
    using wf_guac_bounds(4) [OF wf] by (force simp: cid_def)
  moreover have "distinct (map fst ps)"
  proof -
    have "map fst ps = map (Pair cid) (map fst (sorted_params e username ip privateKey))"
      by (auto simp: ps_def)
    then show ?thesis using sorted_params_props(2) by (simp add: distinct_map inj_on_def)
  qed
  moreover have "distinct (map fst (params db))"
    "\<forall>p \<in> set (params db). fst (fst p) \<in> c_id ` set (connections db)"
    using wf by (simp_all add: wf_guac_def)
  ultimately have params': "distinct (map fst (params ?d))"
    "\<forall>p \<in> set (params ?d). fst (fst p) \<in> c_id ` set (connections ?d)"
    using cids unfolding params conns by auto
  have perms: "permissions ?d = permissions db @ [(eid, cid)]"
    by (simp add: configured_def Let_def cid_def eid_def)
  have "(eid, cid) \<notin> set (permissions db)" using wf_guac_bounds(5) [OF wf] by (force simp: cid_def)
  with wf have "distinct (permissions ?d)" "\<forall>q \<in> set (permissions ?d).
      fst q \<in> fst ` set (entities ?d) \<and> snd q \<in> c_id ` set (connections ?d)"
    unfolding perms ents_set conns by (auto simp: wf_guac_def)
  with ents conns' users' params' show ?thesis unfolding wf_guac_def by blast
qed

lemma configure_db_cases:
  assumes "wf_guac db" "configure_db e username uuid ip privateKey db = (r, db')"
  obtains (failed) "guac_tables db' = guac_tables db" "wf_guac db'" "r = Ok [] \<or> r = Panic"
  | (written) pw salt where "generate_random_password (g_rand_pw e) 12 = Ok pw" "g_rand_salt e 32 = Ok salt"
      "db' = configured e username uuid ip privateKey (hash_password_with_salt pw salt) salt db"
      "r = Ok pw \<and> g_commit e = Committed \<or> r = Ok [] \<and> (\<exists>m. g_commit e = CommitLost m)"
proof -
  have early: thesis if "configure_db e username uuid ip privateKey db = (Ok [], db) \<or>
      configure_db e username uuid ip privateKey db = (Panic, db)"
    using that assms by (intro failed) auto
  show thesis
  proof (cases "\<exists>pw salt. generate_random_password (g_rand_pw e) 12 = Ok pw \<and>
      g_rand_salt e 32 = Ok salt \<and> g_begin e = None")
    case False
    then show thesis
      by (intro early) (auto simp: configure_db_def generate_random_salt_def
          split: result.splits option.splits)
  next
    case True
    then obtain pw salt where ok: "generate_random_password (g_rand_pw e) 12 = Ok pw"
      "g_rand_salt e 32 = Ok salt" "g_begin e = None" by blast
    let ?h = "hash_password_with_salt pw salt"
    obtain q d where tx: "configure_tx e username uuid ip privateKey ?h salt db = (q, d)" by fastforce
    have roll: "guac_tables (rollback_tx db d) = guac_tables db" "wf_guac (rollback_tx db d)"
      using wf_guac_rollback [OF assms(1), of d]
        configure_tx_counters [of db e username uuid ip privateKey ?h salt] tx by simp_all
    show thesis
    proof (cases "q = Ok () \<and> (\<forall>m. g_commit e \<noteq> CommitFailed m)")
      case True
      with tx have "d = configured e username uuid ip privateKey ?h salt db"
        using configure_tx_ok [OF assms(1)] by simp
      moreover have "db' = d \<and> (r = Ok pw \<and> g_commit e = Committed \<or>
          r = Ok [] \<and> (\<exists>m. g_commit e = CommitLost m))"
        using assms(2) ok tx True
        by (cases "g_commit e") (simp_all add: configure_db_def generate_random_salt_def)
      ultimately show thesis using written [OF ok(1,2)] by blast
    next
      case False
      then have "(r, db') = (Ok [], rollback_tx db d)"
        using assms(2) ok tx
        by (cases q; cases "g_commit e") (simp_all add: configure_db_def generate_random_salt_def)
      with roll show thesis by (intro failed) simp_all
    qed
  qed
qed

subsection \<open>What Cleanup deletes\<close>

definition cleanup_applies :: "cleanup_env \<Rightarrow> bool" where
  "cleanup_applies e \<longleftrightarrow> gc_ping e = None \<and> gc_begin e = None \<and> gc_select e = None \<and>
     gc_del_entity e = None \<and> gc_del_conn e = None \<and>
     (case gc_commit e of CommitFailed _ \<Rightarrow> False | _ \<Rightarrow> True)"

definition cleaned :: "uuid \<Rightarrow> guac_db \<Rightarrow> guac_db" where
  "cleaned uuid db =
     (case find_entity uuid db of None \<Rightarrow> db
      | Some eid \<Rightarrow> delete_orphans (connection_name uuid) (delete_entity eid db))"

lemma cleanup_db_eq:
  "snd (cleanup_db e uuid db) = (if cleanup_applies e then cleaned uuid db else db)"
  by (cases "gc_commit e")
    (simp_all add: cleanup_db_def cleanup_applies_def cleaned_def failing_def split: option.split)

lemma cleanup_db_ok:
  assumes "fst (cleanup_db e uuid db) = Ok ()"
  shows "snd (cleanup_db e uuid db) = cleaned uuid db"
  using assms
  by (cases "gc_commit e")
    (auto simp: cleanup_db_def cleaned_def failing_def split: option.splits)

lemma delete_entity_rows:
  "fst ` set (entities (delete_entity eid db)) = fst ` set (entities db) - {eid}"
  "set (users (delete_entity eid db)) = {u \<in> set (users db). u_entity u \<noteq> eid}"
  "set (permissions (delete_entity eid db)) = {q \<in> set (permissions db). fst q \<noteq> eid}"
  "connections (delete_entity eid db) = connections db" "params (delete_entity eid db) = params db"
  "next_entity (delete_entity eid db) = next_entity db"
  "next_connection (delete_entity eid db) = next_connection db"
  by (auto simp: delete_entity_def)

lemma delete_orphans_rows:
  defines "gone name db \<equiv> c_id ` set (filter (orphan name db) (connections db))"
  shows
  "c_id ` set (connections (delete_orphans name db)) = c_id ` set (connections db) - gone name db"
  "set (params (delete_orphans name db)) = {p \<in> set (params db). fst (fst p) \<notin> gone name db}"
  "set (permissions (delete_orphans name db)) = {q \<in> set (permissions db). snd q \<notin> gone name db}"
  "entities (delete_orphans name db) = entities db" "users (delete_orphans name db) = users db"
  "next_entity (delete_orphans name db) = next_entity db"
  "next_connection (delete_orphans name db) = next_connection db"
  "set (connections (delete_orphans name db)) = {c \<in> set (connections db). c_id c \<notin> gone name db}"
  by (auto simp: delete_orphans_def Let_def gone_def)

lemma wf_delete_entity:
  assumes "wf_guac db"
  shows "wf_guac (delete_entity eid db)"
proof -
  have "distinct (map fst (entities (delete_entity eid db)))" "distinct (map snd (entities (delete_entity eid db)))"
    "distinct (map u_entity (users (delete_entity eid db)))" "distinct (permissions (delete_entity eid db))"
    using assms by (simp_all add: wf_guac_def delete_entity_def distinct_map_filter)
  with assms show ?thesis unfolding wf_guac_def delete_entity_rows by blast
qed

lemma wf_delete_orphans:
  assumes "wf_guac db"
  shows "wf_guac (delete_orphans name db)"
proof -
  have "distinct (map c_id (connections (delete_orphans name db)))"
    "distinct (map fst (params (delete_orphans name db)))" "distinct (permissions (delete_orphans name db))"
    using assms by (simp_all add: wf_guac_def delete_orphans_def Let_def distinct_map_filter)
  with assms show ?thesis unfolding wf_guac_def delete_orphans_rows(1-7) by blast
qed

lemma wf_cleaned: "wf_guac db \<Longrightarrow> wf_guac (cleaned uuid db)"
  by (simp add: cleaned_def wf_delete_entity wf_delete_orphans split: option.split)

lemma connection_name_inj: "connection_name u = connection_name v \<longleftrightarrow> u = v"
  by (simp add: connection_name_def)

lemma cleaned_entities:
  assumes "wf_guac db"
  shows "entities (cleaned uuid db) = filter (\<lambda>e. snd e \<noteq> uuid) (entities db)"
proof (cases "find_entity uuid db")
  case None
  then have "\<forall>e \<in> set (entities db). snd e \<noteq> uuid" by (force simp: find_entity_None_iff)
  with None show ?thesis by (simp add: cleaned_def)
next
  case (Some i)
  have "fst e = i \<longleftrightarrow> snd e = uuid" if "e \<in> set (entities db)" for e
  proof
    assume "fst e = i"
    moreover have "distinct (map fst (entities db))" using assms by (simp add: wf_guac_def)
    ultimately show "snd e = uuid"
      using that find_entity_Some [OF Some] by (metis eq_key_imp_eq_value prod.collapse)
  next
    assume "snd e = uuid"
    with that have "find_entity uuid db = Some (fst e)"
      by (intro find_entity_unique [OF assms]) (metis prod.collapse)
    with Some show "fst e = i" by simp
  qed
  then have "filter (\<lambda>e. fst e \<noteq> i) (entities db) = filter (\<lambda>e. snd e \<noteq> uuid) (entities db)"
    by (intro filter_cong) auto
  with Some show ?thesis by (simp add: cleaned_def delete_orphans_rows(4) delete_entity_def)
qed

lemma orphan_ids:
  assumes "distinct (map c_id cs)" "c \<in> set cs" "c_name c \<noteq> name"
  shows "c_id c \<notin> c_id ` set (filter (orphan name db) cs)"
proof
  assume "c_id c \<in> c_id ` set (filter (orphan name db) cs)"
  then obtain d where "d \<in> set cs" "orphan name db d" "c_id d = c_id c" by auto
  with assms(1,2) have "d = c" by (auto simp: distinct_map inj_on_def)
  with \<open>orphan name db d\<close> assms(3) show False by (simp add: orphan_def)
qed

lemma cleaned_keeps:
  assumes wf: "wf_guac db" and c: "c \<in> set (connections db)" "c_name c \<noteq> connection_name uuid"
  shows "c \<in> set (connections (cleaned uuid db))"
    "((c_id c, n), v) \<in> set (params db) \<Longrightarrow> ((c_id c, n), v) \<in> set (params (cleaned uuid db))"
    "(i, c_id c) \<in> set (permissions db) \<Longrightarrow> find_entity uuid db \<noteq> Some i \<Longrightarrow>
       (i, c_id c) \<in> set (permissions (cleaned uuid db))"
proof -
  have "distinct (map c_id (connections db))" using wf by (simp add: wf_guac_def)
  from orphan_ids [OF this c]
  have kept: "c_id c \<notin> c_id ` set (filter (orphan (connection_name uuid) d) (connections db))" for d .
  show "c \<in> set (connections (cleaned uuid db))"
    using c(1) kept
    by (cases "find_entity uuid db")
      (simp_all add: cleaned_def delete_orphans_rows delete_entity_rows del: set_filter)
  show "((c_id c, n), v) \<in> set (params (cleaned uuid db))" if "((c_id c, n), v) \<in> set (params db)"
    using that kept
    by (cases "find_entity uuid db")
      (simp_all add: cleaned_def delete_orphans_rows delete_entity_rows del: set_filter)
  show "(i, c_id c) \<in> set (permissions (cleaned uuid db))"
    if "(i, c_id c) \<in> set (permissions db)" "find_entity uuid db \<noteq> Some i"
    using that kept
    by (cases "find_entity uuid db")
      (simp_all add: cleaned_def delete_orphans_rows delete_entity_rows del: set_filter)
qed

lemma cleaned_configured:
  assumes wf: "wf_guac db" and new: "find_entity uuid db = None"
    and unnamed: "\<forall>c \<in> set (connections db). c_name c \<noteq> connection_name uuid"
  shows "guac_tables (cleaned uuid (configured e username uuid ip privateKey hash salt db)) = guac_tables db"
proof -
  let ?d = "configured e username uuid ip privateKey hash salt db"
  let ?i = "next_entity db" and ?c = "next_connection db"
  have fresh: "\<forall>e \<in> set (entities db). fst e \<noteq> ?i" "\<forall>u \<in> set (users db). u_entity u \<noteq> ?i"
    "\<forall>q \<in> set (permissions db). fst q \<noteq> ?i \<and> snd q \<noteq> ?c"
    "\<forall>c \<in> set (connections db). c_id c \<noteq> ?c" "\<forall>p \<in> set (params db). fst (fst p) \<noteq> ?c"
    using wf_guac_fresh [OF wf] by simp_all
  have d: "entities ?d = entities db @ [(?i, uuid)]"
    "users ?d = users db @ [\<lparr>u_entity = ?i, u_hash = hash, u_salt = salt, u_date = g_now e\<rparr>]"
    "connections ?d = connections db @ [\<lparr>c_id = ?c, c_name = connection_name uuid, c_protocol = ''ssh''\<rparr>]"
    "params ?d = params db @ map (\<lambda>(n, v). ((?c, n), v)) (sorted_params e username ip privateKey)"
    "permissions ?d = permissions db @ [(?i, ?c)]"
    using new fresh(2) by (auto simp: configured_def Let_def wrote_user_def)
  have "(?i, uuid) \<in> set (entities ?d)" by (simp add: d)
  from find_entity_unique [OF wf_configured [OF wf] this] have find: "find_entity uuid ?d = Some ?i" .
  have del: "entities (delete_entity ?i ?d) = entities db" "users (delete_entity ?i ?d) = users db"
    "permissions (delete_entity ?i ?d) = permissions db"
    "connections (delete_entity ?i ?d) = connections ?d" "params (delete_entity ?i ?d) = params ?d"
    using fresh by (auto simp: delete_entity_def d intro!: filter_True)
  have orphans: "filter (orphan (connection_name uuid) (delete_entity ?i ?d)) (connections ?d) =
      [\<lparr>c_id = ?c, c_name = connection_name uuid, c_protocol = ''ssh''\<rparr>]"
    using unnamed fresh(3) by (force simp: d(3) orphan_def del filter_empty_conv)
  have "filter (\<lambda>p. fst (fst p) \<noteq> ?c) (params ?d) = params db"
    using fresh(5) by (auto simp: d(4) filter_empty_conv intro!: filter_True)
  moreover have "filter (\<lambda>c. c_id c \<noteq> ?c) (connections ?d) = connections db"
    using fresh(4) by (auto simp: d(3) intro!: filter_True)
  moreover have "filter (\<lambda>q. snd q \<noteq> ?c) (permissions db) = permissions db"
    using fresh(3) by (auto intro!: filter_True)
  ultimately show ?thesis
    by (intro guac_tables_eqI) (simp_all add: cleaned_def find delete_orphans_def Let_def orphans del)
qed

lemma cleaned_cong:
  assumes "guac_tables s = guac_tables t"
  shows "guac_tables (cleaned uuid s) = guac_tables (cleaned uuid t)"
proof -
  note eqs = guac_tables_eqD [OF assms]
  have "find_entity uuid s = find_entity uuid t" by (simp add: find_entity_def eqs)
  moreover have "orphan n (delete_entity i s) = orphan n (delete_entity i t)" for n i
    by (simp add: orphan_def delete_entity_def eqs fun_eq_iff)
  ultimately show ?thesis
    by (cases "find_entity uuid t")
      (auto intro!: guac_tables_eqI simp: assms cleaned_def delete_orphans_def Let_def delete_entity_def eqs)
qed

lemma configure_db_tables:
  assumes "wf_guac s" "wf_guac t" "guac_tables s = guac_tables t" "find_entity uuid t = None"
  shows "wf_guac s \<and> find_entity uuid s = None"
  using assms guac_tables_eqD [OF assms(3)] by (simp add: find_entity_def)

section \<open>Configure and Cleanup as a reversible step\<close>

text \<open>
  \<open>CreateVM\<close> registers Cleanup as the undo of a Configure that returned a password. The
  pair is reversible when the uuid has no user and no connection yet.
\<close>

type_synonym guac_act = "guac_env \<times> cleanup_env \<times> string \<times> uuid \<times> string \<times> string"

definition do_configure :: "guac_act \<Rightarrow> guac_db \<Rightarrow> guac_db" where
  "do_configure a db =
     (case a of (e, ce, username, uuid, ip, key) \<Rightarrow> snd (configure_db e username uuid ip key db))"

definition undo_configure :: "guac_act \<Rightarrow> guac_db \<Rightarrow> guac_db" where
  "undo_configure a db = (case a of (e, ce, username, uuid, ip, key) \<Rightarrow> snd (cleanup_db ce uuid db))"

definition fresh_uuid :: "uuid \<Rightarrow> guac_db \<Rightarrow> bool" where
  "fresh_uuid uuid db \<longleftrightarrow>
     find_entity uuid db = None \<and> (\<forall>c \<in> set (connections db). c_name c \<noteq> connection_name uuid)"

definition can_configure :: "guac_act \<Rightarrow> guac_db \<Rightarrow> bool" where
  "can_configure a db =
     (case a of (e, ce, username, uuid, ip, key) \<Rightarrow>
        wf_guac db \<and> fresh_uuid uuid db \<and> cleanup_applies ce)"

lemma cleaned_fresh:
  "find_entity uuid db = None \<Longrightarrow> cleaned uuid db = db"
  by (simp add: cleaned_def)

lemma undo_configure_do_configure:
  assumes "can_configure a db"
  shows "guac_tables (undo_configure a (do_configure a db)) = guac_tables db"
proof -
  obtain e ce username uuid ip key where a: "a = (e, ce, username, uuid, ip, key)"
    by (cases a)
  have ok: "wf_guac db" "find_entity uuid db = None" "cleanup_applies ce"
    "\<forall>c \<in> set (connections db). c_name c \<noteq> connection_name uuid"
    using assms by (simp_all add: a can_configure_def fresh_uuid_def)
  obtain r db' where c: "configure_db e username uuid ip key db = (r, db')" by fastforce
  have "guac_tables (cleaned uuid db') = guac_tables db"
    using ok(1) c
  proof (cases rule: configure_db_cases)
    case failed
    then have "find_entity uuid db' = None"
      using ok(2) guac_tables_eqD(1) [OF failed(1)] by (simp add: find_entity_def)
    with failed(1) show ?thesis by (simp add: cleaned_fresh)
  next
    case (written pw salt)
    then show ?thesis using cleaned_configured [OF ok(1,2,4)] by simp
  qed
  then show ?thesis using ok(3) c
    by (simp add: a do_configure_def undo_configure_def cleanup_db_eq)
qed

interpretation guac: reversible do_configure undo_configure can_configure guac_tables
proof
  show "guac_tables (undo_configure a (do_configure a s)) = guac_tables s" if "can_configure a s" for a s
    using that by (rule undo_configure_do_configure)
  show "guac_tables (undo_configure a s) = guac_tables (undo_configure a t)"
    if "guac_tables s = guac_tables t" for a s t
    using that cleaned_cong [OF that]
    by (simp add: undo_configure_def cleanup_db_eq split: prod.split)
qed

section \<open>Histories of calls\<close>

datatype guac_op =
    DoConfigure guac_env string uuid string string
  | DoCleanup cleanup_env uuid

fun guac_step :: "guac_op \<Rightarrow> guac_db \<Rightarrow> guac_db" where
  "guac_step (DoConfigure e username uuid ip key) db = snd (configure_db e username uuid ip key db)"
| "guac_step (DoCleanup e uuid) db = snd (cleanup_db e uuid db)"

definition empty_guac :: guac_db where
  "empty_guac = \<lparr>entities = [], users = [], connections = [], params = [], permissions = [],
     next_entity = 1, next_connection = 1\<rparr>"

definition demo_guac_env :: guac_env where
  "demo_guac_env = \<lparr>g_rand_pw = (\<lambda>n. Ok (replicate n 7)), g_rand_salt = (\<lambda>n. Ok (replicate n 9)),
     g_begin = None, g_select = None, g_ins_entity = None, g_entity_id = None, g_user = None,
     g_conn = None, g_conn_id = None, g_param = (\<lambda>_. None), g_perm = None,
     g_commit = Committed, g_now = 0, g_rank = (\<lambda>s. 0)\<rparr>"

definition demo_cleanup_env :: cleanup_env where
  "demo_cleanup_env = \<lparr>gc_ping = None, gc_begin = None, gc_select = None, gc_del_entity = None,
     gc_del_conn = None, gc_commit = Committed\<rparr>"

lemma wf_empty_guac: "wf_guac empty_guac"
  by (simp add: wf_guac_def empty_guac_def)

lemma wf_configure_db: "wf_guac db \<Longrightarrow> wf_guac (snd (configure_db e username uuid ip key db))"
proof -
  assume wf: "wf_guac db"
  obtain r db' where c: "configure_db e username uuid ip key db = (r, db')" by fastforce
  from wf c have "wf_guac db'"
  proof (cases rule: configure_db_cases)
    case (written pw salt)
    with wf_configured [OF wf] show ?thesis by simp
  qed
  with c show ?thesis by simp
qed

lemma wf_cleanup_db: "wf_guac db \<Longrightarrow> wf_guac (snd (cleanup_db e uuid db))"
  by (simp add: cleanup_db_eq wf_cleaned)

text \<open>Without faults Configure succeeds.\<close>

definition guac_no_faults :: "guac_env \<Rightarrow> bool" where
  "guac_no_faults e \<longleftrightarrow> g_begin e = None \<and> g_select e = None \<and> g_ins_entity e = None \<and>
     g_entity_id e = None \<and> g_user e = None \<and> g_conn e = None \<and> g_conn_id e = None \<and>
     g_param e = (\<lambda>_. None) \<and> g_perm e = None \<and> g_commit e = Committed"

lemma set_params_no_faults: "fst (set_params (\<lambda>_. None) cid ps db) = Ok ()"
  by (induction ps arbitrary: db) auto

lemma configure_tx_no_faults:
  assumes "guac_no_faults e"
  shows "fst (configure_tx e username uuid ip privateKey hash salt db) = Ok ()"
proof -
  have ent: "\<exists>i d. entity_for e uuid db = (Ok i, d)"
    using assms by (simp add: guac_no_faults_def entity_for_def Let_def split: option.split prod.split)
  have prm: "\<exists>d'. set_params (\<lambda>_. None) c ps d = (Ok (), d')" for c ps d
    using set_params_no_faults [of c ps d] by (cases "set_params (\<lambda>_. None) c ps d") simp
  from ent obtain i d where i: "entity_for e uuid db = (Ok i, d)" by blast
  define u where "u = upsert_user \<lparr>u_entity = i, u_hash = hash, u_salt = salt, u_date = g_now e\<rparr> d"
  obtain c d1 where c: "insert_connection (connection_name uuid) u = (c, d1)" by fastforce
  obtain d2 where "set_params (\<lambda>_. None) c (sort_key (g_rank e \<circ> fst) (parameters username ip privateKey)) d1
      = (Ok (), d2)" using prm by blast
  with assms i c show ?thesis
    by (simp add: guac_no_faults_def configure_tx_def Let_def flip: u_def)
qed

lemma configure_db_no_faults:
  assumes "guac_no_faults e" "generate_random_password (g_rand_pw e) 12 = Ok pw" "g_rand_salt e 32 = Ok salt"
  shows "configure_db e username uuid ip key db =
           (Ok pw, snd (configure_tx e username uuid ip key (hash_password_with_salt pw salt) salt db))"
proof -
  obtain d where "configure_tx e username uuid ip key (hash_password_with_salt pw salt) salt db = (Ok (), d)"
    using configure_tx_no_faults [OF assms(1), of username uuid ip key "hash_password_with_salt pw salt" salt db]
    by (metis old.unit.exhaust prod.collapse)
  with assms show ?thesis
    by (simp add: configure_db_def guac_no_faults_def generate_random_salt_def)
qed

lemma demo_configure:
  obtains pw where "pw \<noteq> []"
    "configure_db demo_guac_env username uuid ip key db = (Ok pw, snd (configure_db demo_guac_env username uuid ip key db))"
proof -
  have "generate_random_password (\<lambda>n. Ok (replicate n 7)) 12 =
      Ok (base64url (take 9 (replicate 12 7)))"
    by code_simp
  moreover have "base64url (take 9 (replicate 12 7)) \<noteq> []" by code_simp
  moreover have "guac_no_faults demo_guac_env" by (simp add: guac_no_faults_def demo_guac_env_def)
  ultimately show thesis
    using that configure_db_no_faults [of demo_guac_env]
    by (simp add: demo_guac_env_def)
qed

lemma password_not_empty: "generate_random_password rnd 12 = Ok pw \<Longrightarrow> pw \<noteq> []"
  by (auto simp: generate_random_password_def Let_def split: result.splits if_splits)

lemma wrote_user_mem: "u \<in> set (wrote_user u us)"
  by (auto simp: wrote_user_def image_iff split: if_splits)

lemma configure_db_user:
  assumes "wf_guac db" "configure_db e username uuid ip key db = (Ok pw, db')" "pw \<noteq> []"
  shows "find_entity uuid db' \<noteq> None"
  using assms(1,2)
proof (cases rule: configure_db_cases)
  case failed
  with assms(3) show ?thesis by simp
next
  case (written pw' salt)
  have "uuid \<in> snd ` set (entities db')"
    using find_entity_None_iff [of uuid db]
    by (cases "find_entity uuid db") (auto simp: written(3) configured_def Let_def)
  then show ?thesis by (simp add: find_entity_None_iff)
qed

section \<open>Properties\<close>

interpretation guac_tables: invariant_steps guac_step wf_guac "\<lambda>_. True"
proof
  show "wf_guac (guac_step c d)" if "wf_guac d" for c d
    using that by (cases c) (simp_all add: wf_configure_db wf_cleanup_db)
qed

text \<open>C32: whatever calls of Configure and Cleanup are made, with whatever driver failures,
  the Guacamole tables keep their integrity: ids and entity names stay unique and below
  their counters, every user belongs to an entity, every parameter to a connection, and
  every permission joins an existing entity to an existing connection.\<close>

theorem guac_integrity:
  assumes "wf_guac db"
  shows "wf_guac (fold guac_step ops db)"
  using assms by (rule guac_tables.any_history) simp

theorem guac_integrity_witness:
  "wf_guac (fold guac_step [DoConfigure demo_guac_env ''u'' ''id'' ''ip'' ''key'',
     DoCleanup demo_cleanup_env ''id''] empty_guac)"
  by (rule guac_integrity) (rule wf_empty_guac)

text \<open>C33: when Configure returns a password, the VM's uuid is a Guacamole user whose stored
  hash is the one of that password under the stored salt, and that user may read a new
  SSH connection \<open>uuid-ssh\<close> carrying exactly the four parameters of the call.\<close>

theorem configure_grants_access:
  assumes "wf_guac db" "configure_db e username uuid ip key db = (Ok pw, db')" "pw \<noteq> []"
  shows "\<exists>eid cid salt t. find_entity uuid db' = Some eid \<and>
     \<lparr>u_entity = eid, u_hash = hash_password_with_salt pw salt, u_salt = salt, u_date = t\<rparr> \<in> set (users db') \<and>
     \<lparr>c_id = cid, c_name = uuid @ ''-ssh'', c_protocol = ''ssh''\<rparr> \<in> set (connections db') \<and>
     cid \<notin> c_id ` set (connections db) \<and> (eid, cid) \<in> set (permissions db') \<and>
     (\<forall>n v. ((cid, n), v) \<in> set (params db') \<longleftrightarrow>
        (n, v) \<in> {(''hostname'', ip), (''port'', ''22''), (''username'', username), (''private-key'', key)})"
  using assms(1,2)
proof (cases rule: configure_db_cases)
  case failed
  with assms(3) show ?thesis by simp
next
  case (written pw' salt)
  with assms(3) have pw: "pw' = pw" by auto
  define eid where "eid = (case find_entity uuid db of Some i \<Rightarrow> i | None \<Rightarrow> next_entity db)"
  define cid where "cid = next_connection db"
  have wf': "wf_guac db'" using wf_configured [OF assms(1)] written(3) by simp
  have "(eid, uuid) \<in> set (entities db')"
    using find_entity_Some [of uuid db]
    by (cases "find_entity uuid db") (simp_all add: written(3) configured_def Let_def eid_def)
  then have 1: "find_entity uuid db' = Some eid" by (rule find_entity_unique [OF wf'])
  have 2: "\<lparr>u_entity = eid, u_hash = hash_password_with_salt pw salt, u_salt = salt, u_date = g_now e\<rparr> \<in> set (users db')"
    by (simp add: written(3) pw configured_def Let_def wrote_user_mem flip: eid_def)
  have 3: "\<lparr>c_id = cid, c_name = uuid @ ''-ssh'', c_protocol = ''ssh''\<rparr> \<in> set (connections db')"
    "(eid, cid) \<in> set (permissions db')"
    by (simp_all add: written(3) configured_def Let_def connection_name_def eid_def cid_def)
  have 4: "cid \<notin> c_id ` set (connections db)"
    using wf_guac_fresh(2) [OF assms(1)] unfolding cid_def by (metis imageE)
  have "((cid, n), v) \<notin> set (params db)" for n v
    using wf_guac_fresh(4) [OF assms(1), of "((cid, n), v)"] by (auto simp: cid_def)
  moreover have "params db' = params db @ map (\<lambda>(n, v). ((cid, n), v)) (sorted_params e username ip key)"
    by (simp add: written(3) configured_def Let_def cid_def)
  moreover have "((cid, n), v) \<in> set (map (\<lambda>(n, v). ((cid, n), v)) (sorted_params e username ip key))
      \<longleftrightarrow> (n, v) \<in> set (parameters username ip key)" for n v
    by (auto simp: sorted_params_props(1))
  ultimately have 5: "((cid, n), v) \<in> set (params db') \<longleftrightarrow> (n, v) \<in> set (parameters username ip key)" for n v
    by simp
  have 6: "set (parameters username ip key) =
      {(''hostname'', ip), (''port'', ''22''), (''username'', username), (''private-key'', key)}"
    by (simp add: parameters_def)
  show ?thesis
    by (intro exI [of _ eid] exI [of _ cid] exI [of _ salt] exI [of _ "g_now e"] conjI allI
        1 2 3 4 5 [unfolded 6])
qed

theorem configure_grants_access_witness:
  "\<exists>eid. find_entity ''id'' (snd (configure_db demo_guac_env ''u'' ''id'' ''ip'' ''key'' empty_guac)) = Some eid"
proof -
  obtain pw where "pw \<noteq> []" "configure_db demo_guac_env ''u'' ''id'' ''ip'' ''key'' empty_guac =
      (Ok pw, snd (configure_db demo_guac_env ''u'' ''id'' ''ip'' ''key'' empty_guac))"
    by (rule demo_configure)
  from configure_grants_access [OF wf_empty_guac this(2,1)] show ?thesis by blast
qed

text \<open>C17: when Configure reports failure (the empty password) and the commit did not go
  through behind an error, the tables are untouched: no partial user, connection or
  permission survives; when it panics nothing was written either.\<close>

theorem configure_failure_writes_nothing:
  assumes "wf_guac db" "configure_db e username uuid ip key db = (r, db')"
    "r = Ok [] \<or> r = Panic" "\<forall>m. g_commit e \<noteq> CommitLost m"
  shows "guac_tables db' = guac_tables db"
  using assms(1,2)
proof (cases rule: configure_db_cases)
  case (written pw salt)
  from password_not_empty [OF written(1)] written(4) assms(3,4) show ?thesis by auto
qed

lemma configure_db_no_permission:
  assumes "guac_no_faults e" "generate_random_password (g_rand_pw e) 12 = Ok pw" "g_rand_salt e 32 = Ok salt"
  shows "\<exists>db'. configure_db (e\<lparr>g_perm := Some err\<rparr>) username uuid ip key db = (Ok [], db')"
proof -
  let ?e = "e\<lparr>g_perm := Some err\<rparr>" and ?h = "hash_password_with_salt pw salt"
  obtain q d where tx: "configure_tx ?e username uuid ip key ?h salt db = (q, d)" by fastforce
  have "configure_tx ?e username uuid ip key ?h salt db \<noteq> (Ok (), d)"
    by (auto simp: configure_tx_def Let_def and_then_Ok_iff split: prod.splits)
  with tx assms show ?thesis
    by (cases q) (simp_all add: configure_db_def guac_no_faults_def generate_random_salt_def)
qed

theorem configure_failure_writes_nothing_witness:
  "\<exists>db'. guac_tables db' = guac_tables empty_guac \<and>
     configure_db (demo_guac_env\<lparr>g_perm := Some ''denied''\<rparr>) ''u'' ''id'' ''ip'' ''key'' empty_guac = (Ok [], db')"
proof -
  let ?e = "demo_guac_env\<lparr>g_perm := Some ''denied''\<rparr>"
  have "generate_random_password (g_rand_pw demo_guac_env) 12 = Ok (base64url (take 9 (replicate 12 7)))"
    by code_simp
  moreover have "guac_no_faults demo_guac_env" "g_rand_salt demo_guac_env 32 = Ok (replicate 32 9)"
    by (simp_all add: guac_no_faults_def demo_guac_env_def)
  ultimately obtain db' where c: "configure_db ?e ''u'' ''id'' ''ip'' ''key'' empty_guac = (Ok [], db')"
    using configure_db_no_permission by blast
  have "\<forall>m. g_commit ?e \<noteq> CommitLost m" by (simp add: demo_guac_env_def)
  with c configure_failure_writes_nothing [OF wf_empty_guac c] show ?thesis by blast
qed

text \<open>The tables after a Cleanup, row by row.\<close>

lemma delete_orphans_entity:
  fixes name i
  assumes "wf_guac db"
  defines "db' \<equiv> delete_orphans name (delete_entity i db)"
  shows "users db' = filter (\<lambda>u. u_entity u \<noteq> i) (users db)"
    "permissions db' = filter (\<lambda>q. fst q \<noteq> i) (permissions db)"
    "connections db' = filter (\<lambda>c. c_name c \<noteq> name \<or> (\<exists>q \<in> set (permissions db). fst q \<noteq> i \<and> snd q = c_id c)) (connections db)"
    "params db' = filter (\<lambda>p. fst (fst p) \<in> c_id ` set (connections db')) (params db)"
proof -
  let ?d = "delete_entity i db"
  let ?gone = "c_id ` set (filter (orphan name ?d) (connections db))"
  have orphan: "orphan name ?d c \<longleftrightarrow> \<not> (c_name c \<noteq> name \<or> (\<exists>q \<in> set (permissions db). fst q \<noteq> i \<and> snd q = c_id c))" for c
    by (force simp: orphan_def delete_entity_def)
  have inj: "inj_on c_id (set (connections db))" using assms(1) by (simp add: wf_guac_def distinct_map)
  have gone: "c_id c \<in> ?gone \<longleftrightarrow> orphan name ?d c" if "c \<in> set (connections db)" for c
    using that inj by (auto simp: inj_on_def)
  show "users db' = filter (\<lambda>u. u_entity u \<noteq> i) (users db)"
    by (simp add: db'_def delete_orphans_rows(5)) (simp add: delete_entity_def)
  have "snd q \<notin> ?gone" if "q \<in> set (permissions ?d)" for q
    using that by (force simp: orphan_def)
  then have "permissions db' = permissions ?d"
    by (simp add: db'_def delete_orphans_def Let_def delete_entity_rows filter_id_conv)
  then show "permissions db' = filter (\<lambda>q. fst q \<noteq> i) (permissions db)" by (simp add: delete_entity_def)
  have conns: "connections db' = filter (\<lambda>c. c_id c \<notin> ?gone) (connections db)"
    by (simp add: db'_def delete_orphans_def Let_def delete_entity_rows)
  also have "\<dots> = filter (\<lambda>c. c_name c \<noteq> name \<or> (\<exists>q \<in> set (permissions db). fst q \<noteq> i \<and> snd q = c_id c)) (connections db)"
    by (intro filter_cong refl) (simp add: gone orphan del: set_filter)
  finally show "connections db' = \<dots>" .
  have "params db' = filter (\<lambda>p. fst (fst p) \<notin> ?gone) (params db)"
    by (simp add: db'_def delete_orphans_def Let_def delete_entity_rows)
  also have "\<dots> = filter (\<lambda>p. fst (fst p) \<in> c_id ` set (connections db')) (params db)"
    using assms(1) by (intro filter_cong refl) (auto simp: conns wf_guac_def)
  finally show "params db' = \<dots>" .
qed

text \<open>C34: a Cleanup that returns no error leaves no Guacamole user for the uuid and takes nothing
  from anyone else. Without a user of that name it changes nothing. Otherwise exactly the entity,
  its user and its permissions go, and of the connections those that carry the name of the uuid
  and that no other entity has a permission for, with their parameters.\<close>

theorem cleanup_removes_only_its_vm:
  assumes "wf_guac db" "cleanup_db e uuid db = (Ok (), db')"
  shows "find_entity uuid db' = None \<and>
    (case find_entity uuid db of
       None \<Rightarrow> db' = db
     | Some i \<Rightarrow>
         entities db' = filter (\<lambda>en. snd en \<noteq> uuid) (entities db) \<and>
         users db' = filter (\<lambda>u. u_entity u \<noteq> i) (users db) \<and>
         permissions db' = filter (\<lambda>q. fst q \<noteq> i) (permissions db) \<and>
         connections db' = filter (\<lambda>c. c_name c \<noteq> uuid @ ''-ssh'' \<or>
             (\<exists>q \<in> set (permissions db). fst q \<noteq> i \<and> snd q = c_id c)) (connections db) \<and>
         params db' = filter (\<lambda>p. fst (fst p) \<in> c_id ` set (connections db')) (params db))"
proof -
  have db': "db' = cleaned uuid db" using cleanup_db_ok [of e uuid db] assms(2) by simp
  have "find_entity uuid db' = None"
    using cleaned_entities [OF assms(1)] by (auto simp: db' find_entity_None_iff)
  moreover note cleaned_entities [OF assms(1), of uuid] delete_orphans_entity [OF assms(1), of "uuid @ ''-ssh''"]
  ultimately show ?thesis
    by (cases "find_entity uuid db") (simp_all add: db' cleaned_def connection_name_def)
qed

definition demo_shared :: guac_db where
  "demo_shared = \<lparr>entities = [(1, ''vm-1''), (2, ''vm-2'')],
     users = [\<lparr>u_entity = 1, u_hash = [], u_salt = [], u_date = 0\<rparr>, \<lparr>u_entity = 2, u_hash = [], u_salt = [], u_date = 0\<rparr>],
     connections = [\<lparr>c_id = 5, c_name = ''vm-1-ssh'', c_protocol = ''ssh''\<rparr>,
       \<lparr>c_id = 6, c_name = ''vm-1-ssh'', c_protocol = ''ssh''\<rparr>, \<lparr>c_id = 7, c_name = ''vm-2-ssh'', c_protocol = ''ssh''\<rparr>],
     params = [((5, ''port''), ''22''), ((6, ''port''), ''22''), ((7, ''port''), ''22'')],
     permissions = [(1, 5), (1, 6), (2, 6), (2, 7)], next_entity = 3, next_connection = 8\<rparr>"

theorem cleanup_removes_only_its_vm_witness:
  "\<exists>db'. cleanup_db demo_cleanup_env ''vm-1'' demo_shared = (Ok (), db') \<and> find_entity ''vm-1'' db' = None \<and>
     map u_entity (users db') = [2] \<and> map c_id (connections db') = [6, 7] \<and> permissions db' = [(2, 6), (2, 7)]"
proof -
  have wf: "wf_guac demo_shared" by (simp add: wf_guac_def demo_shared_def)
  obtain db' where run: "cleanup_db demo_cleanup_env ''vm-1'' demo_shared = (Ok (), db')"
    by (simp add: cleanup_db_def demo_cleanup_env_def failing_def demo_shared_def find_entity_def)
  have "find_entity ''vm-1'' demo_shared = Some 1" by (simp add: demo_shared_def find_entity_def)
  with cleanup_removes_only_its_vm [OF wf run]
  have "find_entity ''vm-1'' db' = None" "users db' = filter (\<lambda>u. u_entity u \<noteq> 1) (users demo_shared)"
    "permissions db' = filter (\<lambda>q. fst q \<noteq> 1) (permissions demo_shared)"
    "connections db' = filter (\<lambda>c. c_name c \<noteq> ''vm-1-ssh'' \<or>
       (\<exists>q \<in> set (permissions demo_shared). fst q \<noteq> 1 \<and> snd q = c_id c)) (connections demo_shared)"
    by simp_all
  then have "find_entity ''vm-1'' db' = None \<and> map u_entity (users db') = [2] \<and> map c_id (connections db') = [6, 7] \<and>
      permissions db' = [(2, 6), (2, 7)]"
    by (simp add: demo_shared_def del: One_nat_def)
  with run show ?thesis by (intro exI [of _ db']) simp
qed

end
