(* ===== verification/Json.thy ===== *)
theory Json
  imports GoStd
begin

text \<open>
  The part of \<open>encoding/json\<close> the program relies on, over parsed documents: decoding an
  object into a Go struct (exact key first, then the case-insensitive match, unknown keys
  ignored, \<open>null\<close> leaving the field as it is, integers checked against the width of the
  field) and building the documents \<open>Marshal\<close> writes. Concrete syntax is not modelled; a
  text that is no JSON document is \<open>Garbage\<close>.
\<close>

section \<open>Documents\<close>

text \<open>\<open>JDec\<close> is a number literal that is not a plain integer.\<close>

datatype json =
    JNull
  | JBool bool
  | JInt int
  | JDec string
  | JStr string
  | JArr "json list"
  | JObj "(string \<times> json) list"

datatype json_text = Doc json | Garbage string

definition syntax_error :: error where
  "syntax_error = ''invalid character''"

definition type_error :: error where
  "type_error = ''json: cannot unmarshal''"

section \<open>Decoding into structs\<close>

text \<open>
  A schema lists the fields of a struct: the key and what storing a value there does to the
  struct, \<open>None\<close> when the value has the wrong type.
\<close>

type_synonym 'r field = "string \<times> (json \<Rightarrow> 'r \<Rightarrow> 'r option)"

definition lower_char :: "char \<Rightarrow> char" where
  "lower_char c =
     (let n = of_char c :: nat in if 65 \<le> n \<and> n \<le> 90 then char_of (n + 32) else c)"

text \<open>Simple folding of keys: ASCII letters, and the long s and the Kelvin sign, whose UTF-8
  bytes fold to \<open>s\<close> and \<open>k\<close>.\<close>

fun fold_name :: "string \<Rightarrow> string" where
  "fold_name (c # d # cs) =
     (if c = CHR 0xC5 \<and> d = CHR 0xBF then CHR ''s'' # fold_name cs
      else if c = CHR 0xE2 \<and> d = CHR 0x84 \<and> cs \<noteq> [] \<and> hd cs = CHR 0xAA
      then CHR ''k'' # fold_name (tl cs)
      else lower_char c # fold_name (d # cs))"
| "fold_name cs = map lower_char cs"

definition find_field :: "'r field list \<Rightarrow> string \<Rightarrow> (json \<Rightarrow> 'r \<Rightarrow> 'r option) option" where
  "find_field fs key =
     (case map_of fs key of
        Some store \<Rightarrow> Some store
      | None \<Rightarrow> map_option snd (find (\<lambda>f. fold_name (fst f) = fold_name key) fs))"

text \<open>The decoder stores what it can and remembers whether some value did not fit.\<close>

fun decode_pairs :: "'r field list \<Rightarrow> (string \<times> json) list \<Rightarrow> 'r \<Rightarrow> 'r \<times> bool" where
  "decode_pairs fs [] r = (r, True)"
| "decode_pairs fs ((key, v) # kvs) r =
     (case find_field fs key of
        None \<Rightarrow> decode_pairs fs kvs r
      | Some store \<Rightarrow>
          (case store v r of
             Some r' \<Rightarrow> decode_pairs fs kvs r'
           | None \<Rightarrow> (fst (decode_pairs fs kvs r), False)))"

definition decode_struct :: "'r field list \<Rightarrow> 'r \<Rightarrow> json \<Rightarrow> 'r option" where
  "decode_struct fs r v =
     (case v of
        JNull \<Rightarrow> Some r
      | JObj kvs \<Rightarrow> (case decode_pairs fs kvs r of (r', ok) \<Rightarrow> if ok then Some r' else None)
      | _ \<Rightarrow> None)"

definition unmarshal :: "'r field list \<Rightarrow> 'r \<Rightarrow> json_text \<Rightarrow> 'r result" where
  "unmarshal fs zero t =
     (case t of
        Garbage _ \<Rightarrow> Fail syntax_error
      | Doc v \<Rightarrow> (case decode_struct fs zero v of Some r \<Rightarrow> Ok r | None \<Rightarrow> Fail type_error))"

section \<open>Fields by type\<close>

fun str_field :: "(string \<Rightarrow> 'r \<Rightarrow> 'r) \<Rightarrow> json \<Rightarrow> 'r \<Rightarrow> 'r option" where
  "str_field upd JNull r = Some r"
| "str_field upd (JStr s) r = Some (upd s r)"
| "str_field upd _ r = None"

fun bool_field :: "(bool \<Rightarrow> 'r \<Rightarrow> 'r) \<Rightarrow> json \<Rightarrow> 'r \<Rightarrow> 'r option" where
  "bool_field upd JNull r = Some r"
| "bool_field upd (JBool b) r = Some (upd b r)"
| "bool_field upd _ r = None"

text \<open>An integer type is given by its bounds.\<close>

fun int_field :: "int \<Rightarrow> int \<Rightarrow> (int \<Rightarrow> 'r \<Rightarrow> 'r) \<Rightarrow> json \<Rightarrow> 'r \<Rightarrow> 'r option" where
  "int_field lo hi upd JNull r = Some r"
| "int_field lo hi upd (JInt n) r = (if lo \<le> n \<and> n \<le> hi then Some (upd n r) else None)"
| "int_field lo hi upd _ r = None"

definition uint32_field :: "(uint32 \<Rightarrow> 'r \<Rightarrow> 'r) \<Rightarrow> json \<Rightarrow> 'r \<Rightarrow> 'r option" where
  "uint32_field upd = int_field 0 (2 ^ 32 - 1) (\<lambda>n. upd (word_of_int n))"

definition uint64_field :: "(uint64 \<Rightarrow> 'r \<Rightarrow> 'r) \<Rightarrow> json \<Rightarrow> 'r \<Rightarrow> 'r option" where
  "uint64_field upd = int_field 0 (2 ^ 64 - 1) (\<lambda>n. upd (word_of_int n))"

definition int64_field :: "(int64 \<Rightarrow> 'r \<Rightarrow> 'r) \<Rightarrow> json \<Rightarrow> 'r \<Rightarrow> 'r option" where
  "int64_field upd = int_field (- (2 ^ 63)) (2 ^ 63 - 1) (\<lambda>n. upd (word_of_int n))"

text \<open>A \<open>float64\<close> field keeps the literal: the program only passes such values on.\<close>

datatype number = IntLit int | DecLit string

fun float_field :: "(number \<Rightarrow> 'r \<Rightarrow> 'r) \<Rightarrow> json \<Rightarrow> 'r \<Rightarrow> 'r option" where
  "float_field upd JNull r = Some r"
| "float_field upd (JInt n) r = Some (upd (IntLit n) r)"
| "float_field upd (JDec d) r = Some (upd (DecLit d) r)"
| "float_field upd _ r = None"

definition json_of_number :: "number \<Rightarrow> json" where
  "json_of_number x = (case x of IntLit n \<Rightarrow> JInt n | DecLit d \<Rightarrow> JDec d)"

fun those_list :: "('a \<Rightarrow> 'b option) \<Rightarrow> 'a list \<Rightarrow> 'b list option" where
  "those_list f [] = Some []"
| "those_list f (x # xs) =
     (case f x of None \<Rightarrow> None | Some y \<Rightarrow> map_option ((#) y) (those_list f xs))"

text \<open>A slice of values decoded one by one from the zero value; \<open>null\<close> makes it nil (\<open>None\<close>).\<close>

fun slice_field ::
  "(json \<Rightarrow> 'e option) \<Rightarrow> ('e list option \<Rightarrow> 'r \<Rightarrow> 'r) \<Rightarrow> json \<Rightarrow> 'r \<Rightarrow> 'r option" where
  "slice_field dec upd JNull r = Some (upd None r)"
| "slice_field dec upd (JArr vs) r = map_option (\<lambda>es. upd (Some es) r) (those_list dec vs)"
| "slice_field dec upd _ r = None"

definition json_of_slice :: "('e \<Rightarrow> json) \<Rightarrow> 'e list option \<Rightarrow> json" where
  "json_of_slice enc x = (case x of None \<Rightarrow> JNull | Some es \<Rightarrow> JArr (map enc es))"

fun decode_string :: "json \<Rightarrow> string option" where
  "decode_string JNull = Some []"
| "decode_string (JStr s) = Some s"
| "decode_string _ = None"

text \<open>A nested struct is decoded into the value the field already has.\<close>

definition struct_field ::
  "'s field list \<Rightarrow> ('r \<Rightarrow> 's) \<Rightarrow> ('s \<Rightarrow> 'r \<Rightarrow> 'r) \<Rightarrow> json \<Rightarrow> 'r \<Rightarrow> 'r option" where
  "struct_field fs get put v r = map_option (\<lambda>s. put s r) (decode_struct fs (get r) v)"

text \<open>A pointer: \<open>null\<close> makes it nil, an object is decoded into the present or a zero value.\<close>

definition pointer_field ::
  "'s field list \<Rightarrow> 's \<Rightarrow> ('r \<Rightarrow> 's option) \<Rightarrow> ('s option \<Rightarrow> 'r \<Rightarrow> 'r) \<Rightarrow> json \<Rightarrow> 'r \<Rightarrow> 'r option" where
  "pointer_field fs zero get put v r =
     (if v = JNull then Some (put None r)
      else map_option (\<lambda>s. put (Some s) r)
        (decode_struct fs (case get r of None \<Rightarrow> zero | Some s \<Rightarrow> s) v))"

text \<open>A field of interface type \<open>error\<close> takes nothing but \<open>null\<close>.\<close>

definition interface_field :: "json \<Rightarrow> 'r \<Rightarrow> 'r option" where
  "interface_field v r = (if v = JNull then Some r else None)"

section \<open>Facts\<close>

lemma int_field_JInt [go_simps]:
  "lo \<le> n \<Longrightarrow> n \<le> hi \<Longrightarrow> int_field lo hi upd (JInt n) r = Some (upd n r)"
  by simp

lemma uint32_field_JInt [go_simps]: "uint32_field upd (JInt (uint w)) r = Some (upd w r)"
  using unsigned_less [of w, where ?'a = int] by (simp add: uint32_field_def)

lemma uint64_field_JInt [go_simps]: "uint64_field upd (JInt (uint w)) r = Some (upd w r)"
  using unsigned_less [of w, where ?'a = int] by (simp add: uint64_field_def)

lemma int64_field_JInt [go_simps]: "int64_field upd (JInt (sint w)) r = Some (upd w r)"
  using sint_range_size [of w] by (simp add: int64_field_def word_size)

lemma find_field_exact [go_simps]: "map_of fs key = Some store \<Longrightarrow> find_field fs key = Some store"
  by (simp add: find_field_def)

lemma those_list_Some: "those_list (\<lambda>x. Some (f x)) xs = Some (map f xs)"
  by (induction xs) auto

lemma those_list_map: "those_list f (map g xs) = those_list (f \<circ> g) xs"
  by (induction xs) (auto split: option.split)

lemma decode_strings [go_simps]: "those_list decode_string (map JStr ss) = Some ss"
  using those_list_Some [of "\<lambda>x. x" ss] by (simp add: those_list_map comp_def)

lemma unmarshal_not_Panic: "unmarshal fs z t \<noteq> Panic"
  by (simp add: unmarshal_def split: json_text.split option.split)

end
