(* ===== verification/Clients.thy ===== *)
theory Clients
  imports Json ResourceManager
begin

text \<open>
  The HTTP clients (\<open>client/vm.go\<close>, \<open>client/cms.go\<close>, \<open>client/guacamole.go\<close>) and the
  messages of \<open>client/model\<close>: which request each call sends, and what it makes of the answer.
  The answer is an argument: a request that cannot be built, a transport error, or a response
  with its status, its raw body and the JSON document the body holds.
\<close>

section \<open>Requests and answers\<close>

record http_response =
  h_status :: int
  h_status_text :: string
  h_raw :: string
  h_body :: json_text

datatype http_outcome = NotBuilt error | NotSent error | Answered http_response

datatype request_body = NoBody | JsonBody json | FormBody "(string \<times> string) list"

record http_request =
  q_method :: string
  q_url :: string
  q_body :: request_body

section \<open>The Core client\<close>

definition core_base_url :: "core \<Rightarrow> string" where
  "core_base_url c = ''http://'' @ core_IP c @ '':'' @ nat_digits (unat (core_Port c))"

definition core_request :: "core \<Rightarrow> string \<Rightarrow> string \<Rightarrow> json \<Rightarrow> http_request" where
  "core_request c method path body =
     \<lparr>q_method = method, q_url = core_base_url c @ path, q_body = JsonBody body\<rparr>"

definition do_request :: "'r field list \<Rightarrow> 'r \<Rightarrow> http_outcome \<Rightarrow> 'r result" where
  "do_request fs zero answer =
     (case answer of
        NotBuilt e \<Rightarrow> Fail (wrap ''failed to create request'' e)
      | NotSent e \<Rightarrow> Fail (wrap ''failed to send request'' e)
      | Answered resp \<Rightarrow>
          if h_status resp < 200 \<or> 300 \<le> h_status resp
          then Fail (''unexpected status code: '' @ itoa (h_status resp) @ '', body: '' @ h_raw resp)
          else (case unmarshal fs zero (h_body resp) of
                  Fail e \<Rightarrow> Fail (wrap ''failed to decode response body'' e)
                | r \<Rightarrow> r))"

subsection \<open>Creating a VM\<close>

record hardware_info =
  hw_CPU :: uint32
  hw_Memory :: uint32
  hw_Disk :: uint32

record user_info_vm =
  u_Name :: string
  u_Groups :: string
  u_Password :: string
  u_SSH :: "string list option"

record create_vm_request =
  cr_DomType :: string
  cr_DomName :: string
  cr_UUID :: uuid
  cr_OS :: string
  cr_HW :: hardware_info
  cr_Ips :: "string list option"
  cr_NetType :: uint64
  cr_Users :: "user_info_vm list option"
  cr_SdnUUID :: string
  cr_MacAddr :: string
  cr_Subnettype :: string
  cr_PresignedImageURL :: string

definition json_of_user :: "user_info_vm \<Rightarrow> json" where
  "json_of_user u = JObj [(''name'', JStr (u_Name u)), (''groups'', JStr (u_Groups u)),
     (''passWord'', JStr (u_Password u)), (''ssh'', json_of_slice JStr (u_SSH u))]"

definition json_of_create_vm :: "create_vm_request \<Rightarrow> json" where
  "json_of_create_vm r = JObj (
     [(''domType'', JStr (cr_DomType r)), (''domName'', JStr (cr_DomName r)),
      (''uuid'', JStr (cr_UUID r)), (''os'', JStr (cr_OS r)),
      (''HWInfo'', JObj [(''cpu'', JInt (uint (hw_CPU (cr_HW r)))),
         (''memory'', JInt (uint (hw_Memory (cr_HW r)))), (''disk'', JInt (uint (hw_Disk (cr_HW r))))]),
      (''network'', JObj [(''ips'', json_of_slice JStr (cr_Ips r)), (''NetType'', JInt (uint (cr_NetType r)))]),
      (''users'', json_of_slice json_of_user (cr_Users r)), (''sdnUUID'', JStr (cr_SdnUUID r)),
      (''macAddr'', JStr (cr_MacAddr r)), (''Subnettype'', JStr (cr_Subnettype r))] @
     (if cr_PresignedImageURL r = [] then [] else [(''presignedImageUrl'', JStr (cr_PresignedImageURL r))]))"

record create_vm_response =
  cs_State :: string
  cs_MaxMem :: uint64
  cs_Memory :: uint64
  cs_NrVirtCpu :: uint64
  cs_CpuTime :: uint64

definition zero_create_vm_response :: create_vm_response where
  "zero_create_vm_response = \<lparr>cs_State = [], cs_MaxMem = 0, cs_Memory = 0, cs_NrVirtCpu = 0, cs_CpuTime = 0\<rparr>"

definition create_vm_response_fields :: "create_vm_response field list" where
  "create_vm_response_fields =
     [(''state'', str_field (\<lambda>s r. r\<lparr>cs_State := s\<rparr>)),
      (''maxmem'', uint64_field (\<lambda>w r. r\<lparr>cs_MaxMem := w\<rparr>)),
      (''memory'', uint64_field (\<lambda>w r. r\<lparr>cs_Memory := w\<rparr>)),
      (''nrVirtCpu'', uint64_field (\<lambda>w r. r\<lparr>cs_NrVirtCpu := w\<rparr>)),
      (''cpuTime'', uint64_field (\<lambda>w r. r\<lparr>cs_CpuTime := w\<rparr>))]"

definition core_create_vm :: "core \<Rightarrow> create_vm_request \<Rightarrow> http_outcome \<Rightarrow> http_request \<times> create_vm_response result" where
  "core_create_vm c req answer =
     (core_request c ''POST'' ''/createVM'' (json_of_create_vm req),
      do_request create_vm_response_fields zero_create_vm_response answer)"

subsection \<open>Deleting, starting and stopping a VM\<close>

text \<open>\<open>HardDelete\<close> is 0 and \<open>SoftDelete\<close> is 1; the response struct has no fields.\<close>

datatype domain_delete_type = HardDelete | SoftDelete

definition delete_type_code :: "domain_delete_type \<Rightarrow> int" where
  "delete_type_code t = (case t of HardDelete \<Rightarrow> 0 | SoftDelete \<Rightarrow> 1)"

definition json_of_delete_request :: "uuid \<Rightarrow> domain_delete_type \<Rightarrow> json" where
  [simp]: "json_of_delete_request u t = JObj [(''UUID'', JStr u), (''DeleteType'', JInt (delete_type_code t))]"

definition json_of_start_request :: "uuid \<Rightarrow> json" where
  [simp]: "json_of_start_request u = JObj [(''UUID'', JStr u)]"

definition json_of_shutdown_request :: "uuid \<Rightarrow> json" where
  [simp]: "json_of_shutdown_request u = JObj [(''UUID'', JStr u)]"

definition core_delete_vm :: "core \<Rightarrow> uuid \<Rightarrow> domain_delete_type \<Rightarrow> http_outcome \<Rightarrow> http_request \<times> unit result" where
  "core_delete_vm c u t answer =
     (core_request c ''POST'' ''/DeleteVM'' (json_of_delete_request u t),
      do_request [] () answer)"

definition message_fields :: "string field list" where
  "message_fields = [(''message'', str_field (\<lambda>s _. s))]"

definition core_start_vm :: "core \<Rightarrow> uuid \<Rightarrow> http_outcome \<Rightarrow> http_request \<times> string result" where
  "core_start_vm c u answer =
     (core_request c ''POST'' ''/BOOTVM'' (json_of_start_request u), do_request message_fields [] answer)"

definition core_force_shutdown_vm :: "core \<Rightarrow> uuid \<Rightarrow> http_outcome \<Rightarrow> http_request \<times> string result" where
  "core_force_shutdown_vm c u answer =
     (core_request c ''POST'' ''/forceShutDownUUID'' (json_of_shutdown_request u),
      do_request message_fields [] answer)"

subsection \<open>Status queries\<close>

datatype status_data_type = CpuInfo | MemInfo | DiskInfoHi | SystemInfoHi

definition data_type_code :: "status_data_type \<Rightarrow> int" where
  "data_type_code t = (case t of CpuInfo \<Rightarrow> 0 | MemInfo \<Rightarrow> 1 | DiskInfoHi \<Rightarrow> 2 | SystemInfoHi \<Rightarrow> 3)"

record cpu_info =
  cpu_System :: number
  cpu_Idle :: number
  cpu_Usage :: number

record memory_info =
  mem_Total :: uint64
  mem_Used :: uint64
  mem_Available :: uint64
  mem_UsedPercent :: number

record disk_info =
  disk_Total :: uint64
  disk_Used :: uint64
  disk_Free :: uint64
  disk_UsedPercent :: number

definition zero_cpu_info :: cpu_info where
  "zero_cpu_info = \<lparr>cpu_System = IntLit 0, cpu_Idle = IntLit 0, cpu_Usage = IntLit 0\<rparr>"

definition zero_memory_info :: memory_info where
  "zero_memory_info = \<lparr>mem_Total = 0, mem_Used = 0, mem_Available = 0, mem_UsedPercent = IntLit 0\<rparr>"

definition zero_disk_info :: disk_info where
  "zero_disk_info = \<lparr>disk_Total = 0, disk_Used = 0, disk_Free = 0, disk_UsedPercent = IntLit 0\<rparr>"

definition cpu_info_fields :: "cpu_info field list" where
  "cpu_info_fields =
     [(''system_time'', float_field (\<lambda>x r. r\<lparr>cpu_System := x\<rparr>)),
      (''idle_time'', float_field (\<lambda>x r. r\<lparr>cpu_Idle := x\<rparr>)),
      (''usage_percent'', float_field (\<lambda>x r. r\<lparr>cpu_Usage := x\<rparr>))]"

definition memory_info_fields :: "memory_info field list" where
  "memory_info_fields =
     [(''total_gb'', uint64_field (\<lambda>w r. r\<lparr>mem_Total := w\<rparr>)),
      (''used_gb'', uint64_field (\<lambda>w r. r\<lparr>mem_Used := w\<rparr>)),
      (''available_gb'', uint64_field (\<lambda>w r. r\<lparr>mem_Available := w\<rparr>)),
      (''used_percent'', float_field (\<lambda>x r. r\<lparr>mem_UsedPercent := x\<rparr>))]"

definition disk_info_fields :: "disk_info field list" where
  "disk_info_fields =
     [(''total_gb'', uint64_field (\<lambda>w r. r\<lparr>disk_Total := w\<rparr>)),
      (''used_gb'', uint64_field (\<lambda>w r. r\<lparr>disk_Used := w\<rparr>)),
      (''free_gb'', uint64_field (\<lambda>w r. r\<lparr>disk_Free := w\<rparr>)),
      (''used_percent'', float_field (\<lambda>x r. r\<lparr>disk_UsedPercent := x\<rparr>))]"

text \<open>The answer about a host is wrapped; the generic struct is \<open>CoreResponse[T]\<close>.\<close>

record 'a core_response =
  Information :: "'a option"
  Message :: string
  ErrorType :: string

definition error_descriptor_fields :: "string field list" where
  "error_descriptor_fields = [(''error type'', str_field (\<lambda>s _. s)), (''detail'', interface_field)]"

definition core_response_fields :: "'a field list \<Rightarrow> 'a \<Rightarrow> 'a core_response field list" where
  "core_response_fields fs zero =
     [(''information'', pointer_field fs zero Information (\<lambda>x r. r\<lparr>Information := x\<rparr>)),
      (''message'', str_field (\<lambda>s r. r\<lparr>Message := s\<rparr>)),
      (''errors'', struct_field error_descriptor_fields ErrorType (\<lambda>s r. r\<lparr>ErrorType := s\<rparr>))]"

definition json_of_machine_status :: "status_data_type \<Rightarrow> json" where
  [simp]: "json_of_machine_status t = JObj [(''host_dataType'', JInt (data_type_code t))]"

definition host_request :: "core \<Rightarrow> status_data_type \<Rightarrow> http_request" where
  "host_request c t =
     core_request c ''GET'' ''/getStatusHost'' (json_of_machine_status t)"

definition host_info :: "'a field list \<Rightarrow> 'a \<Rightarrow> http_outcome \<Rightarrow> 'a option result" where
  "host_info fs zero answer =
     (case do_request (core_response_fields fs zero)
             \<lparr>Information = None, Message = [], ErrorType = []\<rparr> answer of
        Fail e \<Rightarrow> Fail e | Panic \<Rightarrow> Panic
      | Ok r \<Rightarrow> Ok (Information r))"

definition get_core_machine_cpu_info :: "core \<Rightarrow> http_outcome \<Rightarrow> http_request \<times> cpu_info option result" where
  "get_core_machine_cpu_info c answer =
     (host_request c CpuInfo, host_info cpu_info_fields zero_cpu_info answer)"

definition get_core_machine_disk_info :: "core \<Rightarrow> http_outcome \<Rightarrow> http_request \<times> disk_info option result" where
  "get_core_machine_disk_info c answer =
     (host_request c DiskInfoHi, host_info disk_info_fields zero_disk_info answer)"

definition get_core_machine_memory_info ::
  "core \<Rightarrow> http_outcome \<Rightarrow> http_request \<times> memory_info option result" where
  "get_core_machine_memory_info c answer =
     (host_request c MemInfo, host_info memory_info_fields zero_memory_info answer)"

text \<open>The answer about a VM is decoded without the wrapper.\<close>

definition json_of_status_request :: "uuid \<Rightarrow> status_data_type \<Rightarrow> json" where
  [simp]: "json_of_status_request u t = JObj [(''UUID'', JStr u), (''dataType'', JInt (data_type_code t))]"

definition vm_request :: "core \<Rightarrow> uuid \<Rightarrow> status_data_type \<Rightarrow> http_request" where
  "vm_request c u t =
     core_request c ''GET'' ''/getStatusUUID'' (json_of_status_request u t)"

definition core_vm_cpu_info :: "core \<Rightarrow> uuid \<Rightarrow> http_outcome \<Rightarrow> http_request \<times> cpu_info result" where
  "core_vm_cpu_info c u answer = (vm_request c u CpuInfo, do_request cpu_info_fields zero_cpu_info answer)"

definition core_vm_disk_info :: "core \<Rightarrow> uuid \<Rightarrow> http_outcome \<Rightarrow> http_request \<times> disk_info result" where
  "core_vm_disk_info c u answer = (vm_request c u DiskInfoHi, do_request disk_info_fields zero_disk_info answer)"

definition core_vm_memory_info :: "core \<Rightarrow> uuid \<Rightarrow> http_outcome \<Rightarrow> http_request \<times> memory_info result" where
  "core_vm_memory_info c u answer =
     (vm_request c u MemInfo, do_request memory_info_fields zero_memory_info answer)"

section \<open>The CMS client\<close>

record cms_new_instance_response =
  cms_IP :: string
  cms_MacAddr :: string
  cms_SdnUUID :: string

definition cms_response_fields :: "cms_new_instance_response field list" where
  "cms_response_fields =
     [(''IP'', str_field (\<lambda>s r. r\<lparr>cms_IP := s\<rparr>)),
      (''macAddr'', str_field (\<lambda>s r. r\<lparr>cms_MacAddr := s\<rparr>)),
      (''sdnUUID'', str_field (\<lambda>s r. r\<lparr>cms_SdnUUID := s\<rparr>))]"

definition zero_cms_response :: cms_new_instance_response where
  "zero_cms_response = \<lparr>cms_IP = [], cms_MacAddr = [], cms_SdnUUID = []\<rparr>"

definition cms_host :: "string \<Rightarrow> string" where
  "cms_host env = (if env = [] then ''localhost:8080'' else env)"

definition cms_request :: "string \<Rightarrow> string \<Rightarrow> json \<Rightarrow> http_request" where
  "cms_request host method body =
     \<lparr>q_method = method, q_url = ''http://'' @ host @ ''/New/Instance'', q_body = JsonBody body\<rparr>"

definition json_of_subnet :: "string \<Rightarrow> json" where
  [simp]: "json_of_subnet subnet = JObj [(''Subnet'', JStr subnet)]"

definition json_of_instance :: "string \<Rightarrow> json" where
  [simp]: "json_of_instance ip = JObj [(''IP'', JStr ip)]"

definition cms_delete_fields :: "string field list" where
  [simp]: "cms_delete_fields = [(''detail'', str_field (\<lambda>s _. s))]"

text \<open>Both calls accept status 200 only.\<close>

definition cms_answer :: "string \<Rightarrow> 'r field list \<Rightarrow> 'r \<Rightarrow> http_outcome \<Rightarrow> 'r result" where
  "cms_answer who fs zero answer =
     (case answer of
        NotBuilt e \<Rightarrow> Fail (who @ wrap '': failed to create HTTP request'' e)
      | NotSent e \<Rightarrow> Fail (who @ wrap '': failed to send request'' e)
      | Answered resp \<Rightarrow>
          if h_status resp \<noteq> 200
          then Fail (who @ wrap '': CMS server returned non-OK status'' (h_status_text resp))
          else (case unmarshal fs zero (h_body resp) of
                  Fail e \<Rightarrow> Fail (who @ wrap '': failed to decode response'' e)
                | r \<Rightarrow> r))"

definition request_new_instance ::
  "string \<Rightarrow> string \<Rightarrow> http_outcome \<Rightarrow> http_request \<times> cms_new_instance_response result" where
  "request_new_instance host subnet answer =
     (cms_request host ''POST'' (json_of_subnet subnet),
      cms_answer ''CmsClient.RequestNewInstance'' cms_response_fields zero_cms_response answer)"

definition request_delete_instance :: "string \<Rightarrow> string \<Rightarrow> http_outcome \<Rightarrow> http_request \<times> string result" where
  "request_delete_instance host ip answer =
     (cms_request host ''DELETE'' (json_of_instance ip),
      cms_answer ''CmsClient.RequestDeleteInstance'' cms_delete_fields [] answer)"

section \<open>The Guacamole client\<close>

record authenticate_response =
  ar_AuthToken :: string
  ar_Username :: string
  ar_DataSource :: string
  ar_Available :: "string list option"

definition authenticate_response_fields :: "authenticate_response field list" where
  "authenticate_response_fields =
     [(''authToken'', str_field (\<lambda>s r. r\<lparr>ar_AuthToken := s\<rparr>)),
      (''username'', str_field (\<lambda>s r. r\<lparr>ar_Username := s\<rparr>)),
      (''dataSource'', str_field (\<lambda>s r. r\<lparr>ar_DataSource := s\<rparr>)),
      (''availableDataSources'', slice_field decode_string (\<lambda>x r. r\<lparr>ar_Available := x\<rparr>))]"

definition zero_authenticate_response :: authenticate_response where
  "zero_authenticate_response =
     \<lparr>ar_AuthToken = [], ar_Username = [], ar_DataSource = [], ar_Available = None\<rparr>"

text \<open>The result is the token that \<open>AuthToken\<close> returns afterwards.\<close>

definition authenticate ::
  "string \<Rightarrow> string \<Rightarrow> string \<Rightarrow> http_outcome \<Rightarrow> http_request \<times> string result" where
  "authenticate base username password answer =
     (\<lparr>q_method = ''POST'', q_url = base @ ''/api/tokens'',
       q_body = FormBody [(''password'', password), (''username'', username)]\<rparr>,
      (case answer of
         NotBuilt e \<Rightarrow> Fail (wrap ''failed to create auth request'' e)
       | NotSent e \<Rightarrow> Fail (''failed to send auth request to '' @ wrap base e)
       | Answered resp \<Rightarrow>
           if h_status resp \<noteq> 200
           then Fail (''authentication failed with status code: '' @ itoa (h_status resp) @
                      '', body: '' @ h_raw resp)
           else (case unmarshal authenticate_response_fields zero_authenticate_response (h_body resp) of
                   Fail e \<Rightarrow> Fail (wrap ''failed to decode auth response'' e)
                 | Panic \<Rightarrow> Panic
                 | Ok r \<Rightarrow> Ok (ar_AuthToken r))))"

end
