(* ===== verification/RedisStore.thy ===== *)
theory RedisStore
  imports Json ResourceManager Repository
begin

text \<open>
  \<open>service/redis.go\<close>, the status check of \<open>api/update_redis.go\<close> and the connection test of
  \<open>startup/redis.go\<close>: the per-VM status
  documents in Redis, stored under the uuid. The state is the map of keys to texts; the
  environment record injects the client's errors, and a write may take effect although its
  reply is lost (\<open>CommitLost\<close>). The locale \<open>kv_store\<close> is what the service relies on.
\<close>

section \<open>The stored document\<close>

record redis_vm_info =
  r_uuid :: uuid
  r_cpu :: uint32
  r_memory :: uint32
  r_disk :: uint32
  r_ip :: string
  r_status :: string
  r_time :: int64

definition zero_redis_vm_info :: redis_vm_info where
  "zero_redis_vm_info =
     \<lparr>r_uuid = [], r_cpu = 0, r_memory = 0, r_disk = 0, r_ip = [], r_status = [], r_time = 0\<rparr>"

definition redis_vm_info_fields :: "redis_vm_info field list" where
  "redis_vm_info_fields =
     [(''uuid'', str_field (\<lambda>s r. r\<lparr>r_uuid := s\<rparr>)),
      (''cpu'', uint32_field (\<lambda>w r. r\<lparr>r_cpu := w\<rparr>)),
      (''memory'', uint32_field (\<lambda>w r. r\<lparr>r_memory := w\<rparr>)),
      (''disk'', uint32_field (\<lambda>w r. r\<lparr>r_disk := w\<rparr>)),
      (''ip'', str_field (\<lambda>s r. r\<lparr>r_ip := s\<rparr>)),
      (''status'', str_field (\<lambda>s r. r\<lparr>r_status := s\<rparr>)),
      (''time'', int64_field (\<lambda>w r. r\<lparr>r_time := w\<rparr>))]"

definition marshal_redis_vm_info :: "redis_vm_info \<Rightarrow> json_text" where
  "marshal_redis_vm_info r =
     Doc (JObj [(''uuid'', JStr (r_uuid r)), (''cpu'', JInt (uint (r_cpu r))),
       (''memory'', JInt (uint (r_memory r))), (''disk'', JInt (uint (r_disk r))),
       (''ip'', JStr (r_ip r)), (''status'', JStr (r_status r)), (''time'', JInt (sint (r_time r)))])"

text \<open>The service DTO.\<close>

record vm_status_info =
  s_UUID :: uuid
  s_CPU :: uint32
  s_Memory :: uint32
  s_Disk :: uint32
  s_IP :: string
  s_Status :: string

definition to_service_dto :: "redis_vm_info \<Rightarrow> vm_status_info" where
  "to_service_dto r = \<lparr>s_UUID = r_uuid r, s_CPU = r_cpu r, s_Memory = r_memory r,
     s_Disk = r_disk r, s_IP = r_ip r, s_Status = r_status r\<rparr>"

definition stored_form :: "vm_status_info \<Rightarrow> int64 \<Rightarrow> redis_vm_info" where
  "stored_form i t = \<lparr>r_uuid = s_UUID i, r_cpu = s_CPU i, r_memory = s_Memory i,
     r_disk = s_Disk i, r_ip = s_IP i, r_status = s_Status i, r_time = t\<rparr>"

section \<open>Statuses\<close>

definition VMStatusPrepareBegin :: string where "VMStatusPrepareBegin = ''prepare begin''"
definition VMStatusStartBegin :: string where "VMStatusStartBegin = ''start begin''"
definition VMStatusStarted :: string where "VMStatusStarted = ''started begin''"
definition VMStatusStopped :: string where "VMStatusStopped = ''stopped end''"
definition VMStatusRelease :: string where "VMStatusRelease = ''release end''"
definition VMStatusMigrate :: string where "VMStatusMigrate = ''migrate begin''"
definition VMStatusRestore :: string where "VMStatusRestore = ''restort begin''"
definition VMStatusUnknown :: string where "VMStatusUnknown = ''unknown''"

definition known_statuses :: "string list" where
  "known_statuses = [VMStatusPrepareBegin, VMStatusStartBegin, VMStatusStarted, VMStatusStopped,
     VMStatusRelease, VMStatusMigrate, VMStatusRestore, VMStatusUnknown]"

definition validate_and_normalize_status :: "string \<Rightarrow> string" where
  "validate_and_normalize_status status =
     (if status = [] \<or> status = ''null'' then VMStatusUnknown
      else if status \<in> set known_statuses then status
      else VMStatusUnknown)"

section \<open>The operations\<close>

type_synonym redis_db = "string \<rightharpoonup> json_text"

record redis_env =
  re_get :: "error option"
  re_set :: commit_result
  re_del :: commit_result

definition redis_ok :: redis_env where
  "redis_ok = \<lparr>re_get = None, re_set = Committed, re_del = Committed\<rparr>"

definition redis_set :: "redis_env \<Rightarrow> string \<Rightarrow> json_text \<Rightarrow> redis_db \<Rightarrow> unit result \<times> redis_db" where
  "redis_set e key v db = commit_tx (re_set e) db (db(key \<mapsto> v))"

definition store_vm_info ::
  "redis_env \<Rightarrow> vm_status_info \<Rightarrow> int64 \<Rightarrow> redis_db \<Rightarrow> unit result \<times> redis_db" where
  "store_vm_info e i t db =
     wrapped ''failed to store vm in redis''
       (redis_set e (s_UUID i) (marshal_redis_vm_info (stored_form i t)) db)"

definition remove_vm_info :: "redis_env \<Rightarrow> uuid \<Rightarrow> redis_db \<Rightarrow> unit result \<times> redis_db" where
  "remove_vm_info e u db =
     wrapped ''failed to delete vm from redis'' (commit_tx (re_del e) db (db(u := None)))"

definition load_vm_info :: "redis_env \<Rightarrow> uuid \<Rightarrow> redis_db \<Rightarrow> redis_vm_info result" where
  "load_vm_info e key db =
     (case re_get e of
        Some err \<Rightarrow> Fail (wrap ''failed to get vm from redis'' err)
      | None \<Rightarrow>
          (case db key of
             None \<Rightarrow> Fail (wrap ''vm info not found in redis'' key)
           | Some t \<Rightarrow>
               (case unmarshal redis_vm_info_fields zero_redis_vm_info t of
                  Fail err \<Rightarrow> Fail (wrap ''failed to unmarshal vm from redis'' err)
                | r \<Rightarrow> r)))"

definition get_vm_info :: "redis_env \<Rightarrow> uuid \<Rightarrow> redis_db \<Rightarrow> vm_status_info result" where
  "get_vm_info e u db =
     (case load_vm_info e u db of Ok r \<Rightarrow> Ok (to_service_dto r) | Fail err \<Rightarrow> Fail err | Panic \<Rightarrow> Panic)"

definition update_vm_status ::
  "redis_env \<Rightarrow> uuid \<Rightarrow> string \<Rightarrow> int64 \<Rightarrow> redis_db \<Rightarrow> unit result \<times> redis_db" where
  "update_vm_status e u status t db =
     and_then (wrapped ''failed to get existing vm info from redis'' (load_vm_info e u db, db)) (\<lambda>r db.
       wrapped ''failed to update vm status in redis''
         (redis_set e u (marshal_redis_vm_info (r\<lparr>r_status := status, r_time := t\<rparr>)) db))"

text \<open>\<open>startup/redis.go\<close>: the connection is tested by writing and reading back a key of its own,
  whose value is no JSON document.\<close>

definition redis_host :: "string \<Rightarrow> string" where
  "redis_host env = (if env = [] then ''localhost:6379'' else env)"

definition test_key :: string where "test_key = ''hello''"

definition test_value :: json_text where "test_value = Garbage ''world''"

definition redis_test_error :: "error \<Rightarrow> string \<Rightarrow> error" where
  "redis_test_error err host = ''failed to set test key in Redis: '' @ err @ '' '' @ host @ '' ''"

definition initialize_redis :: "string \<Rightarrow> redis_env \<Rightarrow> redis_db \<Rightarrow> unit result \<times> redis_db" where
  "initialize_redis env e db =
     (case redis_set e test_key test_value db of
        (Fail err, db1) \<Rightarrow> (Fail (redis_test_error err (redis_host env)), db1)
      | (Panic, db1) \<Rightarrow> (Panic, db1)
      | (Ok _, db1) \<Rightarrow>
          (case re_get e of
             Some err \<Rightarrow> (Fail (redis_test_error err (redis_host env)), db1)
           | None \<Rightarrow> (Ok (), db1)))"

section \<open>Encoding and decoding\<close>

lemma redis_vm_info_lookup [go_simps]:
  "find_field redis_vm_info_fields ''uuid'' = Some (str_field (\<lambda>s r. r\<lparr>r_uuid := s\<rparr>))"
  "find_field redis_vm_info_fields ''cpu'' = Some (uint32_field (\<lambda>w r. r\<lparr>r_cpu := w\<rparr>))"
  "find_field redis_vm_info_fields ''memory'' = Some (uint32_field (\<lambda>w r. r\<lparr>r_memory := w\<rparr>))"
  "find_field redis_vm_info_fields ''disk'' = Some (uint32_field (\<lambda>w r. r\<lparr>r_disk := w\<rparr>))"
  "find_field redis_vm_info_fields ''ip'' = Some (str_field (\<lambda>s r. r\<lparr>r_ip := s\<rparr>))"
  "find_field redis_vm_info_fields ''status'' = Some (str_field (\<lambda>s r. r\<lparr>r_status := s\<rparr>))"
  "find_field redis_vm_info_fields ''time'' = Some (int64_field (\<lambda>w r. r\<lparr>r_time := w\<rparr>))"
  by (simp_all add: find_field_def redis_vm_info_fields_def)

lemma unmarshal_marshal [simp]:
  "unmarshal redis_vm_info_fields zero_redis_vm_info (marshal_redis_vm_info r) = Ok r"
  by (simp add: unmarshal_def marshal_redis_vm_info_def decode_struct_def go_simps
      zero_redis_vm_info_def)

lemma to_service_dto_stored [simp]: "to_service_dto (stored_form i t) = i"
  by (simp add: to_service_dto_def stored_form_def)

lemma to_service_dto_update [simp]:
  "to_service_dto (r\<lparr>r_status := s, r_time := t\<rparr>) = (to_service_dto r)\<lparr>s_Status := s\<rparr>"
  by (simp add: to_service_dto_def)

lemma load_after_set [simp]:
  "re_get e = None \<Longrightarrow> db u = Some (marshal_redis_vm_info r) \<Longrightarrow> load_vm_info e u db = Ok r"
  by (simp add: load_vm_info_def)

lemma commit_tx_Ok_iff: "commit_tx c old new = (Ok x, db) \<longleftrightarrow> c = Committed \<and> db = new"
  by (cases c) auto

section \<open>The store as a key-value map\<close>

locale kv_store =
  fixes put :: "'k \<Rightarrow> 'v \<Rightarrow> 's \<Rightarrow> 's"
    and lookup :: "'k \<Rightarrow> 's \<Rightarrow> 'v option"
    and drop :: "'k \<Rightarrow> 's \<Rightarrow> 's"
  assumes lookup_put: "lookup k (put k v s) = Some v"
    and lookup_put_other: "j \<noteq> k \<Longrightarrow> lookup j (put k v s) = lookup j s"
    and lookup_drop: "lookup k (drop k s) = None"
    and lookup_drop_other: "j \<noteq> k \<Longrightarrow> lookup j (drop k s) = lookup j s"
begin

lemma write_decides:
  "lookup j ((case w of Some v \<Rightarrow> put k v | None \<Rightarrow> drop k) s) = (if j = k then w else lookup j s)"
  using lookup_put lookup_put_other lookup_drop lookup_drop_other by (cases w) auto

text \<open>The last write to a key decides what is read there.\<close>

lemma last_write_wins:
  "lookup j (fold (\<lambda>(k, w). case w of Some v \<Rightarrow> put k v | None \<Rightarrow> drop k) ws s) =
     (case map_of (rev ws) j of Some w \<Rightarrow> w | None \<Rightarrow> lookup j s)"
proof (induction ws rule: rev_induct)
  case (snoc x ws)
  obtain k w where x: "x = (k, w)" by (cases x)
  from snoc show ?case
    by (simp add: x write_decides)
qed simp

text \<open>Reading, changing and writing back touches that key only.\<close>

lemma read_modify_write:
  "lookup k s = Some v \<Longrightarrow> lookup j (put k (f v) s) = (if j = k then Some (f v) else lookup j s)"
  using lookup_put lookup_put_other by auto

end

definition redis_put :: "uuid \<Rightarrow> redis_vm_info \<Rightarrow> redis_db \<Rightarrow> redis_db" where
  "redis_put u r db = snd (redis_set redis_ok u (marshal_redis_vm_info r) db)"

definition redis_lookup :: "uuid \<Rightarrow> redis_db \<Rightarrow> redis_vm_info option" where
  "redis_lookup u db = (case load_vm_info redis_ok u db of Ok r \<Rightarrow> Some r | _ \<Rightarrow> None)"

definition redis_drop :: "uuid \<Rightarrow> redis_db \<Rightarrow> redis_db" where
  "redis_drop u db = snd (remove_vm_info redis_ok u db)"

interpretation redis: kv_store redis_put redis_lookup redis_drop
  by unfold_locales
    (simp_all add: redis_put_def redis_lookup_def redis_drop_def redis_set_def remove_vm_info_def
      load_vm_info_def redis_ok_def)

lemma load_eq_lookup: "re_get e = None \<Longrightarrow> load_vm_info e u db = load_vm_info redis_ok u db"
  by (simp add: load_vm_info_def redis_ok_def)

lemma lookup_Some_iff: "redis_lookup u db = Some r \<longleftrightarrow> load_vm_info redis_ok u db = Ok r"
  by (auto simp: redis_lookup_def split: result.splits)

text \<open>Every call changes the map by one put or drop at its key, or not at all.\<close>

lemma store_vm_info_effect:
  "snd (store_vm_info e i t db) \<in> {db, redis_put (s_UUID i) (stored_form i t) db}"
  by (cases "re_set e") (simp_all add: store_vm_info_def redis_set_def redis_put_def redis_ok_def)

lemma remove_vm_info_effect: "snd (remove_vm_info e u db) \<in> {db, redis_drop u db}"
  by (cases "re_del e") (simp_all add: remove_vm_info_def redis_drop_def redis_ok_def)

lemma update_vm_status_effect:
  "snd (update_vm_status e u status t db) \<in>
     insert db {redis_put u (r\<lparr>r_status := status, r_time := t\<rparr>) db | r. load_vm_info e u db = Ok r}"
proof (cases "load_vm_info e u db")
  case (Ok r)
  then show ?thesis
    by (cases "re_set e") (auto simp: update_vm_status_def redis_set_def redis_put_def redis_ok_def)
qed (simp_all add: update_vm_status_def)

section \<open>Histories\<close>

datatype redis_op =
    StoreOp redis_env vm_status_info int64
  | UpdateOp redis_env uuid string int64
  | RemoveOp redis_env uuid

fun redis_step :: "redis_op \<Rightarrow> redis_db \<Rightarrow> redis_db" where
  "redis_step (StoreOp e i t) db = snd (store_vm_info e i t db)"
| "redis_step (UpdateOp e u status t) db = snd (update_vm_status e u status t db)"
| "redis_step (RemoveOp e u) db = snd (remove_vm_info e u db)"

text \<open>Every document decodes and names the key it is stored under, but for the entry of the
  connection test.\<close>

definition wf_redis :: "redis_db \<Rightarrow> bool" where
  "wf_redis db \<longleftrightarrow> (\<forall>u t. db u = Some t \<longrightarrow>
     u = test_key \<and> t = test_value \<or> (\<exists>r. t = marshal_redis_vm_info r \<and> r_uuid r = u))"

lemma wf_redis_put: "wf_redis db \<Longrightarrow> r_uuid r = u \<Longrightarrow> wf_redis (redis_put u r db)"
  by (auto simp: wf_redis_def redis_put_def redis_set_def redis_ok_def)

lemma wf_redis_drop: "wf_redis db \<Longrightarrow> wf_redis (redis_drop u db)"
  by (auto simp: wf_redis_def redis_drop_def remove_vm_info_def redis_ok_def)

lemma wf_redis_load:
  assumes "wf_redis db" "load_vm_info e u db = Ok r"
  shows "r_uuid r = u"
proof -
  obtain t where t: "db u = Some t" "re_get e = None"
    using assms(2) by (auto simp: load_vm_info_def split: option.splits)
  have "t \<noteq> test_value"
    using t assms(2) by (auto simp: load_vm_info_def test_value_def unmarshal_def)
  with assms(1) t(1) obtain q where "t = marshal_redis_vm_info q" "r_uuid q = u" by (auto simp: wf_redis_def)
  with t assms(2) show ?thesis by simp
qed

lemma wf_redis_initialize: "wf_redis db \<Longrightarrow> wf_redis (snd (initialize_redis h e db))"
  by (cases "re_set e") (auto simp: initialize_redis_def redis_set_def wf_redis_def split: option.split)

lemma wf_redis_step: "wf_redis db \<Longrightarrow> wf_redis (redis_step c db)"
proof (cases c)
  case (StoreOp e i t)
  assume "wf_redis db"
  with store_vm_info_effect [of e i t db] wf_redis_put [of db "stored_form i t" "s_UUID i"] StoreOp
  show ?thesis by (auto simp: stored_form_def)
next
  case (UpdateOp e u status t)
  assume wf: "wf_redis db"
  have "wf_redis (redis_put u (r\<lparr>r_status := status, r_time := t\<rparr>) db)" if "load_vm_info e u db = Ok r" for r
    using wf wf_redis_load [OF wf that] by (simp add: wf_redis_put)
  with wf update_vm_status_effect [of e u status t db] UpdateOp show ?thesis by auto
next
  case (RemoveOp e u)
  assume "wf_redis db"
  with remove_vm_info_effect [of e u db] wf_redis_drop [of db u] RemoveOp show ?thesis by auto
qed

section \<open>Properties\<close>

interpretation documents: invariant_steps redis_step wf_redis "\<lambda>_. True"
  by unfold_locales (rule wf_redis_step)

text \<open>Starting from a fresh Redis that passed the connection test, after any history of
  store, update and remove calls with any client failures, reading a uuid either finds nothing or
  yields a document of that very uuid; the only text that fails to decode is the one the
  connection test left under its own key.\<close>

theorem redis_documents_decode:
  "let db = fold redis_step ops (snd (initialize_redis h e Map.empty))
   in (db u = None \<and> get_vm_info redis_ok u db = Fail (''vm info not found in redis: '' @ u)) \<or>
      (\<exists>i. get_vm_info redis_ok u db = Ok i \<and> s_UUID i = u) \<or>
      (u = ''hello'' \<and> db u = Some (Garbage ''world''))"
proof -
  define db where "db = fold redis_step ops (snd (initialize_redis h e Map.empty))"
  have "wf_redis (snd (initialize_redis h e Map.empty))"
    by (rule wf_redis_initialize) (simp add: wf_redis_def)
  then have wf: "wf_redis db" unfolding db_def by (rule documents.any_history) simp
  have "(db u = None \<and> get_vm_info redis_ok u db = Fail (''vm info not found in redis: '' @ u)) \<or>
      (\<exists>i. get_vm_info redis_ok u db = Ok i \<and> s_UUID i = u) \<or>
      (u = ''hello'' \<and> db u = Some (Garbage ''world''))"
  proof (cases "db u")
    case None
    then show ?thesis by (simp add: get_vm_info_def load_vm_info_def redis_ok_def wrap_def)
  next
    case (Some t)
    with wf consider "u = test_key" "t = test_value" | r where "t = marshal_redis_vm_info r" "r_uuid r = u"
      by (auto simp: wf_redis_def)
    then show ?thesis
    proof cases
      case 1
      with Some show ?thesis by (simp add: test_key_def test_value_def)
    next
      case 2
      with Some show ?thesis
        by (simp add: get_vm_info_def load_vm_info_def redis_ok_def to_service_dto_def)
    qed
  qed
  then show ?thesis by (simp add: db_def)
qed

text \<open>What \<open>StoreVMInfoToRedis\<close> stored, \<open>GetVMInfoFromRedis\<close> returns unchanged for that
  uuid (through encoding and decoding), and what it returns for other uuids is not affected.\<close>

theorem store_then_get:
  assumes "store_vm_info e i t db = (Ok (), db')" "re_get e' = None"
  shows "get_vm_info e' (s_UUID i) db' = Ok i \<and>
     (\<forall>u. u \<noteq> s_UUID i \<longrightarrow> get_vm_info e' u db' = get_vm_info e' u db)"
proof -
  have "db' = db(s_UUID i \<mapsto> marshal_redis_vm_info (stored_form i t))"
    using assms(1) by (simp add: store_vm_info_def redis_set_def commit_tx_Ok_iff)
  with assms(2) show ?thesis by (simp add: get_vm_info_def load_vm_info_def)
qed

definition demo_status :: vm_status_info where
  "demo_status = \<lparr>s_UUID = ''vm'', s_CPU = 2, s_Memory = 2048, s_Disk = 10, s_IP = ''10.0.0.2'',
     s_Status = ''prepare begin''\<rparr>"

theorem store_then_get_witness:
  "get_vm_info redis_ok ''vm'' (snd (store_vm_info redis_ok demo_status 7 Map.empty)) = Ok demo_status"
proof -
  obtain db' where "store_vm_info redis_ok demo_status 7 Map.empty = (Ok (), db')"
    by (simp add: store_vm_info_def redis_set_def redis_ok_def)
  with store_then_get [OF this, of redis_ok] show ?thesis
    by (simp add: demo_status_def redis_ok_def)
qed



text \<open>\<open>ValidateAndNormalizeStatus\<close> always yields one of the eight status constants,
  keeps exactly those, and applying it twice changes nothing.\<close>

theorem normalized_status_is_known:
  "validate_and_normalize_status s \<in> set known_statuses \<and>
   (validate_and_normalize_status s = s \<longleftrightarrow> s \<in> set known_statuses) \<and>
   validate_and_normalize_status (validate_and_normalize_status s) = validate_and_normalize_status s"
proof -
  have "VMStatusUnknown \<in> set known_statuses" "[] \<notin> set known_statuses" "''null'' \<notin> set known_statuses"
    by (simp_all add: known_statuses_def VMStatusPrepareBegin_def VMStatusStartBegin_def
        VMStatusStarted_def VMStatusStopped_def VMStatusRelease_def VMStatusMigrate_def
        VMStatusRestore_def VMStatusUnknown_def)
  then show ?thesis by (auto simp: validate_and_normalize_status_def)
qed

end
