(* ===== verification/ControlContext.thy ===== *)
theory ControlContext
  imports Network Clients RedisStore GuacConfig Cleanup
begin

text \<open>
  The shared state of the server (\<open>structure/control_infra.go\<close>) with the stores behind it,
  the lookup of the core of a VM, and the subnet allocation of \<open>service/network.go\<close>. The
  trace records the calls that leave the server, in order.
\<close>

section \<open>The state\<close>

datatype event =
    HttpCall http_request
  | SubnetWrite string
  | GuacConfigure uuid
  | GuacCleanup uuid
  | RedisSet uuid
  | RedisDel uuid
  | InstanceInsert uuid
  | InstanceDelete uuid

record control_context =
  Resources :: resource_manager
  MainDB :: main_db
  GuacDB :: "guac_db option"
  Redis :: redis_db
  Last_subnet :: string
  GuacBaseURL :: string
  trace :: "event list"

definition record_event :: "event \<Rightarrow> control_context \<Rightarrow> control_context" where
  "record_event ev w = w\<lparr>trace := trace w @ [ev]\<rparr>"

text \<open>A request that could not be built was never sent.\<close>

definition record_http :: "http_outcome \<Rightarrow> http_request \<Rightarrow> control_context \<Rightarrow> control_context" where
  "record_http answer rq w = (case answer of NotBuilt _ \<Rightarrow> w | _ \<Rightarrow> record_event (HttpCall rq) w)"

definition on_resources :: "(resource_manager \<Rightarrow> resource_manager) \<Rightarrow> control_context \<Rightarrow> control_context" where
  "on_resources f w = w\<lparr>Resources := f (Resources w)\<rparr>"

section \<open>Finding the core of a VM\<close>

definition cache_location :: "uuid \<Rightarrow> nat \<Rightarrow> resource_manager \<Rightarrow> resource_manager" where
  "cache_location u i rm = rm\<lparr>VMLocation := (VMLocation rm)(u \<mapsto> i)\<rparr>"

definition find_core_by_vm_uuid ::
  "tx_env \<Rightarrow> uuid \<Rightarrow> control_context \<Rightarrow> nat option \<times> control_context" where
  "find_core_by_vm_uuid e u w =
     (case VMLocation (Resources w) u of
        Some i \<Rightarrow> (Some i, w)
      | None \<Rightarrow>
          (case get_instance_location e u (MainDB w) of
             Ok k \<Rightarrow>
               if k < 0 \<or> int (length (Cores (Resources w))) \<le> k then (None, w)
               else (Some (nat k), on_resources (cache_location u (nat k)) w)
           | _ \<Rightarrow> (None, w)))"

definition get_vm_ip_by_uuid :: "uuid \<Rightarrow> control_context \<Rightarrow> string result" where
  "get_vm_ip_by_uuid u w =
     (case VMLocation (Resources w) u of
        None \<Rightarrow> Fail (''UUID '' @ u @ '' not found in VMLocation'')
      | Some i \<Rightarrow>
          (case vms_of (Cores (Resources w) ! i) u of
             None \<Rightarrow> Fail (''VMInfo for UUID '' @ u @ '' not found in Core'')
           | Some vm \<Rightarrow> Ok (IP_VM vm)))"

section \<open>Subnets\<close>

text \<open>\<open>ns_host\<close> is the value of \<open>CMS_HOST\<close>; the two updates of the \<open>subnet\<close> row commit on their own.\<close>

record subnet_env =
  ns_host :: string
  ns_cms :: http_outcome
  ns_reserve :: commit_result
  ns_rollback :: commit_result

definition update_subnet_row :: "commit_result \<Rightarrow> string \<Rightarrow> control_context \<Rightarrow> unit result \<times> control_context" where
  "update_subnet_row c s w =
     (case commit_tx c (MainDB w) ((MainDB w)\<lparr>last_subnet := s\<rparr>) of
        (r, db) \<Rightarrow> (r, record_event (SubnetWrite s) (w\<lparr>MainDB := db\<rparr>)))"

definition cms_new_instance ::
  "subnet_env \<Rightarrow> string \<Rightarrow> control_context \<Rightarrow> cms_new_instance_response result \<times> control_context" where
  "cms_new_instance e subnet w =
     (let (rq, r) = request_new_instance (cms_host (ns_host e)) subnet (ns_cms e)
      in (r, record_http (ns_cms e) rq w))"

definition add_cms_subnet ::
  "subnet_env \<Rightarrow> uuid \<Rightarrow> control_context \<Rightarrow> cms_new_instance_response result \<times> control_context" where
  "add_cms_subnet e u w =
     and_then (wrapped ''AddCmsSubnet: failed to get VM IP'' (get_vm_ip_by_uuid u w, w)) (\<lambda>ip w.
     and_then (wrapped ''AddCmsSubnet: failed to get subnet'' (get_subnet_from_ip ip, w)) (\<lambda>subnet w.
       wrapped ''AddCmsSubnet: CMS request failed'' (cms_new_instance e subnet w)))"

text \<open>The request for the subnet \<open>nxt\<close> just reserved; a failure puts \<open>old\<close> back.\<close>

definition request_reserved ::
  "subnet_env \<Rightarrow> string \<Rightarrow> string \<Rightarrow> control_context \<Rightarrow> cms_new_instance_response result \<times> control_context" where
  "request_reserved e old nxt w =
     (case cms_new_instance e nxt (w\<lparr>Last_subnet := nxt\<rparr>) of
        (Fail err, w1) \<Rightarrow>
          (case update_subnet_row (ns_rollback e) old w1 of
             (Fail rb, w2) \<Rightarrow>
               (Fail (''NewCmsSubnet: CMS request failed: '' @ err @ '', rollback also failed: '' @ rb), w2)
           | (_, w2) \<Rightarrow> (Fail (wrap ''NewCmsSubnet: CMS request failed'' err), w2\<lparr>Last_subnet := old\<rparr>))
      | (r, w1) \<Rightarrow> (r, w1))"

definition new_cms_subnet ::
  "subnet_env \<Rightarrow> control_context \<Rightarrow> cms_new_instance_response result \<times> control_context" where
  "new_cms_subnet e w =
     and_then (find_subnet (Last_subnet w), w) (\<lambda>nxt w1.
     and_then (wrapped ''NewCmsSubnet: failed to update last_subnet in DB''
                 (update_subnet_row (ns_reserve e) nxt w1)) (\<lambda>_ w2.
       request_reserved e (Last_subnet w) nxt w2))"

definition delete_cms_subnet ::
  "string \<Rightarrow> http_outcome \<Rightarrow> uuid \<Rightarrow> control_context \<Rightarrow> unit result \<times> control_context" where
  "delete_cms_subnet host answer u w =
     and_then (wrapped ''DeleteCmsSubnet: failed to get VM IP'' (get_vm_ip_by_uuid u w, w)) (\<lambda>ip w.
       (let (rq, r) = request_delete_instance (cms_host host) ip answer
        in and_then (wrapped ''DeleteCmsSubnet: CMS request failed'' (r, record_http answer rq w))
             (\<lambda>_ w. (Ok (), w))))"

section \<open>What the steps leave alone\<close>

lemma on_resources_frame [simp]:
  "Resources (on_resources f w) = f (Resources w)" "MainDB (on_resources f w) = MainDB w"
  "GuacDB (on_resources f w) = GuacDB w" "Redis (on_resources f w) = Redis w"
  "Last_subnet (on_resources f w) = Last_subnet w" "trace (on_resources f w) = trace w"
  "GuacBaseURL (on_resources f w) = GuacBaseURL w"
  by (simp_all add: on_resources_def)

lemma record_event_frame [simp]:
  "Resources (record_event ev w) = Resources w" "MainDB (record_event ev w) = MainDB w"
  "GuacDB (record_event ev w) = GuacDB w" "Redis (record_event ev w) = Redis w"
  "Last_subnet (record_event ev w) = Last_subnet w" "trace (record_event ev w) = trace w @ [ev]"
  "GuacBaseURL (record_event ev w) = GuacBaseURL w"
  by (simp_all add: record_event_def)

lemma record_http_frame [simp]:
  "Resources (record_http a rq w) = Resources w" "MainDB (record_http a rq w) = MainDB w"
  "GuacDB (record_http a rq w) = GuacDB w" "Redis (record_http a rq w) = Redis w"
  "Last_subnet (record_http a rq w) = Last_subnet w" "GuacBaseURL (record_http a rq w) = GuacBaseURL w"
  "trace (record_http a rq w) = trace w @ (case a of NotBuilt _ \<Rightarrow> [] | _ \<Rightarrow> [HttpCall rq])"
  by (simp_all add: record_http_def split: http_outcome.split)

lemma snd_cms_new_instance [simp]:
  "snd (cms_new_instance e s w) =
     record_http (ns_cms e) (fst (request_new_instance (cms_host (ns_host e)) s (ns_cms e))) w"
  by (simp add: cms_new_instance_def split: prod.split)

lemma update_subnet_row_frame [simp]:
  "Resources (snd (update_subnet_row c s w)) = Resources w"
  "GuacDB (snd (update_subnet_row c s w)) = GuacDB w"
  "Redis (snd (update_subnet_row c s w)) = Redis w"
  "Last_subnet (snd (update_subnet_row c s w)) = Last_subnet w"
  "inst_info (MainDB (snd (update_subnet_row c s w))) = inst_info (MainDB w)"
  "inst_loc (MainDB (snd (update_subnet_row c s w))) = inst_loc (MainDB w)"
  "trace (snd (update_subnet_row c s w)) = trace w @ [SubnetWrite s]"
  by (cases c; simp add: update_subnet_row_def)+

text \<open>Subnet allocation touches the subnet row and the last subnet only, and calls nobody but
  the CMS.\<close>

definition subnet_event :: "event \<Rightarrow> bool" where
  "subnet_event ev \<longleftrightarrow>
     (case ev of SubnetWrite _ \<Rightarrow> True
      | HttpCall rq \<Rightarrow> (\<exists>h. q_url rq = ''http://'' @ h @ ''/New/Instance'')
      | _ \<Rightarrow> False)"

definition same_but_subnet :: "control_context \<Rightarrow> control_context \<Rightarrow> bool" where
  "same_but_subnet w w' \<longleftrightarrow> Resources w' = Resources w \<and> GuacDB w' = GuacDB w \<and> Redis w' = Redis w \<and>
     inst_info (MainDB w') = inst_info (MainDB w) \<and> inst_loc (MainDB w') = inst_loc (MainDB w) \<and>
     (\<exists>pre. trace w' = trace w @ pre \<and> list_all subnet_event pre)"

lemma same_but_subnet_refl [simp]: "same_but_subnet w w"
  by (simp add: same_but_subnet_def)

lemma same_but_subnet_step:
  assumes "same_but_subnet w v" "Resources v' = Resources v" "GuacDB v' = GuacDB v" "Redis v' = Redis v"
    "inst_info (MainDB v') = inst_info (MainDB v)" "inst_loc (MainDB v') = inst_loc (MainDB v)"
    "trace v' = trace v @ evs" "list_all subnet_event evs"
  shows "same_but_subnet w v'"
proof -
  obtain pre where "trace v = trace w @ pre" "list_all subnet_event pre"
    using assms(1) by (auto simp: same_but_subnet_def)
  with assms(7,8) have "trace v' = trace w @ (pre @ evs)" "list_all subnet_event (pre @ evs)" by simp_all
  with assms(1-6) show ?thesis unfolding same_but_subnet_def by metis
qed

lemma same_but_subnet_update: "same_but_subnet w v \<Longrightarrow> same_but_subnet w (snd (update_subnet_row c s v))"
  by (rule same_but_subnet_step [where v = v and evs = "[SubnetWrite s]"]) (simp_all add: subnet_event_def)

lemma same_but_subnet_last: "same_but_subnet w v \<Longrightarrow> same_but_subnet w (v\<lparr>Last_subnet := s\<rparr>)"
  by (rule same_but_subnet_step [where v = v and evs = "[]"]) simp_all

lemma same_but_subnet_cms: "same_but_subnet w v \<Longrightarrow> same_but_subnet w (snd (cms_new_instance e s v))"
proof (rule same_but_subnet_step [where v = v])
  show "list_all subnet_event (case ns_cms e of NotBuilt _ \<Rightarrow> []
      | _ \<Rightarrow> [HttpCall (fst (request_new_instance (cms_host (ns_host e)) s (ns_cms e)))])"
    by (auto simp: subnet_event_def request_new_instance_def cms_request_def split: http_outcome.split)
qed simp_all

lemma same_but_subnet_request:
  assumes "same_but_subnet w v"
  shows "same_but_subnet w (snd (request_reserved e old nxt v))"
proof -
  obtain r w1 where r: "cms_new_instance e nxt (v\<lparr>Last_subnet := nxt\<rparr>) = (r, w1)" by fastforce
  then have w1: "same_but_subnet w w1"
    using same_but_subnet_cms [OF same_but_subnet_last [OF assms], of e nxt nxt] by simp
  obtain q w2 where q: "update_subnet_row (ns_rollback e) old w1 = (q, w2)" by fastforce
  then have "same_but_subnet w w2" using same_but_subnet_update [OF w1, of "ns_rollback e" old] by simp
  with w1 r q show ?thesis by (cases r; cases q) (simp_all add: request_reserved_def same_but_subnet_last)
qed

lemma new_cms_subnet_frame: "same_but_subnet w (snd (new_cms_subnet e w))"
  unfolding new_cms_subnet_def
  by (rule and_then_steps [where P = "same_but_subnet w"], simp)
    (rule and_then_steps [where P = "same_but_subnet w"],
      simp_all add: same_but_subnet_update same_but_subnet_request)

lemma add_cms_subnet_frame: "same_but_subnet w (snd (add_cms_subnet e u w))"
  unfolding add_cms_subnet_def
  by (rule and_then_steps [where P = "same_but_subnet w"], simp)
    (rule and_then_steps [where P = "same_but_subnet w"],
      simp_all only: snd_wrapped same_but_subnet_cms, simp)

end
