(* ===== verification/VmService.thy ===== *)
theory VmService
  imports ControlContext
begin

text \<open>
  \<open>service/vm.go\<close> and \<open>service/guacamole.go\<close>: the life of a VM across the resource
  manager, the two databases, Redis and the HTTP services. Every call outside the server
  takes its outcome from an environment record; a failure is returned as the code returns
  it, together with the state reached. A panic keeps the state reached (the HTTP server
  recovers it).
\<close>

section \<open>Input\<close>

record user_spec =
  us_Name :: string
  us_Groups :: string
  us_Password :: string
  us_SSH :: "string list option"

record create_vm_input =
  in_UUID :: uuid
  in_DomType :: string
  in_DomName :: string
  in_OS :: string
  in_CPU :: uint32
  in_Memory :: uint32
  in_Disk :: uint32
  in_IPs :: "string list option"
  in_Users :: "user_spec list"
  in_SubnetType :: string

definition requirement_of :: "create_vm_input \<Rightarrow> hardware_requirement" where
  "requirement_of inp = \<lparr>req_Memory = in_Memory inp, req_CPU = in_CPU inp, req_Disk = in_Disk inp\<rparr>"

section \<open>Creating a VM\<close>

record create_env =
  ce_ssh :: "(string \<times> string) result"
  ce_subnet :: subnet_env
  ce_guac :: guac_env
  ce_guac_cleanup :: cleanup_env
  ce_redis :: redis_env
  ce_now :: int64
  ce_core :: http_outcome
  ce_insert :: tx_env
  ce_last_subnet :: commit_result

definition select_core_or_fail :: "hardware_requirement \<Rightarrow> control_context \<Rightarrow> nat result" where
  "select_core_or_fail req w =
     (case sel_Core (select_core req (Resources w)) of
        Some i \<Rightarrow> Ok i
      | None \<Rightarrow> Fail ''CreateVM: no suitable core found'')"

definition allocate_cms_subnet ::
  "subnet_env \<Rightarrow> string \<Rightarrow> uuid \<Rightarrow> control_context \<Rightarrow>
   (cms_new_instance_response \<times> bool) result \<times> control_context" where
  "allocate_cms_subnet e subnetType u w =
     (if subnetType = ''Add''
      then and_then (wrapped ''CreateVM: failed to configure cms'' (add_cms_subnet e u w))
             (\<lambda>r w. (Ok (r, False), w))
      else and_then (wrapped ''CreateVM: failed to configure cms'' (new_cms_subnet e w))
             (\<lambda>r w. (Ok (r, True), w)))"

definition core_user :: "user_spec \<Rightarrow> user_info_vm" where
  "core_user u = \<lparr>u_Name = us_Name u, u_Groups = us_Groups u, u_Password = us_Password u, u_SSH = us_SSH u\<rparr>"

text \<open>The first user gets the generated public key instead of the given ones.\<close>

fun with_first_key :: "string \<Rightarrow> user_info_vm list \<Rightarrow> user_info_vm list" where
  "with_first_key key [] = []"
| "with_first_key key (u # us) = u\<lparr>u_SSH := Some [key]\<rparr> # us"

definition build_core_create_vm_request ::
  "create_vm_input \<Rightarrow> cms_new_instance_response \<Rightarrow> string \<Rightarrow> create_vm_request" where
  "build_core_create_vm_request inp cms key =
     \<lparr>cr_DomType = in_DomType inp, cr_DomName = in_DomName inp, cr_UUID = in_UUID inp,
      cr_OS = in_OS inp,
      cr_HW = \<lparr>hw_CPU = in_CPU inp, hw_Memory = in_Memory inp, hw_Disk = in_Disk inp\<rparr>,
      cr_Ips = Some [cms_IP cms], cr_NetType = 0,
      cr_Users = Some (with_first_key key (map core_user (in_Users inp))),
      cr_SdnUUID = cms_SdnUUID cms, cr_MacAddr = cms_MacAddr cms,
      cr_Subnettype = in_SubnetType inp, cr_PresignedImageURL = []\<rparr>"

definition guac_configure ::
  "guac_env \<Rightarrow> string \<Rightarrow> uuid \<Rightarrow> string \<Rightarrow> string \<Rightarrow> control_context \<Rightarrow> string result \<times> control_context" where
  "guac_configure e username u ip key w =
     (case configure e username u ip key (GuacDB w) of
        (r, h) \<Rightarrow> (r, record_event (GuacConfigure u) (w\<lparr>GuacDB := h\<rparr>)))"

definition guac_cleanup :: "cleanup_env \<Rightarrow> uuid \<Rightarrow> control_context \<Rightarrow> unit result \<times> control_context" where
  "guac_cleanup e u w =
     (case cleanup e u (GuacDB w) of
        (r, h) \<Rightarrow> (r, record_event (GuacCleanup u) (w\<lparr>GuacDB := h\<rparr>)))"

definition redis_store ::
  "redis_env \<Rightarrow> vm_status_info \<Rightarrow> int64 \<Rightarrow> control_context \<Rightarrow> unit result \<times> control_context" where
  "redis_store e i t w =
     (case store_vm_info e i t (Redis w) of
        (r, db) \<Rightarrow> (r, record_event (RedisSet (s_UUID i)) (w\<lparr>Redis := db\<rparr>)))"

definition repo_add :: "tx_env \<Rightarrow> vm_info \<Rightarrow> nat \<Rightarrow> control_context \<Rightarrow> unit result \<times> control_context" where
  "repo_add e vm i w =
     (case add_instance e vm (int i) (MainDB w) of
        (r, db) \<Rightarrow> (r, record_event (InstanceInsert (VM_UUID vm)) (w\<lparr>MainDB := db\<rparr>)))"

definition core_create ::
  "http_outcome \<Rightarrow> nat \<Rightarrow> create_vm_request \<Rightarrow> control_context \<Rightarrow> create_vm_response result \<times> control_context" where
  "core_create answer i req w =
     (case core_create_vm (Cores (Resources w) ! i) req answer of
        (rq, r) \<Rightarrow> (r, record_http answer rq w))"

definition new_vm :: "create_vm_input \<Rightarrow> cms_new_instance_response \<Rightarrow> string \<Rightarrow> vm_info" where
  "new_vm inp cms pass =
     \<lparr>IP_VM = cms_IP cms, VM_UUID = in_UUID inp, GuacPassword = pass, MacAddr = cms_MacAddr cms,
      VM_Memory = in_Memory inp, VM_Cpu = in_CPU inp, VM_Disk = in_Disk inp\<rparr>"

definition initial_status :: "create_vm_input \<Rightarrow> cms_new_instance_response \<Rightarrow> vm_status_info" where
  "initial_status inp cms =
     \<lparr>s_UUID = in_UUID inp, s_CPU = in_CPU inp, s_Memory = in_Memory inp, s_Disk = in_Disk inp,
      s_IP = cms_IP cms, s_Status = VMStatusUnknown\<rparr>"

definition undo_guac :: "create_env \<Rightarrow> uuid \<Rightarrow> control_context \<Rightarrow> control_context" where
  "undo_guac e u w = snd (guac_cleanup (ce_guac_cleanup e) u w)"

definition undo_resources :: "nat \<Rightarrow> uuid \<Rightarrow> hardware_requirement \<Rightarrow> control_context \<Rightarrow> control_context" where
  "undo_resources i u req = on_resources (deallocate_resources i u req)"

text \<open>Leaving with an error after running the chain.\<close>

definition abort_with ::
  "control_context cleanup_chain \<Rightarrow> error \<Rightarrow> control_context \<Rightarrow> unit result \<times> control_context" where
  "abort_with chain err w = (Fail err, fst (chain_run chain w))"

text \<open>Steps 6 to 8: the initial status, the call to the core, the instance row; then the new VM
  is registered.\<close>

definition launch_vm ::
  "create_env \<Rightarrow> create_vm_input \<Rightarrow> nat \<Rightarrow> cms_new_instance_response \<Rightarrow> bool \<Rightarrow> string \<Rightarrow> vm_info \<Rightarrow>
   control_context cleanup_chain \<Rightarrow> control_context \<Rightarrow> unit result \<times> control_context" where
  "launch_vm e inp i cms isNew key vm chain w =
     (let w1 = snd (redis_store (ce_redis e) (initial_status inp cms) (ce_now e) w) in
      case core_create (ce_core e) i (build_core_create_vm_request inp cms key) w1 of
        (Panic, w2) \<Rightarrow> (Panic, w2)
      | (Fail err, w2) \<Rightarrow>
          abort_with chain (''CreateVM: failed to create VM on core '' @
            wrap (core_IP (Cores (Resources w2) ! i)) err) w2
      | (Ok _, w2) \<Rightarrow>
          (case repo_add (ce_insert e) vm i w2 of
             (Panic, w3) \<Rightarrow> (Panic, w3)
           | (Fail err, w3) \<Rightarrow> abort_with chain (wrap ''CreateVM: failed to persist instance'' err) w3
           | (Ok _, w3) \<Rightarrow>
               (let w4 = (if isNew then snd (update_subnet_row (ce_last_subnet e) (cms_IP cms) w3) else w3)
                in (Ok (), on_resources (register_vm (in_UUID inp) i vm) w4))))"

text \<open>Steps 4 and 5: Guacamole, then the resources of the core, each with its undo.\<close>

definition place_vm ::
  "create_env \<Rightarrow> create_vm_input \<Rightarrow> nat \<Rightarrow> cms_new_instance_response \<Rightarrow> bool \<Rightarrow> string \<Rightarrow> string \<Rightarrow>
   control_context \<Rightarrow> unit result \<times> control_context" where
  "place_vm e inp i cms isNew priv pub w =
     (case guac_configure (ce_guac e) (us_Name (hd (in_Users inp))) (in_UUID inp) (cms_IP cms) priv w of
        (Panic, w1) \<Rightarrow> (Panic, w1)
      | (Fail err, w1) \<Rightarrow> (Fail err, w1)
      | (Ok pass, w1) \<Rightarrow>
          if pass = [] then abort_with empty_chain ''CreateVM: failed to configure Guacamole'' w1
          else (let vm = new_vm inp cms pass; req = requirement_of inp;
                    chain = chain_push (undo_guac e (in_UUID inp)) empty_chain;
                    w2 = on_resources (allocate_resources i (in_UUID inp) vm req) w1;
                    chain = chain_push (undo_resources i (in_UUID inp) req) chain
                in launch_vm e inp i cms isNew pub vm chain w2))"

definition create_vm ::
  "create_env \<Rightarrow> create_vm_input \<Rightarrow> control_context \<Rightarrow> unit result \<times> control_context" where
  "create_vm e inp w =
     and_then (select_core_or_fail (requirement_of inp) w, w) (\<lambda>i w.
     and_then (wrapped ''CreateVM: failed to generate SSH key'' (ce_ssh e, w)) (\<lambda>keys w.
       if in_Users inp = [] then abort_with empty_chain ''CreateVM: at least one user is required'' w
       else
     and_then (wrapped ''CreateVM: failed to allocate CMS subnet''
                 (allocate_cms_subnet (ce_subnet e) (in_SubnetType inp) (in_UUID inp) w)) (\<lambda>cms w.
       place_vm e inp i (fst cms) (snd cms) (fst keys) (snd keys) w)))"

section \<open>Deleting, starting and stopping a VM\<close>

record delete_env =
  de_find :: tx_env
  de_core :: http_outcome
  de_cms_host :: string
  de_cms :: http_outcome
  de_delete :: tx_env
  de_guac :: cleanup_env
  de_redis :: redis_env

definition not_found :: "uuid \<Rightarrow> error" where
  "not_found u = ''VM with UUID '' @ u @ '' not found''"

definition repo_delete :: "tx_env \<Rightarrow> uuid \<Rightarrow> control_context \<Rightarrow> unit result \<times> control_context" where
  "repo_delete e u w =
     (case delete_instance e u (MainDB w) of
        (r, db) \<Rightarrow> (r, record_event (InstanceDelete u) (w\<lparr>MainDB := db\<rparr>)))"

definition redis_remove :: "redis_env \<Rightarrow> uuid \<Rightarrow> control_context \<Rightarrow> unit result \<times> control_context" where
  "redis_remove e u w =
     (case remove_vm_info e u (Redis w) of
        (r, db) \<Rightarrow> (r, record_event (RedisDel u) (w\<lparr>Redis := db\<rparr>)))"

text \<open>A core found for the VM, or the error that there is none.\<close>

definition with_core ::
  "error \<Rightarrow> tx_env \<Rightarrow> uuid \<Rightarrow> control_context \<Rightarrow> nat result \<times> control_context" where
  "with_core err e u w =
     (case find_core_by_vm_uuid e u w of
        (None, w1) \<Rightarrow> (Fail err, w1)
      | (Some i, w1) \<Rightarrow> (Ok i, w1))"

definition on_core :: "core \<Rightarrow> string" where
  "on_core c = '' on core '' @ core_IP c"

definition delete_vm ::
  "delete_env \<Rightarrow> uuid \<Rightarrow> control_context \<Rightarrow> unit result \<times> control_context" where
  "delete_vm e u w =
     and_then (with_core (not_found u) (de_find e) u w) (\<lambda>i w1.
       (let c = Cores (Resources w1) ! i;
            (rq, r) = core_delete_vm c u HardDelete (de_core e)
        in and_then (wrapped (''DeleteVM: failed to delete VM '' @ u @ on_core c)
                       (r, record_http (de_core e) rq w1)) (\<lambda>_ w2.
       (let w3 = snd (delete_cms_subnet (de_cms_host e) (de_cms e) u w2)
        in and_then (wrapped (''DeleteVM: failed to delete instance '' @ u) (repo_delete (de_delete e) u w3))
             (\<lambda>_ w4.
       (let w5 = snd (guac_cleanup (de_guac e) u w4)
        in (Ok (), snd (redis_remove (de_redis e) u w5))))))))"

definition start_vm ::
  "tx_env \<Rightarrow> http_outcome \<Rightarrow> uuid \<Rightarrow> control_context \<Rightarrow> unit result \<times> control_context" where
  "start_vm e answer u w =
     and_then (with_core (not_found u) e u w) (\<lambda>i w1.
       (let (rq, r) = core_start_vm (Cores (Resources w1) ! i) u answer
        in and_then (wrapped (''StartVM: failed to start VM '' @ u) (r, record_http answer rq w1))
             (\<lambda>_ w2. (Ok (), w2))))"

definition redis_update ::
  "redis_env \<Rightarrow> uuid \<Rightarrow> string \<Rightarrow> int64 \<Rightarrow> control_context \<Rightarrow> unit result \<times> control_context" where
  "redis_update e u status t w =
     (case update_vm_status e u status t (Redis w) of
        (r, db) \<Rightarrow> (r, record_event (RedisSet u) (w\<lparr>Redis := db\<rparr>)))"

definition shutdown_vm ::
  "tx_env \<Rightarrow> http_outcome \<Rightarrow> redis_env \<Rightarrow> int64 \<Rightarrow> uuid \<Rightarrow> control_context \<Rightarrow> unit result \<times> control_context" where
  "shutdown_vm e answer re t u w =
     and_then (with_core (not_found u) e u w) (\<lambda>i w1.
       (let (rq, r) = core_force_shutdown_vm (Cores (Resources w1) ! i) u answer
        in and_then (wrapped (''ShutdownVM: failed to shutdown VM '' @ u) (r, record_http answer rq w1))
             (\<lambda>_ w2.
               (let w3 = on_resources (\<lambda>rm. snd (unregister_alive u rm)) w2
                in (Ok (), snd (redis_update re u VMStatusStopped t w3))))))"

section \<open>Queries\<close>

definition get_vm_status ::
  "string \<Rightarrow> string \<Rightarrow> (core \<Rightarrow> uuid \<Rightarrow> http_outcome \<Rightarrow> http_request \<times> 'a result) \<Rightarrow>
   tx_env \<Rightarrow> http_outcome \<Rightarrow> uuid \<Rightarrow> control_context \<Rightarrow> 'a result \<times> control_context" where
  "get_vm_status who what call e answer u w =
     and_then (with_core (who @ '': '' @ not_found u) e u w) (\<lambda>i w1.
       (let c = Cores (Resources w1) ! i; (rq, r) = call c u answer
        in wrapped (who @ '': error getting '' @ what @ '' info for VM '' @ u @ on_core c)
             (r, record_http answer rq w1)))"

text \<open>The values of the core are copied into the structs of the service layer.\<close>

record vm_cpu_status =
  vc_System :: number
  vc_Idle :: number
  vc_Usage :: number

record vm_memory_status =
  vmem_Total :: uint64
  vmem_Used :: uint64
  vmem_Available :: uint64
  vmem_UsedPercent :: number

record vm_disk_status =
  vd_Total :: uint64
  vd_Used :: uint64
  vd_Free :: uint64
  vd_UsedPercent :: number

definition to_cpu_status :: "cpu_info \<Rightarrow> vm_cpu_status" where
  "to_cpu_status c = \<lparr>vc_System = cpu_System c, vc_Idle = cpu_Idle c, vc_Usage = cpu_Usage c\<rparr>"

definition to_memory_status :: "memory_info \<Rightarrow> vm_memory_status" where
  "to_memory_status m = \<lparr>vmem_Total = mem_Total m, vmem_Used = mem_Used m,
     vmem_Available = mem_Available m, vmem_UsedPercent = mem_UsedPercent m\<rparr>"

definition to_disk_status :: "disk_info \<Rightarrow> vm_disk_status" where
  "to_disk_status d = \<lparr>vd_Total = disk_Total d, vd_Used = disk_Used d,
     vd_Free = disk_Free d, vd_UsedPercent = disk_UsedPercent d\<rparr>"

definition converted ::
  "('a \<Rightarrow> 'b) \<Rightarrow> (core \<Rightarrow> uuid \<Rightarrow> http_outcome \<Rightarrow> http_request \<times> 'a result) \<Rightarrow>
   core \<Rightarrow> uuid \<Rightarrow> http_outcome \<Rightarrow> http_request \<times> 'b result" where
  "converted f call c u answer = (case call c u answer of (rq, r) \<Rightarrow> (rq, map_result f r))"

definition get_vm_cpu_info ::
  "tx_env \<Rightarrow> http_outcome \<Rightarrow> uuid \<Rightarrow> control_context \<Rightarrow> vm_cpu_status result \<times> control_context" where
  "get_vm_cpu_info = get_vm_status ''GetVMCpuInfo'' ''CPU'' (converted to_cpu_status core_vm_cpu_info)"

definition get_vm_memory_info ::
  "tx_env \<Rightarrow> http_outcome \<Rightarrow> uuid \<Rightarrow> control_context \<Rightarrow> vm_memory_status result \<times> control_context" where
  "get_vm_memory_info = get_vm_status ''GetVMMemoryInfo'' ''memory'' (converted to_memory_status core_vm_memory_info)"

definition get_vm_disk_info ::
  "tx_env \<Rightarrow> http_outcome \<Rightarrow> uuid \<Rightarrow> control_context \<Rightarrow> vm_disk_status result \<times> control_context" where
  "get_vm_disk_info = get_vm_status ''GetVMDiskInfo'' ''disk'' (converted to_disk_status core_vm_disk_info)"

definition get_guacamole_token ::
  "tx_env \<Rightarrow> http_outcome \<Rightarrow> uuid \<Rightarrow> control_context \<Rightarrow> string result \<times> control_context" where
  "get_guacamole_token e answer u w =
     and_then (with_core (''core not found for vm uuid: '' @ u) e u w) (\<lambda>i w1.
       (case vms_of (Cores (Resources w1) ! i) u of
          None \<Rightarrow> (Fail (''vm not found of uuid: '' @ u), w1)
        | Some vm \<Rightarrow>
            (let (rq, r) = authenticate (GuacBaseURL w1) u (GuacPassword vm) answer
             in wrapped ''GetGuacamoleToken: failed to authenticate'' (r, record_http answer rq w1))))"

end
