(* ===== verification/VmLifecycle.thy ===== *)
theory VmLifecycle
  imports VmService
begin

text \<open>
  What the operations of \<open>VmService\<close> do to the state as a whole: the steps of \<open>CreateVM\<close>
  with a rollback are an instance of \<open>reversible\<close>, every operation keeps the invariants of
  all stores, and the outcome of each operation on its success and error branches.
\<close>

section \<open>The rollback of CreateVM\<close>

definition vm_view ::
  "control_context \<Rightarrow> (core list \<times> vm_info list \<times> (uuid \<rightharpoonup> nat)) \<times> guac_db option" where
  "vm_view w = (rm_view (Resources w), map_option guac_tables (GuacDB w))"

datatype vm_act =
    ActGuac create_env string uuid string string
  | ActAlloc nat uuid vm_info hardware_requirement

fun vm_do :: "vm_act \<Rightarrow> control_context \<Rightarrow> control_context" where
  "vm_do (ActGuac e name u ip key) w = snd (guac_configure (ce_guac e) name u ip key w)"
| "vm_do (ActAlloc i u vm req) w = on_resources (allocate_resources i u vm req) w"

fun vm_undo :: "vm_act \<Rightarrow> control_context \<Rightarrow> control_context" where
  "vm_undo (ActGuac e name u ip key) w = undo_guac e u w"
| "vm_undo (ActAlloc i u vm req) w = undo_resources i u req w"

fun vm_can :: "vm_act \<Rightarrow> control_context \<Rightarrow> bool" where
  "vm_can (ActGuac e name u ip key) w \<longleftrightarrow>
     (case GuacDB w of None \<Rightarrow> True
      | Some db \<Rightarrow> can_configure (ce_guac e, ce_guac_cleanup e, name, u, ip, key) db)"
| "vm_can (ActAlloc i u vm req) w \<longleftrightarrow> can_allocate (i, u, vm, req) (Resources w)"

lemma guac_configure_frame [simp]:
  "Resources (snd (guac_configure e n u ip k w)) = Resources w"
  "MainDB (snd (guac_configure e n u ip k w)) = MainDB w"
  "Redis (snd (guac_configure e n u ip k w)) = Redis w"
  "GuacDB (snd (guac_configure e n u ip k w)) = map_option (\<lambda>db. snd (configure_db e n u ip k db)) (GuacDB w)"
  "trace (snd (guac_configure e n u ip k w)) = trace w @ [GuacConfigure u]"
  "Last_subnet (snd (guac_configure e n u ip k w)) = Last_subnet w"
  by (simp_all add: guac_configure_def configure_def split: prod.split option.split)

lemma guac_cleanup_frame [simp]:
  "Resources (snd (guac_cleanup e u w)) = Resources w"
  "MainDB (snd (guac_cleanup e u w)) = MainDB w"
  "Redis (snd (guac_cleanup e u w)) = Redis w"
  "GuacDB (snd (guac_cleanup e u w)) = map_option (\<lambda>db. snd (cleanup_db e u db)) (GuacDB w)"
  "trace (snd (guac_cleanup e u w)) = trace w @ [GuacCleanup u]"
  "Last_subnet (snd (guac_cleanup e u w)) = Last_subnet w"
  by (simp_all add: guac_cleanup_def cleanup_def split: prod.split option.split)

interpretation steps: reversible vm_do vm_undo vm_can vm_view
proof
  show "vm_view (vm_undo a (vm_do a s)) = vm_view s" if "vm_can a s" for a s
  proof (cases a)
    case (ActGuac e name u ip key)
    show ?thesis
    proof (cases "GuacDB s")
      case (Some db)
      with that ActGuac guac.undo_act [of "(ce_guac e, ce_guac_cleanup e, name, u, ip, key)" db]
      show ?thesis
        by (simp add: vm_view_def undo_guac_def do_configure_def undo_configure_def)
    qed (simp add: ActGuac vm_view_def undo_guac_def)
  next
    case (ActAlloc i u vm req)
    with that alloc.undo_act [of "(i, u, vm, req)" "Resources s"]
    show ?thesis by (simp add: vm_view_def undo_resources_def)
  qed
next
  show "vm_view (vm_undo a s) = vm_view (vm_undo a t)" if "vm_view s = vm_view t" for a s t
  proof (cases a)
    case (ActGuac e name u ip key)
    from that have v: "rm_view (Resources s) = rm_view (Resources t)"
      "map_option guac_tables (GuacDB s) = map_option guac_tables (GuacDB t)"
      by (simp_all add: vm_view_def)
    have "map_option guac_tables (map_option (\<lambda>db. snd (cleanup_db c u db)) (GuacDB s)) =
          map_option guac_tables (map_option (\<lambda>db. snd (cleanup_db c u db)) (GuacDB t))" for c
    proof (cases "GuacDB s")
      case None
      with v(2) show ?thesis by simp
    next
      case (Some x)
      with v(2) obtain y where y: "GuacDB t = Some y" "guac_tables x = guac_tables y"
        by (cases "GuacDB t") simp_all
      have "guac_tables (undo_configure (ce_guac e, c, name, u, ip, key) x) =
          guac_tables (undo_configure (ce_guac e, c, name, u, ip, key) y)"
        using y(2) by (rule guac.undo_cong)
      then show ?thesis by (simp only: undo_configure_def prod.case Some y(1) option.map)
    qed
    with v(1) ActGuac show ?thesis by (simp add: vm_view_def undo_guac_def)
  next
    case (ActAlloc i u vm req)
    from that have v: "rm_view (Resources s) = rm_view (Resources t)"
      "map_option guac_tables (GuacDB s) = map_option guac_tables (GuacDB t)"
      by (simp_all add: vm_view_def)
    have "rm_view (undo_allocate (i, u, vm, req) (Resources s)) =
        rm_view (undo_allocate (i, u, vm, req) (Resources t))"
      using v(1) by (rule alloc.undo_cong)
    then show ?thesis by (simp only: ActAlloc vm_view_def undo_resources_def vm_undo.simps
        on_resources_frame undo_allocate.simps v(2))
  qed
qed

section \<open>The branches of CreateVM\<close>

lemma do_request_not_Panic: "do_request fs z a \<noteq> Panic"
  using unmarshal_not_Panic [of fs z]
  by (simp add: do_request_def split: http_outcome.split result.split)

lemma redis_store_frame [simp]:
  "Resources (snd (redis_store e i t w)) = Resources w"
  "MainDB (snd (redis_store e i t w)) = MainDB w"
  "GuacDB (snd (redis_store e i t w)) = GuacDB w"
  "Redis (snd (redis_store e i t w)) = snd (store_vm_info e i t (Redis w))"
  "trace (snd (redis_store e i t w)) = trace w @ [RedisSet (s_UUID i)]"
  "Last_subnet (snd (redis_store e i t w)) = Last_subnet w"
  by (simp_all add: redis_store_def split: prod.split)

lemma repo_add_frame [simp]:
  "Resources (snd (repo_add e vm i w)) = Resources w"
  "GuacDB (snd (repo_add e vm i w)) = GuacDB w"
  "Redis (snd (repo_add e vm i w)) = Redis w"
  "MainDB (snd (repo_add e vm i w)) = snd (add_instance e vm (int i) (MainDB w))"
  "fst (repo_add e vm i w) = fst (add_instance e vm (int i) (MainDB w))"
  "trace (snd (repo_add e vm i w)) = trace w @ [InstanceInsert (VM_UUID vm)]"
  "Last_subnet (snd (repo_add e vm i w)) = Last_subnet w"
  by (simp_all add: repo_add_def split: prod.split)

lemma core_create_eqs [simp]:
  "fst (core_create a i req w) = do_request create_vm_response_fields zero_create_vm_response a"
  "snd (core_create a i req w) =
     record_http a (core_request (Cores (Resources w) ! i) ''POST'' ''/createVM'' (json_of_create_vm req)) w"
  by (simp_all add: core_create_def core_create_vm_def)

lemma add_instance_not_Panic: "fst (add_instance e vm k db) \<noteq> Panic"
  by (cases "tx_commit e")
    (simp_all add: add_instance_def insert_info_def insert_loc_def split: option.split)

text \<open>The state before the chain would run: same resources and Guacamole tables.\<close>

lemma launch_vm_cases:
  assumes "launch_vm e inp i cms isNew key vm chain w = (r, w')"
  obtains (aborted) err w1 where "r = Fail err" "w' = fst (chain_run chain w1)"
      "Resources w1 = Resources w" "GuacDB w1 = GuacDB w"
      "MainDB w1 = MainDB w \<or>
         MainDB w1 = snd (add_instance (ce_insert e) vm (int i) (MainDB w)) \<and>
         \<not> is_ok (fst (add_instance (ce_insert e) vm (int i) (MainDB w)))"
  | (launched) "r = Ok ()" "Resources w' = register_vm (in_UUID inp) i vm (Resources w)"
      "GuacDB w' = GuacDB w"
      "add_instance (ce_insert e) vm (int i) (MainDB w) = (Ok (), snd (add_instance (ce_insert e) vm (int i) (MainDB w)))"
      "inst_info (MainDB w') = inst_info (snd (add_instance (ce_insert e) vm (int i) (MainDB w)))"
      "inst_loc (MainDB w') = inst_loc (snd (add_instance (ce_insert e) vm (int i) (MainDB w)))"
      "Redis w' = snd (store_vm_info (ce_redis e) (initial_status inp cms) (ce_now e) (Redis w))"
proof -
  let ?w1 = "snd (redis_store (ce_redis e) (initial_status inp cms) (ce_now e) w)"
  let ?req = "build_core_create_vm_request inp cms key"
  obtain q w2 where q: "core_create (ce_core e) i ?req ?w1 = (q, w2)" by fastforce
  then have w2: "Resources w2 = Resources w" "GuacDB w2 = GuacDB w" "MainDB w2 = MainDB w"
    "Redis w2 = Redis ?w1"
    using core_create_eqs(2) [of "ce_core e" i ?req ?w1] by simp_all
  have "q \<noteq> Panic" using q core_create_eqs(1) [of "ce_core e" i ?req ?w1] do_request_not_Panic by simp
  obtain p w3 where p: "repo_add (ce_insert e) vm i w2 = (p, w3)" by fastforce
  then have w3: "Resources w3 = Resources w" "GuacDB w3 = GuacDB w" "Redis w3 = Redis ?w1"
    "MainDB w3 = snd (add_instance (ce_insert e) vm (int i) (MainDB w))"
    "p = fst (add_instance (ce_insert e) vm (int i) (MainDB w))"
    using repo_add_frame [of "ce_insert e" vm i w2] w2 by simp_all
  then have "p \<noteq> Panic" using add_instance_not_Panic by simp
  show thesis
  proof (cases q)
    case (Fail err)
    have "(r, w') = (Fail (''CreateVM: failed to create VM on core '' @
        wrap (core_IP (Cores (Resources w2) ! i)) err), fst (chain_run chain w2))"
      using assms by (simp add: launch_vm_def abort_with_def Let_def q Fail)
    then show thesis using w2 by (intro aborted [of _ w2]) simp_all
  next
    case (Ok x)
    note eqs = launch_vm_def abort_with_def Let_def q Ok p
    show thesis
    proof (cases p)
      case (Fail err)
      have "(r, w') = (Fail (wrap ''CreateVM: failed to persist instance'' err), fst (chain_run chain w3))"
        using assms by (simp add: eqs Fail)
      moreover have "\<not> is_ok (fst (add_instance (ce_insert e) vm (int i) (MainDB w)))"
        using w3(5) Fail by (metis is_ok_simps(2))
      ultimately show thesis using w3 by (intro aborted [of _ w3]) simp_all
    next
      case (Ok y)
      have "(r, w') = (Ok (), on_resources (register_vm (in_UUID inp) i vm)
            (if isNew then snd (update_subnet_row (ce_last_subnet e) (cms_IP cms) w3) else w3))"
        using assms by (simp add: eqs Ok)
      then have "r = Ok ()" "w' = on_resources (register_vm (in_UUID inp) i vm)
            (if isNew then snd (update_subnet_row (ce_last_subnet e) (cms_IP cms) w3) else w3)"
        by simp_all
      moreover have "add_instance (ce_insert e) vm (int i) (MainDB w) =
          (Ok (), snd (add_instance (ce_insert e) vm (int i) (MainDB w)))"
        using w3(5) Ok by (metis old.unit.exhaust prod.collapse)
      ultimately show thesis using w3(1-4) by (intro launched) simp_all
    qed (use \<open>p \<noteq> Panic\<close> in simp)
  qed (use \<open>q \<noteq> Panic\<close> in simp)
qed

lemma place_vm_cases:
  assumes "place_vm e inp i cms isNew priv pub w = (r, w')"
  obtains (unconfigured) "\<not> is_ok r"
      "w' = snd (guac_configure (ce_guac e) (us_Name (hd (in_Users inp))) (in_UUID inp) (cms_IP cms) priv w)"
      "\<forall>pass. fst (guac_configure (ce_guac e) (us_Name (hd (in_Users inp))) (in_UUID inp) (cms_IP cms) priv w) = Ok pass \<longrightarrow> pass = []"
  | (launching) pass where "pass \<noteq> []"
      "fst (guac_configure (ce_guac e) (us_Name (hd (in_Users inp))) (in_UUID inp) (cms_IP cms) priv w) = Ok pass"
      "launch_vm e inp i cms isNew pub (new_vm inp cms pass)
         (fold (\<lambda>a c. chain_push (vm_undo a) c)
            [ActGuac e (us_Name (hd (in_Users inp))) (in_UUID inp) (cms_IP cms) priv,
             ActAlloc i (in_UUID inp) (new_vm inp cms pass) (requirement_of inp)] empty_chain)
         (fold vm_do
            [ActGuac e (us_Name (hd (in_Users inp))) (in_UUID inp) (cms_IP cms) priv,
             ActAlloc i (in_UUID inp) (new_vm inp cms pass) (requirement_of inp)] w) = (r, w')"
proof -
  obtain g w1 where g: "guac_configure (ce_guac e) (us_Name (hd (in_Users inp))) (in_UUID inp) (cms_IP cms) priv w = (g, w1)"
    by fastforce
  have undo: "vm_undo (ActGuac e (us_Name (hd (in_Users inp))) (in_UUID inp) (cms_IP cms) priv) = undo_guac e (in_UUID inp)"
    "vm_undo (ActAlloc i (in_UUID inp) vm req) = undo_resources i (in_UUID inp) req" for vm req
    by (simp_all add: fun_eq_iff)
  show thesis
  proof (cases "\<exists>pass. g = Ok pass \<and> pass \<noteq> []")
    case False
    with assms g have "w' = w1" "\<not> is_ok r"
      by (auto simp: place_vm_def abort_with_def chain_run_def empty_chain_def split: result.splits if_splits)
    with g False show thesis by (intro unconfigured) simp_all
  next
    case True
    then obtain pass where pass: "g = Ok pass" "pass \<noteq> []" by blast
    with assms g show thesis
      by (intro launching [of pass]) (simp_all add: place_vm_def Let_def undo)
  qed
qed

lemma allocate_cms_subnet_frame: "same_but_subnet w (snd (allocate_cms_subnet e t u w))"
  unfolding allocate_cms_subnet_def
  using new_cms_subnet_frame [of w e] add_cms_subnet_frame [of w e u]
  by (auto intro!: and_then_steps [where P = "same_but_subnet w"])

lemma create_vm_cases:
  assumes "create_vm e inp w = (r, w')"
  obtains (refused) "\<not> is_ok r" "same_but_subnet w w'"
  | (placing) i keys cms isNew wa where
      "select_core_or_fail (requirement_of inp) w = Ok i" "ce_ssh e = Ok keys" "in_Users inp \<noteq> []"
      "allocate_cms_subnet (ce_subnet e) (in_SubnetType inp) (in_UUID inp) w = (Ok (cms, isNew), wa)"
      "same_but_subnet w wa" "place_vm e inp i cms isNew (fst keys) (snd keys) wa = (r, w')"
proof -
  obtain a wa where a: "allocate_cms_subnet (ce_subnet e) (in_SubnetType inp) (in_UUID inp) w = (a, wa)"
    by fastforce
  have frame: "same_but_subnet w wa"
    using allocate_cms_subnet_frame [of w "ce_subnet e" "in_SubnetType inp" "in_UUID inp"] a by simp
  show thesis
  proof (cases "\<exists>i keys cms isNew. select_core_or_fail (requirement_of inp) w = Ok i \<and> ce_ssh e = Ok keys \<and>
      in_Users inp \<noteq> [] \<and> a = Ok (cms, isNew)")
    case True
    with assms a frame show thesis by (auto simp: create_vm_def intro: placing)
  next
    case False
    have "\<not> is_ok r \<and> same_but_subnet w w'"
      using assms False a frame
      by (cases "select_core_or_fail (requirement_of inp) w"; cases "ce_ssh e"; cases a)
        (auto simp: create_vm_def abort_with_def chain_run_def empty_chain_def split: if_splits)
    then show thesis using refused by blast
  qed
qed

lemma select_core_or_fail_Ok:
  assumes "select_core_or_fail req w = Ok i"
  shows "i < length (Cores (Resources w))" "IsAlive (Cores (Resources w) ! i)" "fits req (Cores (Resources w) ! i)"
    "\<forall>j < i. \<not> (IsAlive (Cores (Resources w) ! j) \<and> fits req (Cores (Resources w) ! j))"
  using assms select_core_Some_iff [of req "Resources w" i]
  by (auto simp: select_core_or_fail_def split: option.splits)

section \<open>A failed CreateVM\<close>

lemma guac_configure_failed_view:
  assumes "\<forall>pass. fst (guac_configure e n u ip k w) = Ok pass \<longrightarrow> pass = []"
    "\<forall>db. GuacDB w = Some db \<longrightarrow> wf_guac db" "\<forall>m. g_commit e \<noteq> CommitLost m"
  shows "vm_view (snd (guac_configure e n u ip k w)) = vm_view w"
proof (cases "GuacDB w")
  case (Some db)
  obtain r db' where c: "configure_db e n u ip k db = (r, db')" by fastforce
  with Some have "fst (guac_configure e n u ip k w) = r" by (simp add: guac_configure_def configure_def)
  with assms(1) have r: "\<forall>pass. r = Ok pass \<longrightarrow> pass = []" by simp
  have "wf_guac db" using assms(2) Some by blast
  from this c have "guac_tables db' = guac_tables db"
  proof (cases rule: configure_db_cases)
    case (written pw salt)
    with r assms(3) password_not_empty [OF written(1)] show ?thesis by auto
  qed
  with Some c show ?thesis by (simp add: vm_view_def)
qed (simp add: vm_view_def)

section \<open>Invariants of the whole state\<close>

definition wf_context :: "control_context \<Rightarrow> bool" where
  "wf_context w \<longleftrightarrow> wf_rm (Resources w) \<and> wf_db (MainDB w) \<and>
     (\<forall>g. GuacDB w = Some g \<longrightarrow> wf_guac g) \<and> wf_redis (Redis w)"

lemma wf_db_cong: "inst_info d = inst_info d' \<Longrightarrow> inst_loc d = inst_loc d' \<Longrightarrow> wf_db d = wf_db d'"
  by (simp add: wf_db_def)

lemma wf_context_resources: "wf_context w \<Longrightarrow> wf_rm (f (Resources w)) \<Longrightarrow> wf_context (on_resources f w)"
  by (simp add: wf_context_def)

lemma wf_context_http [inv_intros]: "wf_context w \<Longrightarrow> wf_context (record_http a rq w)"
  by (simp add: wf_context_def)

lemma wf_context_subnet: "wf_context w \<Longrightarrow> same_but_subnet w w' \<Longrightarrow> wf_context w'"
  using wf_db_cong [of "MainDB w'" "MainDB w"] by (simp add: wf_context_def same_but_subnet_def)

lemma wf_context_subnet_row [inv_intros]: "wf_context w \<Longrightarrow> wf_context (snd (update_subnet_row c s w))"
  using wf_context_subnet [OF _ same_but_subnet_update [OF same_but_subnet_refl]] by blast

lemma wf_context_guac [inv_intros]:
  "wf_context w \<Longrightarrow> wf_context (snd (guac_configure e n u ip k w))"
  "wf_context w \<Longrightarrow> wf_context (snd (guac_cleanup ce u w))"
  by (auto simp: wf_context_def wf_configure_db wf_cleanup_db)

lemma wf_context_redis_store [inv_intros]: "wf_context w \<Longrightarrow> wf_context (snd (redis_store e i t w))"
  using wf_redis_step [of "Redis w" "StoreOp e i t"] by (simp add: wf_context_def)

lemma redis_remove_frame [simp]:
  "Resources (snd (redis_remove e u w)) = Resources w" "MainDB (snd (redis_remove e u w)) = MainDB w"
  "GuacDB (snd (redis_remove e u w)) = GuacDB w"
  "Redis (snd (redis_remove e u w)) = snd (remove_vm_info e u (Redis w))"
  by (simp_all add: redis_remove_def split: prod.split)

lemma redis_update_frame [simp]:
  "Resources (snd (redis_update e u s t w)) = Resources w" "MainDB (snd (redis_update e u s t w)) = MainDB w"
  "GuacDB (snd (redis_update e u s t w)) = GuacDB w"
  "Redis (snd (redis_update e u s t w)) = snd (update_vm_status e u s t (Redis w))"
  by (simp_all add: redis_update_def split: prod.split)

lemma repo_delete_frame [simp]:
  "Resources (snd (repo_delete e u w)) = Resources w" "Redis (snd (repo_delete e u w)) = Redis w"
  "GuacDB (snd (repo_delete e u w)) = GuacDB w"
  "MainDB (snd (repo_delete e u w)) = snd (delete_instance e u (MainDB w))"
  "fst (repo_delete e u w) = fst (delete_instance e u (MainDB w))"
  by (simp_all add: repo_delete_def split: prod.split)

lemma wf_context_redis [inv_intros]:
  "wf_context w \<Longrightarrow> wf_context (snd (redis_remove e u w))"
  "wf_context w \<Longrightarrow> wf_context (snd (redis_update e u s t w))"
  using wf_redis_step [of "Redis w" "RemoveOp e u"] wf_redis_step [of "Redis w" "UpdateOp e u s t"]
  by (simp_all add: wf_context_def)

lemma wf_context_repo [inv_intros]:
  "wf_context w \<Longrightarrow> wf_context (snd (repo_add te vm i w))"
  "wf_context w \<Longrightarrow> wf_context (snd (repo_delete te u w))"
  using repo_step_wf [of "MainDB w" "AddOp te vm (int i)"] repo_step_wf [of "MainDB w" "DeleteOp te u"]
  by (simp_all add: wf_context_def)

lemma wf_context_undo [inv_intros]:
  "wf_context w \<Longrightarrow> wf_context (vm_undo a w)"
  by (cases a) (simp_all add: undo_guac_def undo_resources_def inv_intros wf_context_resources
      wf_context_def [THEN iffD1, THEN conjunct1])

lemma chain_run_invariant:
  assumes "\<forall>f \<in> set (steps c). \<forall>s. P s \<longrightarrow> P (f s)" "P s"
  shows "P (fst (chain_run c s))"
proof -
  have "P (fold (\<lambda>f. f) fs s)" if "\<forall>f \<in> set fs. \<forall>s. P s \<longrightarrow> P (f s)" "P s" for fs s
    using that by (induction fs arbitrary: s) auto
  from this [of "rev (steps c)"] assms show ?thesis by (simp add: chain_run_def run_from_rev)
qed

lemma steps_of_chain: "steps (fold (\<lambda>a c. chain_push (f a) c) as c) = steps c @ map f as"
  by (induction as arbitrary: c) (simp_all add: chain_push_def)

lemma wf_context_chain:
  "wf_context w \<Longrightarrow> wf_context (fst (chain_run (fold (\<lambda>a c. chain_push (vm_undo a) c) as empty_chain) w))"
  by (rule chain_run_invariant) (auto simp: steps_of_chain empty_chain_def wf_context_undo)

lemma launch_vm_wf:
  assumes "wf_context w" "i < length (Cores (Resources w))"
    and chain: "\<And>v. wf_context v \<Longrightarrow> wf_context (fst (chain_run chain v))"
  shows "wf_context (snd (launch_vm e inp i cms isNew key vm chain w))"
proof -
  define w1 where "w1 = snd (redis_store (ce_redis e) (initial_status inp cms) (ce_now e) w)"
  have w1: "wf_context w1" using assms(1) by (simp add: w1_def wf_context_redis_store)
  let ?req = "build_core_create_vm_request inp cms key"
  obtain q w2 where q: "core_create (ce_core e) i ?req w1 = (q, w2)" by fastforce
  then have w2: "wf_context w2" "Resources w2 = Resources w"
    using core_create_eqs(2) [of "ce_core e" i ?req w1] w1 wf_context_http by (simp_all add: w1_def)
  obtain p w3 where p: "repo_add (ce_insert e) vm i w2 = (p, w3)" by fastforce
  then have w3: "wf_context w3" "Resources w3 = Resources w"
    using wf_context_repo(1) [OF w2(1), of "ce_insert e" vm i] repo_add_frame(1) [of "ce_insert e" vm i w2] w2(2)
    by simp_all
  define w4 where "w4 = (if isNew then snd (update_subnet_row (ce_last_subnet e) (cms_IP cms) w3) else w3)"
  have w4: "wf_context w4" "Resources w4 = Resources w"
    using w3 wf_context_subnet_row by (simp_all add: w4_def)
  have "wf_context (on_resources (register_vm (in_UUID inp) i vm) w4)"
    using w4 assms(2) by (intro wf_context_resources wf_rm_register) (simp_all add: wf_context_def)
  then show ?thesis
    using chain [OF w2(1)] chain [OF w3(1)] w2(1) w3(1)
    by (cases q; cases p) (simp_all add: launch_vm_def abort_with_def q p Let_def flip: w1_def w4_def)
qed

lemma wf_context_create [inv_intros]:
  assumes "wf_context w"
  shows "wf_context (snd (create_vm e inp w))"
proof -
  obtain r w' where run: "create_vm e inp w = (r, w')" by fastforce
  then have "wf_context w'"
  proof (cases rule: create_vm_cases)
    case refused
    with assms show ?thesis using wf_context_subnet by blast
  next
    case (placing i keys cms isNew wa)
    have wa: "wf_context wa" using assms placing(5) by (rule wf_context_subnet)
    have i: "i < length (Cores (Resources wa))"
      using select_core_or_fail_Ok(1) [OF placing(1)] placing(5) by (simp add: same_but_subnet_def)
    from placing(6) show ?thesis
    proof (cases rule: place_vm_cases)
      case unconfigured
      with wa show ?thesis by (simp add: wf_context_guac)
    next
      case (launching pass)
      let ?g = "ActGuac e (us_Name (hd (in_Users inp))) (in_UUID inp) (cms_IP cms) (fst keys)"
      let ?as = "[?g, ActAlloc i (in_UUID inp) (new_vm inp cms pass) (requirement_of inp)]"
      have "wf_context (vm_do ?g wa)" using wa by (simp add: wf_context_guac)
      then have "wf_context (fold vm_do ?as wa)"
        by (simp add: wf_context_resources wf_rm_allocate new_vm_def wf_context_def)
      moreover have "i < length (Cores (Resources (fold vm_do ?as wa)))" using i by simp
      ultimately have "wf_context (snd (launch_vm e inp i cms isNew (snd keys) (new_vm inp cms pass)
          (fold (\<lambda>a c. chain_push (vm_undo a) c) ?as empty_chain) (fold vm_do ?as wa)))"
        using wf_context_chain by (rule launch_vm_wf)
      with launching(3) show ?thesis by simp
    qed
  qed
  with run show ?thesis by simp
qed

lemma find_core_wf:
  assumes "wf_context w" "find_core_by_vm_uuid e u w = (c, w')"
  shows "wf_context w'" "c = Some i \<Longrightarrow> i < length (Cores (Resources w'))"
    "Cores (Resources w') = Cores (Resources w)"
proof -
  have "wf_context w' \<and> (\<forall>i. c = Some i \<longrightarrow> i < length (Cores (Resources w'))) \<and>
      Cores (Resources w') = Cores (Resources w)"
  proof (cases "VMLocation (Resources w) u")
    case None
    show ?thesis
    proof (cases "get_instance_location e u (MainDB w)")
      case (Ok k)
      show ?thesis
      proof (cases "k < 0 \<or> int (length (Cores (Resources w))) \<le> k")
        case False
        then have "nat k < length (Cores (Resources w))" by auto
        moreover from this assms(1) have "wf_rm (cache_location u (nat k) (Resources w))"
          by (simp add: wf_context_def wf_rm_def cache_location_def)
        ultimately show ?thesis using assms False None Ok
          by (auto simp: find_core_by_vm_uuid_def wf_context_resources cache_location_def)
      qed (use assms None Ok in \<open>simp add: find_core_by_vm_uuid_def\<close>)
    qed (use assms None in \<open>simp_all add: find_core_by_vm_uuid_def\<close>)
  next
    case (Some i)
    with assms show ?thesis by (auto simp: find_core_by_vm_uuid_def wf_context_def wf_rm_def)
  qed
  then show "wf_context w'" "c = Some i \<Longrightarrow> i < length (Cores (Resources w'))"
    "Cores (Resources w') = Cores (Resources w)" by blast+
qed

lemma with_core_wf [inv_intros]: "wf_context w \<Longrightarrow> wf_context (snd (with_core err e u w))"
  using find_core_wf(1) [of w e u] by (simp add: with_core_def split: prod.split option.split)

lemma wf_context_cms_delete [inv_intros]:
  "wf_context w \<Longrightarrow> wf_context (snd (delete_cms_subnet h a u w))"
  unfolding delete_cms_subnet_def
  by (rule and_then_steps [where P = wf_context])
    (auto simp: Let_def wf_context_http split: prod.split intro!: and_then_steps [where P = wf_context])

lemma wf_context_delete [inv_intros]:
  assumes "wf_context w"
  shows "wf_context (snd (delete_vm e u w))"
  unfolding delete_vm_def Let_def
  using assms
  by (auto simp: inv_intros split: prod.split intro!: and_then_steps [where P = wf_context])

lemma wf_context_start [inv_intros]:
  assumes "wf_context w"
  shows "wf_context (snd (start_vm e a u w))"
  unfolding start_vm_def Let_def
  using assms
  by (auto simp: inv_intros split: prod.split intro!: and_then_steps [where P = wf_context])

lemma wf_context_shutdown [inv_intros]:
  assumes "wf_context w"
  shows "wf_context (snd (shutdown_vm e a re t u w))"
proof -
  have "wf_context v \<Longrightarrow> wf_context (on_resources (\<lambda>rm. snd (unregister_alive u rm)) v)" for v
    by (rule wf_context_resources) (simp_all add: wf_context_def wf_rm_unregister)
  then show ?thesis
    unfolding shutdown_vm_def Let_def
    using assms
    by (auto simp: inv_intros split: prod.split intro!: and_then_steps [where P = wf_context])
qed

lemma wf_context_status [inv_intros]:
  assumes "wf_context w"
  shows "wf_context (snd (get_vm_status who what call e a u w))"
  unfolding get_vm_status_def Let_def
  using assms
  by (auto simp: inv_intros split: prod.split intro!: and_then_steps [where P = wf_context])

lemma wf_context_token [inv_intros]:
  assumes "wf_context w"
  shows "wf_context (snd (get_guacamole_token e a u w))"
  unfolding get_guacamole_token_def Let_def
  using assms
  by (auto simp: inv_intros split: prod.split option.split intro!: and_then_steps [where P = wf_context])

section \<open>A demonstration run\<close>

definition demo_context :: control_context where
  "demo_context = \<lparr>Resources = demo_rm, MainDB = empty_db, GuacDB = Some empty_guac, Redis = Map.empty,
     Last_subnet = ''10.0.0.'', GuacBaseURL = ''http://guac'', trace = []\<rparr>"

definition demo_input :: create_vm_input where
  "demo_input = \<lparr>in_UUID = ''vm-1'', in_DomType = ''kvm'', in_DomName = ''d'', in_OS = ''ubuntu'',
     in_CPU = 2, in_Memory = 4096, in_Disk = 20480, in_IPs = None,
     in_Users = [\<lparr>us_Name = ''user'', us_Groups = [], us_Password = ''p'', us_SSH = None\<rparr>],
     in_SubnetType = ''New''\<rparr>"

definition ok_answer :: "(string \<times> json) list \<Rightarrow> http_outcome" where
  "ok_answer kvs = Answered \<lparr>h_status = 200, h_status_text = ''200 OK'', h_raw = [], h_body = Doc (JObj kvs)\<rparr>"

definition demo_cms :: cms_new_instance_response where
  "demo_cms = \<lparr>cms_IP = ''10.0.1.2'', cms_MacAddr = ''52:54'', cms_SdnUUID = ''sdn''\<rparr>"

definition demo_create_env :: create_env where
  "demo_create_env = \<lparr>ce_ssh = Ok (''priv'', ''pub''),
     ce_subnet = \<lparr>ns_host = ''cms'',
       ns_cms = ok_answer [(''IP'', JStr ''10.0.1.2''), (''macAddr'', JStr ''52:54''), (''sdnUUID'', JStr ''sdn'')],
       ns_reserve = Committed, ns_rollback = Committed\<rparr>,
     ce_guac = demo_guac_env, ce_guac_cleanup = demo_cleanup_env, ce_redis = redis_ok, ce_now = 0,
     ce_core = ok_answer [], ce_insert = no_faults, ce_last_subnet = Committed\<rparr>"

lemma add_instance_no_faults:
  assumes "wf_db db" "db_view db (VM_UUID vm) = None"
  shows "fst (add_instance no_faults vm k db) = Ok ()"
proof -
  have "info_map db (VM_UUID vm) = None"
    using assms same_keys [OF assms(1), of "VM_UUID vm"] by (auto simp: db_view_def split: option.splits)
  moreover from this have "map_of (inst_loc db) (VM_UUID vm) = None" using same_keys [OF assms(1)] by simp
  ultimately show ?thesis
    by (simp add: add_instance_def no_faults_def insert_info_def insert_loc_def row_of_info_def
        info_map_None_iff loc_None_iff)
qed

lemma db_view_cong: "inst_info d = inst_info d' \<Longrightarrow> inst_loc d = inst_loc d' \<Longrightarrow> db_view d = db_view d'"
  by (simp add: db_view_def info_map_def fun_eq_iff)

lemma demo_request: "do_request create_vm_response_fields zero_create_vm_response (ok_answer []) = Ok zero_create_vm_response"
  by (simp add: ok_answer_def do_request_def unmarshal_def decode_struct_def)

lemma launch_vm_runs:
  assumes "do_request create_vm_response_fields zero_create_vm_response (ce_core e) = Ok resp"
    "fst (add_instance (ce_insert e) vm (int i) (MainDB w)) = Ok ()"
  shows "fst (launch_vm e inp i cms isNew key vm chain w) = Ok ()"
proof -
  define w1 where "w1 = snd (redis_store (ce_redis e) (initial_status inp cms) (ce_now e) w)"
  obtain w2 where w2: "core_create (ce_core e) i (build_core_create_vm_request inp cms key) w1 = (Ok resp, w2)"
    using core_create_eqs(1) assms(1) by (metis prod.collapse)
  then have "MainDB w2 = MainDB w"
    using core_create_eqs(2) [of "ce_core e" i "build_core_create_vm_request inp cms key" w1]
    by (simp add: w1_def)
  then obtain w3 where "repo_add (ce_insert e) vm i w2 = (Ok (), w3)"
    using repo_add_frame(5) [of "ce_insert e" vm i w2] assms(2) by (metis prod.collapse)
  with w2 show ?thesis by (simp add: launch_vm_def Let_def flip: w1_def)
qed

lemma create_vm_runs:
  assumes "select_core_or_fail (requirement_of inp) w = Ok i" "ce_ssh e = Ok keys" "in_Users inp \<noteq> []"
    and sub: "allocate_cms_subnet (ce_subnet e) (in_SubnetType inp) (in_UUID inp) w = (Ok (cms, isNew), wa)"
    and guac: "GuacDB w = Some g" "configure_db (ce_guac e) (us_Name (hd (in_Users inp))) (in_UUID inp)
      (cms_IP cms) (fst keys) g = (Ok pass, g')" "pass \<noteq> []"
    and core: "do_request create_vm_response_fields zero_create_vm_response (ce_core e) = Ok resp"
    and db: "ce_insert e = no_faults" "wf_db (MainDB w)" "db_view (MainDB w) (in_UUID inp) = None"
  shows "fst (create_vm e inp w) = Ok ()"
proof -
  have wa: "same_but_subnet w wa"
    using allocate_cms_subnet_frame [of w "ce_subnet e" "in_SubnetType inp" "in_UUID inp"] sub by simp
  obtain r w' where run: "place_vm e inp i cms isNew (fst keys) (snd keys) wa = (r, w')" by fastforce
  from run have "r = Ok ()"
  proof (cases rule: place_vm_cases)
    case unconfigured
    with guac wa show ?thesis by (simp add: guac_configure_def configure_def same_but_subnet_def)
  next
    case (launching pass')
    have "wf_db (MainDB wa)" "db_view (MainDB wa) (in_UUID inp) = None"
      using db(2,3) wa wf_db_cong [of "MainDB wa" "MainDB w"] db_view_cong [of "MainDB wa" "MainDB w"]
      by (simp_all add: same_but_subnet_def)
    then have "fst (add_instance (ce_insert e) (new_vm inp cms pass') (int i) (MainDB wa)) = Ok ()"
      unfolding db(1) by (intro add_instance_no_faults) (simp_all add: new_vm_def)
    then have "fst (launch_vm e inp i cms isNew (snd keys) (new_vm inp cms pass') chain (fold vm_do
       [ActGuac e (us_Name (hd (in_Users inp))) (in_UUID inp) (cms_IP cms) (fst keys),
        ActAlloc i (in_UUID inp) (new_vm inp cms pass') (requirement_of inp)] wa)) = Ok ()" for chain
      by (intro launch_vm_runs [OF core]) simp
    with launching(3) show ?thesis by (metis fst_conv)
  qed
  with assms(1-4) run show ?thesis by (simp add: create_vm_def)
qed

lemma wf_demo_context: "wf_context demo_context"
  by (simp add: wf_context_def demo_context_def demo_facts wf_empty_db wf_empty_guac wf_redis_def)

lemma find_field_cms [go_simps]:
  "find_field cms_response_fields ''IP'' = Some (str_field (\<lambda>s r. r\<lparr>cms_IP := s\<rparr>))"
  "find_field cms_response_fields ''macAddr'' = Some (str_field (\<lambda>s r. r\<lparr>cms_MacAddr := s\<rparr>))"
  "find_field cms_response_fields ''sdnUUID'' = Some (str_field (\<lambda>s r. r\<lparr>cms_SdnUUID := s\<rparr>))"
  by (simp_all add: find_field_def cms_response_fields_def)

lemma demo_subnet:
  obtains wa where "allocate_cms_subnet (ce_subnet demo_create_env) ''New'' u demo_context = (Ok (demo_cms, True), wa)"
proof -
  have "find_subnet ''10.0.0.'' = Ok ''10.0.1.''"
    using find_subnet_wf [of "Subnet 10 0 0" "[]"]
    by (simp add: subnet_str_def subnet_succ_def nat_digits.simps wf_subnet_def last_of_all_def go_simps)
  moreover have "cms_answer who cms_response_fields zero_cms_response (ns_cms (ce_subnet demo_create_env)) = Ok demo_cms" for who
    by (simp add: cms_answer_def demo_create_env_def ok_answer_def unmarshal_def decode_struct_def
        go_simps demo_cms_def zero_cms_response_def)
  ultimately have "fst (allocate_cms_subnet (ce_subnet demo_create_env) ''New'' u demo_context) = Ok (demo_cms, True)"
    by (simp add: allocate_cms_subnet_def new_cms_subnet_def demo_context_def update_subnet_row_def
        demo_create_env_def request_reserved_def cms_new_instance_def request_new_instance_def)
  then show thesis using that by (metis prod.collapse)
qed

lemma demo_create_runs: "fst (create_vm demo_create_env demo_input demo_context) = Ok ()"
proof -
  obtain wa where sub: "allocate_cms_subnet (ce_subnet demo_create_env) ''New'' ''vm-1'' demo_context = (Ok (demo_cms, True), wa)"
    by (rule demo_subnet)
  obtain pass where pass: "pass \<noteq> []" "configure_db demo_guac_env ''user'' ''vm-1'' (cms_IP demo_cms) ''priv'' empty_guac =
      (Ok pass, snd (configure_db demo_guac_env ''user'' ''vm-1'' (cms_IP demo_cms) ''priv'' empty_guac))"
    by (rule demo_configure)
  have "requirement_of demo_input = demo_req" by (simp add: requirement_of_def demo_input_def demo_req_def)
  then have "select_core_or_fail (requirement_of demo_input) demo_context = Ok 1"
    by (simp add: select_core_or_fail_def demo_context_def demo_facts)
  moreover have "db_view empty_db ''vm-1'' = None" by (simp add: db_view_def empty_db_def info_map_def)
  ultimately show ?thesis
    using sub pass
    by (intro create_vm_runs [where i = 1 and keys = "(''priv'', ''pub'')" and cms = demo_cms and isNew = True
          and wa = wa and g = empty_guac and pass = pass and resp = zero_create_vm_response])
      (simp_all add: demo_input_def demo_create_env_def demo_context_def demo_request wf_empty_db)
qed

end
