(* ===== verification/VmProperties.thy ===== *)
theory VmProperties
  imports VmLifecycle
begin

text \<open>
  The properties of the VM operations: what \<open>CreateVM\<close> establishes and in which order, what a
  failed one restores, the invariants over any history of service calls, and what deleting
  and stopping a VM do and do not undo.
\<close>

section \<open>Histories of service calls\<close>

datatype vm_op =
    OpCreate create_env create_vm_input
  | OpDelete delete_env uuid
  | OpStart tx_env http_outcome uuid
  | OpShutdown tx_env http_outcome redis_env int64 uuid
  | OpCpu tx_env http_outcome uuid
  | OpMemory tx_env http_outcome uuid
  | OpDisk tx_env http_outcome uuid
  | OpToken tx_env http_outcome uuid

fun vm_step :: "vm_op \<Rightarrow> control_context \<Rightarrow> control_context" where
  "vm_step (OpCreate e inp) w = snd (create_vm e inp w)"
| "vm_step (OpDelete e u) w = snd (delete_vm e u w)"
| "vm_step (OpStart e a u) w = snd (start_vm e a u w)"
| "vm_step (OpShutdown e a re t u) w = snd (shutdown_vm e a re t u w)"
| "vm_step (OpCpu e a u) w = snd (get_vm_cpu_info e a u w)"
| "vm_step (OpMemory e a u) w = snd (get_vm_memory_info e a u w)"
| "vm_step (OpDisk e a u) w = snd (get_vm_disk_info e a u w)"
| "vm_step (OpToken e a u) w = snd (get_guacamole_token e a u w)"

lemma wf_context_step: "wf_context w \<Longrightarrow> wf_context (vm_step c w)"
  by (cases c) (simp_all add: inv_intros get_vm_cpu_info_def get_vm_memory_info_def get_vm_disk_info_def)

interpretation service: invariant_steps vm_step wf_context "\<lambda>_. True"
  by unfold_locales (rule wf_context_step)

text \<open>Whatever service calls are made, with whatever failures of the databases, Redis, the
  CMS and the cores, the state stays well-formed: the VM tables of the cores are indexed by
  the UUIDs of their VMs, every cached location is the index of an existing core, the
  instance tables stay in step, the Guacamole tables keep their integrity, and every Redis
  document decodes to the VM it is stored under.\<close>

theorem service_keeps_invariants:
  assumes "wf_context w"
  shows "wf_context (fold vm_step ops w)"
  using assms by (rule service.any_history) simp

theorem service_keeps_invariants_witness:
  "wf_context (fold vm_step [OpCreate demo_create_env demo_input,
     OpStart no_faults (NotSent ''timeout'') ''vm-1'', OpCreate demo_create_env demo_input] demo_context)"
  by (rule service_keeps_invariants [OF wf_demo_context])

section \<open>CreateVM\<close>

lemma create_vm_established:
  assumes wf: "wf_context w" and run: "create_vm e inp w = (Ok (), w')"
  shows "\<exists>i cms pass. i < length (Cores (Resources w)) \<and>
    IsAlive (Cores (Resources w) ! i) \<and> fits (requirement_of inp) (Cores (Resources w) ! i) \<and>
    (\<forall>j < i. \<not> (IsAlive (Cores (Resources w) ! j) \<and> fits (requirement_of inp) (Cores (Resources w) ! j))) \<and>
    Resources w' = register_vm (in_UUID inp) i (new_vm inp cms pass)
      (allocate_resources i (in_UUID inp) (new_vm inp cms pass) (requirement_of inp) (Resources w)) \<and>
    db_view (MainDB w) (in_UUID inp) = None \<and>
    db_view (MainDB w') = (db_view (MainDB w))(in_UUID inp \<mapsto> (stored (new_vm inp cms pass), int i)) \<and>
    (\<exists>g. GuacDB w' = Some g \<and> find_entity (in_UUID inp) g \<noteq> None) \<and>
    (re_set (ce_redis e) = Committed \<longrightarrow>
       get_vm_info redis_ok (in_UUID inp) (Redis w') = Ok (initial_status inp cms))"
  using run
proof (cases rule: create_vm_cases)
  case refused
  then show ?thesis by simp
next
  case (placing i keys cms isNew wa)
  note wa = placing(5) [unfolded same_but_subnet_def]
  note core = select_core_or_fail_Ok [OF placing(1)]
  from placing(6) show ?thesis
  proof (cases rule: place_vm_cases)
    case unconfigured
    then show ?thesis by simp
  next
    case (launching pass)
    let ?vm = "new_vm inp cms pass"
    obtain g r g' where g: "GuacDB wa = Some g"
      "configure_db (ce_guac e) (us_Name (hd (in_Users inp))) (in_UUID inp) (cms_IP cms) (fst keys) g = (Ok pass, g')"
      using launching(1,2) by (cases "GuacDB wa") (auto simp: guac_configure_def configure_def split: prod.splits)
    from launching(3) show ?thesis
    proof (cases rule: launch_vm_cases)
      case aborted
      then show ?thesis by simp
    next
      case launched
      have "wf_db (MainDB wa)" using wf wa wf_db_cong [of "MainDB wa" "MainDB w"] by (simp add: wf_context_def)
      from mysql.add_ok [OF this, of "ce_insert e" ?vm "int i"] launched(4)
      have db: "db_view (MainDB wa) (in_UUID inp) = None"
        "db_view (MainDB w') = (db_view (MainDB wa))(in_UUID inp \<mapsto> (stored ?vm, int i))"
        using db_view_cong [OF launched(5,6)] by (simp_all add: new_vm_def)
      have "db_view (MainDB wa) = db_view (MainDB w)" using wa by (intro db_view_cong) simp_all
      moreover have "Resources w' = register_vm (in_UUID inp) i ?vm
          (allocate_resources i (in_UUID inp) ?vm (requirement_of inp) (Resources w))"
        using launched(2) wa by simp
      moreover have "GuacDB w' = Some g'" using launched(3) g by simp
      moreover have "find_entity (in_UUID inp) g' \<noteq> None"
        using wf wa g launching(1) by (intro configure_db_user [of g]) (simp_all add: wf_context_def)
      moreover have "get_vm_info redis_ok (in_UUID inp) (Redis w') = Ok (initial_status inp cms)"
        if "re_set (ce_redis e) = Committed"
        using launched(7) that
        by (simp add: store_vm_info_def redis_set_def initial_status_def get_vm_info_def load_vm_info_def redis_ok_def)
      ultimately show ?thesis using core db by auto
    qed
  qed
qed

lemma create_vm_redis:
  assumes "create_vm e inp w = (Ok (), w')"
  shows "\<exists>cms. Redis w' = (case re_set (ce_redis e) of
      CommitFailed _ \<Rightarrow> Redis w
    | _ \<Rightarrow> (Redis w)(in_UUID inp \<mapsto> marshal_redis_vm_info (stored_form (initial_status inp cms) (ce_now e))))"
  using assms
proof (cases rule: create_vm_cases)
  case (placing i keys cms isNew wa)
  from placing(6) show ?thesis
  proof (cases rule: place_vm_cases)
    case (launching pass)
    from launching(3) show ?thesis
    proof (cases rule: launch_vm_cases)
      case launched
      from launched(7) placing(5) show ?thesis
        by (intro exI [of _ cms], cases "re_set (ce_redis e)")
          (simp_all add: store_vm_info_def redis_set_def initial_status_def same_but_subnet_def)
    qed simp
  qed simp
qed simp

text \<open>C1: when \<open>CreateVM\<close> returns no error, the VM is on the first alive core with enough free
  memory, CPU and disk; that core's VM table and free counters, the location map and the list
  of running VMs are updated for it; the database, which did not know the UUID, now holds the
  VM (but for its MAC address) and the index of that core; Guacamole has a user for it; and
  Redis, unless writing it failed, holds its initial status.\<close>

theorem create_vm_success:
  assumes wf: "wf_context w" and run: "create_vm e inp w = (Ok (), w')"
  shows "\<exists>i cms pass. i < length (Cores (Resources w)) \<and>
    IsAlive (Cores (Resources w) ! i) \<and> fits (requirement_of inp) (Cores (Resources w) ! i) \<and>
    (\<forall>j < i. \<not> (IsAlive (Cores (Resources w) ! j) \<and> fits (requirement_of inp) (Cores (Resources w) ! j))) \<and>
    Resources w' = register_vm (in_UUID inp) i (new_vm inp cms pass)
      (allocate_resources i (in_UUID inp) (new_vm inp cms pass) (requirement_of inp) (Resources w)) \<and>
    db_view (MainDB w) (in_UUID inp) = None \<and>
    db_view (MainDB w') = (db_view (MainDB w))(in_UUID inp \<mapsto> (stored (new_vm inp cms pass), int i)) \<and>
    (\<exists>g. GuacDB w' = Some g \<and> find_entity (in_UUID inp) g \<noteq> None) \<and>
    (re_set (ce_redis e) = Committed \<longrightarrow>
       get_vm_info redis_ok (in_UUID inp) (Redis w') = Ok (initial_status inp cms))"
  using assms by (rule create_vm_established)

theorem create_vm_success_witness:
  "\<exists>i. db_view (MainDB (snd (create_vm demo_create_env demo_input demo_context))) ''vm-1'' \<noteq> None \<and>
     VMLocation (Resources (snd (create_vm demo_create_env demo_input demo_context))) ''vm-1'' = Some i"
proof -
  have "create_vm demo_create_env demo_input demo_context =
      (Ok (), snd (create_vm demo_create_env demo_input demo_context))"
    using demo_create_runs by (simp add: prod_eq_iff)
  from create_vm_success [OF wf_demo_context this] show ?thesis
    by (auto simp: demo_input_def register_vm_def)
qed

lemma add_failed_unchanged:
  assumes "\<not> is_ok (fst (add_instance e vm k db))" "\<forall>m. tx_commit e \<noteq> CommitLost m"
  shows "snd (add_instance e vm k db) = db"
proof -
  obtain q d where q: "add_instance e vm k db = (q, d)" by fastforce
  then have "d = db"
  proof (cases rule: add_instance_cases)
    case written
    with assms q show ?thesis
      by (cases "tx_commit e") (auto simp: add_instance_def split: option.splits result.splits prod.splits)
  qed
  with q show ?thesis by simp
qed

lemma chain_frame:
  fixes e :: create_env
  defines "chain i u n ip k vm req \<equiv>
    fold (\<lambda>a c. chain_push (vm_undo a) c) [ActGuac e n u ip k, ActAlloc i u vm req] empty_chain"
  shows "Resources (fst (chain_run (chain i u n ip k vm req) w)) = deallocate_resources i u req (Resources w)"
    "MainDB (fst (chain_run (chain i u n ip k vm req) w)) = MainDB w"
    "GuacDB (fst (chain_run (chain i u n ip k vm req) w)) =
       map_option (\<lambda>db. snd (cleanup_db (ce_guac_cleanup e) u db)) (GuacDB w)"
  by (simp_all add: chain_def chain_run_def chain_push_def empty_chain_def undo_guac_def undo_resources_def numeral_2_eq_2)

text \<open>C2: a \<open>CreateVM\<close> that fails, at whatever step, leaves the resource manager (as its readers
  see it), the Guacamole tables (ids consumed aside) and the instance tables exactly as they
  were, for a UUID that is new to the cores and to Guacamole, when the rollback calls
  themselves get through and no commit is reported as failed that went through.\<close>

theorem create_vm_failure_restores:
  assumes run: "create_vm e inp w = (r, w')" "\<not> is_ok r"
    and guac: "\<forall>db. GuacDB w = Some db \<longrightarrow> wf_guac db \<and> fresh_uuid (in_UUID inp) db"
      "\<forall>m. g_commit (ce_guac e) \<noteq> CommitLost m" "cleanup_applies (ce_guac_cleanup e)"
    and fresh: "\<forall>c \<in> set (Cores (Resources w)). vms_of c (in_UUID inp) = None"
    and insert: "\<forall>m. tx_commit (ce_insert e) \<noteq> CommitLost m"
  shows "vm_view w' = vm_view w \<and> inst_info (MainDB w') = inst_info (MainDB w) \<and>
         inst_loc (MainDB w') = inst_loc (MainDB w)"
  using run(1)
proof (cases rule: create_vm_cases)
  case refused
  then show ?thesis by (simp add: same_but_subnet_def vm_view_def)
next
  case (placing i keys cms isNew wa)
  note wa = placing(5) [unfolded same_but_subnet_def]
  have view: "vm_view wa = vm_view w" using wa by (simp add: vm_view_def)
  from placing(6) show ?thesis
  proof (cases rule: place_vm_cases)
    case unconfigured
    have "vm_view w' = vm_view wa"
      unfolding unconfigured(2) using unconfigured(3) guac(1,2) wa
      by (intro guac_configure_failed_view) auto
    with view unconfigured(2) wa show ?thesis by simp
  next
    case (launching pass)
    let ?as = "[ActGuac e (us_Name (hd (in_Users inp))) (in_UUID inp) (cms_IP cms) (fst keys),
             ActAlloc i (in_UUID inp) (new_vm inp cms pass) (requirement_of inp)]"
    have "i < length (Cores (Resources wa))" using select_core_or_fail_Ok(1) [OF placing(1)] wa by simp
    then have "vm_can (?as ! 1) (fold vm_do (take 1 ?as) wa)"
      using fresh wa by simp
    moreover have "vm_can (?as ! 0) (fold vm_do (take 0 ?as) wa)"
      using guac wa by (simp add: can_configure_def split: option.split)
    ultimately have can: "\<forall>j < length ?as. vm_can (?as ! j) (fold vm_do (take j ?as) wa)"
      by (auto simp: less_Suc_eq)
    from launching(3) show ?thesis
    proof (cases rule: launch_vm_cases)
      case (aborted err w1)
      have "vm_view w1 = vm_view (fold vm_do ?as wa)" using aborted(3,4) by (simp add: vm_view_def)
      from steps.chain_restores [OF can this] aborted(2) have v: "vm_view w' = vm_view wa" by simp
      have db: "MainDB w' = MainDB w1" unfolding aborted(2) by (rule chain_frame)
      have "MainDB (fold vm_do ?as wa) = MainDB wa" by simp
      with aborted(5) add_failed_unchanged [OF _ insert] have "MainDB w1 = MainDB wa" by auto
      with v view db wa show ?thesis by simp
    next
      case launched
      with run(2) show ?thesis by simp
    qed
  qed
qed

lemma launch_vm_core_fails:
  assumes "ce_core e = NotSent m"
  shows "\<not> is_ok (fst (launch_vm e inp i cms isNew key vm chain w))"
proof -
  define w1 where "w1 = snd (redis_store (ce_redis e) (initial_status inp cms) (ce_now e) w)"
  obtain w2 where "core_create (ce_core e) i (build_core_create_vm_request inp cms key) w1 =
      (Fail (wrap ''failed to send request'' m), w2)"
    using assms core_create_eqs(1) [of "ce_core e" i "build_core_create_vm_request inp cms key" w1]
    by (metis (no_types, lifting) do_request_def http_outcome.simps(11) prod.collapse)
  then show ?thesis by (simp add: launch_vm_def Let_def abort_with_def flip: w1_def)
qed

lemma create_vm_core_fails:
  assumes "ce_core e = NotSent m"
  shows "\<not> is_ok (fst (create_vm e inp w))"
proof -
  obtain r w' where run: "create_vm e inp w = (r, w')" by fastforce
  then have "\<not> is_ok r"
  proof (cases rule: create_vm_cases)
    case (placing i keys cms isNew wa)
    from placing(6) show ?thesis
    proof (cases rule: place_vm_cases)
      case (launching pass)
      then show ?thesis using launch_vm_core_fails [OF assms] by (metis fst_conv)
    qed
  qed
  with run show ?thesis by simp
qed

theorem create_vm_failure_restores_witness:
  "\<exists>r w'. create_vm (demo_create_env\<lparr>ce_core := NotSent ''refused''\<rparr>) demo_input demo_context = (r, w') \<and>
     \<not> is_ok r \<and> vm_view w' = vm_view demo_context"
proof -
  let ?e = "demo_create_env\<lparr>ce_core := NotSent ''refused''\<rparr>"
  obtain r w' where run: "create_vm ?e demo_input demo_context = (r, w')" by fastforce
  have fail: "\<not> is_ok r" using create_vm_core_fails [of ?e "''refused''" demo_input demo_context] run by simp
  have "fresh_uuid (in_UUID demo_input) empty_guac" "cleanup_applies demo_cleanup_env"
    by (simp_all add: fresh_uuid_def find_entity_def empty_guac_def cleanup_applies_def demo_cleanup_env_def)
  moreover have "\<forall>c \<in> set (Cores demo_rm). vms_of c (in_UUID demo_input) = None"
    by (simp add: demo_defs vms_of_def)
  ultimately have "vm_view w' = vm_view demo_context"
    using create_vm_failure_restores [OF run fail]
    by (simp add: demo_context_def demo_create_env_def demo_guac_env_def wf_empty_guac no_faults_def)
  with run fail show ?thesis by blast
qed

section \<open>When CreateVM succeeds and when it cannot\<close>

lemma find_subnet_usable: "usable_last s \<Longrightarrow> \<exists>t. find_subnet s = Ok t"
  by (auto simp: usable_last_def find_subnet_wf)

text \<open>C23: \<open>CreateVM\<close> completes: with an alive core that fits, a usable last subnet, a CMS that
  answers 200 with an address, a core that answers with a 2xx status and a decodable body, a
  working random source and no database failure, it returns no error for a UUID the database
  does not know.\<close>

theorem create_vm_completes:
  assumes core: "c \<in> set (Cores (Resources w))" "IsAlive c" "fits (requirement_of inp) c"
    and inp: "ce_ssh e = Ok keys" "in_Users inp \<noteq> []" "in_SubnetType inp \<noteq> ''Add''"
    and sub: "usable_last (Last_subnet w)" "ns_reserve (ce_subnet e) = Committed"
      "ns_cms (ce_subnet e) = Answered resp" "h_status resp = 200"
      "unmarshal cms_response_fields zero_cms_response (h_body resp) = Ok cms"
    and guac: "GuacDB w = Some g" "guac_no_faults (ce_guac e)" "g_rand_pw (ce_guac e) 12 = Ok bs" "length bs = 12"
      "g_rand_salt (ce_guac e) 32 = Ok salt"
    and answer: "ce_core e = Answered cresp" "200 \<le> h_status cresp" "h_status cresp < 300"
      "unmarshal create_vm_response_fields zero_create_vm_response (h_body cresp) = Ok v"
    and db: "ce_insert e = no_faults" "wf_db (MainDB w)" "db_view (MainDB w) (in_UUID inp) = None"
  shows "fst (create_vm e inp w) = Ok ()"
proof -
  have "sel_Core (select_core (requirement_of inp) (Resources w)) \<noteq> None"
    using core by (auto simp: select_core_None_iff)
  then obtain i where i: "select_core_or_fail (requirement_of inp) w = Ok i"
    by (auto simp: select_core_or_fail_def)
  obtain t where "find_subnet (Last_subnet w) = Ok t" using find_subnet_usable [OF sub(1)] by blast
  then have "fst (allocate_cms_subnet (ce_subnet e) (in_SubnetType inp) (in_UUID inp) w) = Ok (cms, True)"
    using inp(3) sub(2-5)
    by (simp add: allocate_cms_subnet_def new_cms_subnet_def update_subnet_row_def request_reserved_def
        cms_new_instance_def request_new_instance_def cms_answer_def)
  then obtain wa where wa: "allocate_cms_subnet (ce_subnet e) (in_SubnetType inp) (in_UUID inp) w = (Ok (cms, True), wa)"
    by (metis prod.collapse)
  have pw: "generate_random_password (g_rand_pw (ce_guac e)) 12 = Ok (take 12 (base64url bs))"
    using guac(3,4) by (rule generate_random_password_ok)
  note conf = configure_db_no_faults [OF guac(2) pw guac(5)]
  have "do_request create_vm_response_fields zero_create_vm_response (ce_core e) = Ok v"
    using answer by (simp add: do_request_def)
  from create_vm_runs [OF i inp(1,2) wa guac(1) conf password_not_empty [OF pw] this db]
  show ?thesis .
qed

theorem create_vm_completes_witness:
  "fst (create_vm demo_create_env demo_input demo_context) = Ok ()"
proof (rule create_vm_completes)
  show "demo_core \<in> set (Cores (Resources demo_context))" by (simp add: demo_context_def demo_rm_def)
  show "IsAlive demo_core" "fits (requirement_of demo_input) demo_core"
    by (simp_all add: demo_core_def fits_def requirement_of_def demo_input_def)
  show "ce_ssh demo_create_env = Ok (''priv'', ''pub'')" by (simp add: demo_create_env_def)
  show "in_Users demo_input \<noteq> []" "in_SubnetType demo_input \<noteq> ''Add''" by (simp_all add: demo_input_def)
  show "usable_last (Last_subnet demo_context)"
    using usable_lastI [of "Subnet 10 0 0"]
    by (simp add: demo_context_def wf_subnet_def subnet_str_def nat_digits.simps go_simps)
  show "ns_reserve (ce_subnet demo_create_env) = Committed" by (simp add: demo_create_env_def)
  show "ns_cms (ce_subnet demo_create_env) = Answered \<lparr>h_status = 200, h_status_text = ''200 OK'', h_raw = [],
      h_body = Doc (JObj [(''IP'', JStr ''10.0.1.2''), (''macAddr'', JStr ''52:54''), (''sdnUUID'', JStr ''sdn'')])\<rparr>"
    by (simp add: demo_create_env_def ok_answer_def)
  show "unmarshal cms_response_fields zero_cms_response (h_body \<lparr>h_status = 200, h_status_text = ''200 OK'', h_raw = [],
      h_body = Doc (JObj [(''IP'', JStr ''10.0.1.2''), (''macAddr'', JStr ''52:54''), (''sdnUUID'', JStr ''sdn'')])\<rparr>) = Ok demo_cms"
    by (simp add: unmarshal_def decode_struct_def go_simps demo_cms_def zero_cms_response_def)
  show "GuacDB demo_context = Some empty_guac" by (simp add: demo_context_def)
  show "guac_no_faults (ce_guac demo_create_env)"
    by (simp add: demo_create_env_def guac_no_faults_def demo_guac_env_def)
  show "g_rand_pw (ce_guac demo_create_env) 12 = Ok (replicate 12 7)"
    "g_rand_salt (ce_guac demo_create_env) 32 = Ok (replicate 32 9)"
    by (simp_all add: demo_create_env_def demo_guac_env_def)
  show "ce_core demo_create_env = Answered \<lparr>h_status = 200, h_status_text = ''200 OK'', h_raw = [], h_body = Doc (JObj [])\<rparr>"
    by (simp add: demo_create_env_def ok_answer_def)
  show "unmarshal create_vm_response_fields zero_create_vm_response
      (h_body \<lparr>h_status = 200, h_status_text = ''200 OK'', h_raw = [], h_body = Doc (JObj [])\<rparr>) = Ok zero_create_vm_response"
    by (simp add: unmarshal_def decode_struct_def)
  show "ce_insert demo_create_env = no_faults" "wf_db (MainDB demo_context)"
    by (simp_all add: demo_create_env_def demo_context_def wf_empty_db)
  show "db_view (MainDB demo_context) (in_UUID demo_input) = None"
    by (simp add: demo_context_def demo_input_def db_view_def empty_db_def info_map_def)
qed simp_all

text \<open>C35: a request with subnet type Add names the new VM's own UUID when it asks for an existing
  VM's address, so for a VM that is not yet placed it always fails, before anything outside
  the server is called and without changing the state.\<close>

theorem add_subnet_needs_placed_vm:
  assumes "in_SubnetType inp = ''Add''" "VMLocation (Resources w) (in_UUID inp) = None"
  shows "\<not> is_ok (fst (create_vm e inp w)) \<and> snd (create_vm e inp w) = w"
proof -
  have "allocate_cms_subnet (ce_subnet e) (in_SubnetType inp) (in_UUID inp) w =
      (Fail (wrap ''CreateVM: failed to configure cms'' (wrap ''AddCmsSubnet: failed to get VM IP''
        (''UUID '' @ in_UUID inp @ '' not found in VMLocation''))), w)"
    using assms by (simp add: allocate_cms_subnet_def add_cms_subnet_def get_vm_ip_by_uuid_def)
  then show ?thesis
    by (cases "select_core_or_fail (requirement_of inp) w"; cases "ce_ssh e")
      (simp_all add: create_vm_def abort_with_def)
qed

theorem add_subnet_needs_placed_vm_witness:
  "\<not> is_ok (fst (create_vm demo_create_env (demo_input\<lparr>in_SubnetType := ''Add''\<rparr>) demo_context))"
  using add_subnet_needs_placed_vm [of "demo_input\<lparr>in_SubnetType := ''Add''\<rparr>" demo_context demo_create_env]
  by (simp add: demo_context_def demo_rm_def)

section \<open>The order of the calls\<close>

lemma core_request_alloc [simp]:
  "core_request (Cores (allocate_resources i u vm req rm) ! i) = core_request (Cores rm ! i)"
  by (cases "i < length (Cores rm)")
    (simp_all add: fun_eq_iff core_request_def core_base_url_def allocate_resources_def frame_simps
      list_update_beyond)

lemma launch_vm_trace:
  assumes "launch_vm e inp i cms isNew key vm chain w = (Ok (), w')"
  shows "\<exists>post. post \<in> {[], [SubnetWrite (cms_IP cms)]} \<and>
    trace w' = trace w @ [RedisSet (in_UUID inp),
      HttpCall (core_request (Cores (Resources w) ! i) ''POST'' ''/createVM''
        (json_of_create_vm (build_core_create_vm_request inp cms key))),
      InstanceInsert (VM_UUID vm)] @ post"
proof -
  define w1 where "w1 = snd (redis_store (ce_redis e) (initial_status inp cms) (ce_now e) w)"
  let ?req = "build_core_create_vm_request inp cms key"
  obtain q w2 where q: "core_create (ce_core e) i ?req w1 = (q, w2)" by fastforce
  obtain p w3 where p: "repo_add (ce_insert e) vm i w2 = (p, w3)" by fastforce
  have ok: "is_ok q" "is_ok p" "w' = on_resources (register_vm (in_UUID inp) i vm)
      (if isNew then snd (update_subnet_row (ce_last_subnet e) (cms_IP cms) w3) else w3)"
    using assms
    by (cases q; cases p; simp add: launch_vm_def Let_def abort_with_def q p flip: w1_def; fail)+
  have "ce_core e \<noteq> NotBuilt m" for m
    using core_create_eqs(1) [of "ce_core e" i ?req w1] ok(1) q by (auto simp: do_request_def)
  moreover have "w2 = record_http (ce_core e) (core_request (Cores (Resources w1) ! i) ''POST'' ''/createVM''
      (json_of_create_vm ?req)) w1"
    using q by (metis core_create_eqs(2) snd_conv)
  ultimately have "trace w2 = trace w1 @ [HttpCall (core_request (Cores (Resources w1) ! i) ''POST'' ''/createVM''
      (json_of_create_vm ?req))]"
    by (cases "ce_core e") auto
  moreover have "trace w3 = trace w2 @ [InstanceInsert (VM_UUID vm)]"
    using repo_add_frame(6) [of "ce_insert e" vm i w2] p by simp
  moreover have "trace w1 = trace w @ [RedisSet (in_UUID inp)]" "Resources w1 = Resources w"
    by (simp_all add: w1_def initial_status_def)
  ultimately show ?thesis using ok(3) by (cases isNew) simp_all
qed

text \<open>C14: a successful \<open>CreateVM\<close> calls out in a fixed order: first the subnet is reserved and
  the CMS asked, then Guacamole is configured, then the initial status is put into Redis, and
  only then is the core asked to create the VM (so that a status the core reports is not
  overwritten), with the request built from the input; the instance row is written only after
  the core accepted, and the subnet row is corrected last.\<close>

theorem create_vm_call_order:
  assumes "create_vm e inp w = (Ok (), w')"
  shows "\<exists>pre i cms key post. list_all subnet_event pre \<and> post \<in> {[], [SubnetWrite (cms_IP cms)]} \<and>
    sel_Core (select_core (requirement_of inp) (Resources w)) = Some i \<and>
    trace w' = trace w @ pre @ [GuacConfigure (in_UUID inp), RedisSet (in_UUID inp),
      HttpCall (core_request (Cores (Resources w) ! i) ''POST'' ''/createVM''
        (json_of_create_vm (build_core_create_vm_request inp cms key))),
      InstanceInsert (in_UUID inp)] @ post"
  using assms
proof (cases rule: create_vm_cases)
  case refused
  then show ?thesis by simp
next
  case (placing i keys cms isNew wa)
  obtain pre where pre: "trace wa = trace w @ pre" "list_all subnet_event pre" and
    wa: "Resources wa = Resources w"
    using placing(5) by (auto simp: same_but_subnet_def)
  from placing(6) show ?thesis
  proof (cases rule: place_vm_cases)
    case unconfigured
    then show ?thesis by simp
  next
    case (launching pass)
    from launch_vm_trace [OF launching(3)] obtain post where post:
      "post \<in> {[], [SubnetWrite (cms_IP cms)]}"
      "trace w' = trace wa @ [GuacConfigure (in_UUID inp), RedisSet (in_UUID inp),
        HttpCall (core_request (Cores (Resources w) ! i) ''POST'' ''/createVM''
          (json_of_create_vm (build_core_create_vm_request inp cms (snd keys)))),
        InstanceInsert (in_UUID inp)] @ post"
      using wa by (auto simp: new_vm_def)
    moreover have "sel_Core (select_core (requirement_of inp) (Resources w)) = Some i"
      using placing(1) by (simp add: select_core_or_fail_def split: option.splits)
    ultimately show ?thesis using pre
      by (intro exI [of _ pre] exI [of _ i] exI [of _ cms] exI [of _ "snd keys"] exI [of _ post]) simp
  qed
qed

theorem create_vm_call_order_witness:
  "InstanceInsert ''vm-1'' \<in> set (trace (snd (create_vm demo_create_env demo_input demo_context)))"
proof -
  have "create_vm demo_create_env demo_input demo_context =
      (Ok (), snd (create_vm demo_create_env demo_input demo_context))"
    using demo_create_runs by (simp add: prod_eq_iff)
  from create_vm_call_order [OF this] show ?thesis by (auto simp: demo_input_def)
qed

section \<open>The books of the cores\<close>

lemma create_vm_cores:
  assumes "create_vm e inp w = (r, w')"
  shows "Cores (Resources w') = Cores (Resources w) \<or>
    (\<exists>i vm. i < length (Cores (Resources w)) \<and> fits (requirement_of inp) (Cores (Resources w) ! i) \<and>
       matches (requirement_of inp) vm \<and> VM_UUID vm = in_UUID inp \<and>
       Cores (Resources w') = (let c = alloc_core (in_UUID inp) vm (requirement_of inp) (Cores (Resources w) ! i)
         in (Cores (Resources w))[i := if is_ok r then c else dealloc_core (in_UUID inp) (requirement_of inp) c]))"
  using assms
proof (cases rule: create_vm_cases)
  case refused
  then show ?thesis by (simp add: same_but_subnet_def)
next
  case (placing i keys cms isNew wa)
  have wa: "Resources wa = Resources w" using placing(5) by (simp add: same_but_subnet_def)
  note core = select_core_or_fail_Ok [OF placing(1)]
  from placing(6) show ?thesis
  proof (cases rule: place_vm_cases)
    case unconfigured
    with wa show ?thesis by simp
  next
    case (launching pass)
    let ?vm = "new_vm inp cms pass"
    have vm: "matches (requirement_of inp) ?vm" "VM_UUID ?vm = in_UUID inp"
      by (simp_all add: matches_def requirement_of_def new_vm_def)
    from launching(3) show ?thesis
    proof (cases rule: launch_vm_cases)
      case (aborted err w1)
      have "Resources w' = deallocate_resources i (in_UUID inp) (requirement_of inp) (Resources w1)"
        unfolding aborted(2) by (rule chain_frame)
      then have "Cores (Resources w') = (Cores (Resources w))[i := dealloc_core (in_UUID inp) (requirement_of inp)
          (alloc_core (in_UUID inp) ?vm (requirement_of inp) (Cores (Resources w) ! i))]"
        using aborted(3) wa core(1) by (simp add: deallocate_resources_def allocate_resources_def)
      with core vm aborted(1) show ?thesis by (intro disjI2 exI [of _ i] exI [of _ ?vm]) simp
    next
      case launched
      then have "Cores (Resources w') = (Cores (Resources w))[i :=
          alloc_core (in_UUID inp) ?vm (requirement_of inp) (Cores (Resources w) ! i)]"
        using wa by (simp add: allocate_resources_def)
      with core vm launched(1) show ?thesis by (intro disjI2 exI [of _ i] exI [of _ ?vm]) simp
    qed
  qed
qed

lemma create_vm_ledger:
  assumes wf: "wf_rm (Resources w)" and run: "create_vm e inp w = (r, w')"
    and fresh: "\<forall>c \<in> set (Cores (Resources w)). vms_of c (in_UUID inp) = None"
    and range: "\<forall>c \<in> set (Cores (Resources w)). in_word_range (ledger c)"
  shows "map ledger (Cores (Resources w')) = map ledger (Cores (Resources w))"
proof -
  from create_vm_cores [OF run] consider
      (same) "Cores (Resources w') = Cores (Resources w)"
    | (touched) i vm where "i < length (Cores (Resources w))" "fits (requirement_of inp) (Cores (Resources w) ! i)"
        "matches (requirement_of inp) vm" "Cores (Resources w') =
         (let c = alloc_core (in_UUID inp) vm (requirement_of inp) (Cores (Resources w) ! i)
         in (Cores (Resources w))[i := if is_ok r then c else dealloc_core (in_UUID inp) (requirement_of inp) c])"
    by blast
  then show ?thesis
  proof cases
    case (touched i vm)
    define c where "c = Cores (Resources w) ! i"
    let ?a = "alloc_core (in_UUID inp) vm (requirement_of inp) c"
    have c: "c \<in> set (Cores (Resources w))" using touched(1) by (simp add: c_def)
    have "wf_core c" using wf touched(1) unfolding c_def by (rule wf_rm_nth)
    then have fin: "finite (dom (vms_of c))" by (simp add: wf_core_def)
    have a: "ledger ?a = ledger c"
      using fin fresh c touched(2,3) unfolding c_def [symmetric] by (intro ledger_alloc) simp_all
    have "ledger (dealloc_core (in_UUID inp) (requirement_of inp) ?a) = ledger ?a"
      using fin touched(3) range c a by (intro ledger_dealloc [where vm = vm]) simp_all
    with a touched(1,4) show ?thesis
      by (simp add: map_update c_def Let_def list_update_same_conv)
  qed simp
qed

lemma snd_with_core: "snd (with_core err e u w) = snd (find_core_by_vm_uuid e u w)"
  by (simp add: with_core_def split: prod.split option.split)

lemma with_core_cores: "Cores (Resources (snd (with_core err e u w))) = Cores (Resources w)"
proof -
  have "Cores (Resources (snd (find_core_by_vm_uuid e u w))) = Cores (Resources w)"
    by (simp add: find_core_by_vm_uuid_def cache_location_def split: option.split result.split)
  then show ?thesis by (simp add: snd_with_core)
qed

lemma keeps_cores:
  "Cores (Resources (snd (delete_vm de u w))) = Cores (Resources w)"
  "Cores (Resources (snd (start_vm e a u w))) = Cores (Resources w)"
  "Cores (Resources (snd (shutdown_vm e a re t u w))) = Cores (Resources w)"
  "Cores (Resources (snd (get_vm_status who what call e a u w))) = Cores (Resources w)"
  "Cores (Resources (snd (get_guacamole_token e a u w))) = Cores (Resources w)"
proof -
  note P = and_then_steps [where P = "\<lambda>v. Cores (Resources v) = Cores (Resources w)"]
  have cms: "Resources (snd (delete_cms_subnet h b u v)) = Resources v" for h b v
    unfolding delete_cms_subnet_def
    by (rule and_then_steps [where P = "\<lambda>x. Resources x = Resources v"])
      (auto simp: Let_def split: prod.split intro!: and_then_steps [where P = "\<lambda>x. Resources x = Resources v"])
  show "Cores (Resources (snd (delete_vm de u w))) = Cores (Resources w)"
    unfolding delete_vm_def Let_def
    by (auto simp: with_core_cores cms split: prod.split intro!: P)
  show "Cores (Resources (snd (start_vm e a u w))) = Cores (Resources w)"
    unfolding start_vm_def Let_def by (auto simp: with_core_cores split: prod.split intro!: P)
  show "Cores (Resources (snd (shutdown_vm e a re t u w))) = Cores (Resources w)"
    unfolding shutdown_vm_def Let_def by (auto simp: with_core_cores split: prod.split intro!: P)
  show "Cores (Resources (snd (get_vm_status who what call e a u w))) = Cores (Resources w)"
    unfolding get_vm_status_def Let_def by (auto simp: with_core_cores split: prod.split intro!: P)
  show "Cores (Resources (snd (get_guacamole_token e a u w))) = Cores (Resources w)"
    unfolding get_guacamole_token_def Let_def
    by (auto simp: with_core_cores split: prod.split option.split intro!: P)
qed

text \<open>Every CreateVM of the history is for a UUID no core holds at that time.\<close>

fun fresh_creates :: "vm_op list \<Rightarrow> control_context \<Rightarrow> bool" where
  "fresh_creates [] w = True"
| "fresh_creates (c # cs) w =
     ((case c of OpCreate e inp \<Rightarrow> \<forall>k \<in> set (Cores (Resources w)). vms_of k (in_UUID inp) = None | _ \<Rightarrow> True) \<and>
      fresh_creates cs (vm_step c w))"

lemma vm_step_ledger:
  assumes "wf_context w" "fresh_creates [c] w" "\<forall>k \<in> set (Cores (Resources w)). in_word_range (ledger k)"
  shows "map ledger (Cores (Resources (vm_step c w))) = map ledger (Cores (Resources w))"
proof (cases c)
  case (OpCreate e inp)
  obtain r w' where "create_vm e inp w = (r, w')" by fastforce
  with OpCreate assms create_vm_ledger [of w e inp r w'] show ?thesis by (simp add: wf_context_def)
qed (simp_all add: keeps_cores get_vm_cpu_info_def get_vm_memory_info_def get_vm_disk_info_def)

text \<open>C5: over any history of service calls one after the other, in which new VMs get UUIDs no core
  holds, the books of every core balance: for memory, CPU and disk, the free counter and the
  sum over the VMs in the core's table add up to the same total throughout, so no counter ever
  wraps around. Deleting a VM is no exception: it neither frees its resources nor
  removes it from the table.\<close>

theorem capacity_is_conserved:
  assumes "wf_context w" "fresh_creates ops w" "\<forall>k \<in> set (Cores (Resources w)). in_word_range (ledger k)"
  shows "map ledger (Cores (Resources (fold vm_step ops w))) = map ledger (Cores (Resources w))"
  using assms
proof (induction ops arbitrary: w)
  case (Cons c ops)
  have step: "map ledger (Cores (Resources (vm_step c w))) = map ledger (Cores (Resources w))"
    using Cons.prems by (intro vm_step_ledger) simp_all
  then have "set (map ledger (Cores (Resources (vm_step c w)))) = set (map ledger (Cores (Resources w)))" by simp
  with Cons.prems(3) have "\<forall>k \<in> set (Cores (Resources (vm_step c w))). in_word_range (ledger k)"
    by (metis (no_types, lifting) imageE imageI list.set_map)
  with Cons.prems step Cons.IH [of "vm_step c w"] show ?case by (simp add: wf_context_step)
qed simp

theorem capacity_is_conserved_witness:
  "ledger (Cores (Resources (fold vm_step [OpCreate demo_create_env demo_input,
      OpStart no_faults (NotSent ''timeout'') ''vm-1''] demo_context)) ! 1) = (49152, 9999, 409600)"
proof -
  let ?ops = "[OpCreate demo_create_env demo_input, OpStart no_faults (NotSent ''timeout'') ''vm-1'']"
  have eqs: "Cores (Resources demo_context) = Cores demo_rm" by (simp add: demo_context_def)
  have led: "map ledger (Cores demo_rm) = [(49152, 9999, 409600), (49152, 9999, 409600)]"
    by (simp add: demo_defs ledger_def used_def vms_of_def)
  have "\<forall>k \<in> set (Cores demo_rm). in_word_range (ledger k)"
    by (simp add: demo_defs ledger_def used_def vms_of_def in_word_range_def)
  moreover have "fresh_creates ?ops demo_context"
    by (simp add: demo_context_def demo_defs vms_of_def)
  ultimately have "map ledger (Cores (Resources (fold vm_step ?ops demo_context))) = map ledger (Cores demo_rm)"
    using capacity_is_conserved [OF wf_demo_context, of ?ops] by (simp only: eqs)
  then have "map ledger (Cores (Resources (fold vm_step ?ops demo_context))) ! 1 = (49152, 9999, 409600)"
    "length (Cores (Resources (fold vm_step ?ops demo_context))) = 2"
    unfolding led by (simp, metis length_map length_Cons list.size(3) One_nat_def Suc_1)
  then show ?thesis by (metis nth_map one_less_numeral_iff semiring_norm(76))
qed

section \<open>Deleting and stopping\<close>

lemma with_core_frame:
  assumes "with_core err e u w = (r, w1)"
  shows "MainDB w1 = MainDB w" "GuacDB w1 = GuacDB w" "Redis w1 = Redis w" "AliveVM (Resources w1) = AliveVM (Resources w)"
    "Cores (Resources w1) = Cores (Resources w)" "r = Ok i \<Longrightarrow> VMLocation (Resources w1) u = Some i"
    "VMLocation (Resources w) u = Some j \<Longrightarrow> r = Ok j \<and> w1 = w"
  using assms
  by (auto simp: with_core_def find_core_by_vm_uuid_def cache_location_def
      split: option.splits result.splits if_splits prod.splits)

lemma delete_cms_subnet_frame [simp]:
  "Resources (snd (delete_cms_subnet h a u w)) = Resources w"
  "MainDB (snd (delete_cms_subnet h a u w)) = MainDB w"
  "GuacDB (snd (delete_cms_subnet h a u w)) = GuacDB w"
  "Redis (snd (delete_cms_subnet h a u w)) = Redis w"
proof -
  let ?P = "\<lambda>v. Resources v = Resources w \<and> MainDB v = MainDB w \<and> GuacDB v = GuacDB w \<and> Redis v = Redis w"
  have "?P (snd (delete_cms_subnet h a u w))"
    unfolding delete_cms_subnet_def
    by (rule and_then_steps [where P = ?P])
      (auto simp: Let_def split: prod.split intro!: and_then_steps [where P = ?P])
  then show "Resources (snd (delete_cms_subnet h a u w)) = Resources w"
    "MainDB (snd (delete_cms_subnet h a u w)) = MainDB w"
    "GuacDB (snd (delete_cms_subnet h a u w)) = GuacDB w"
    "Redis (snd (delete_cms_subnet h a u w)) = Redis w" by blast+
qed

lemma delete_vm_cases:
  assumes "delete_vm e u w = (r, w')"
  obtains (early) "\<not> is_ok r" "MainDB w' = MainDB w" "GuacDB w' = GuacDB w" "Redis w' = Redis w"
      "AliveVM (Resources w') = AliveVM (Resources w)"
  | (undeleted) err where "r = Fail (wrap (''DeleteVM: failed to delete instance '' @ u) err)"
      "fst (delete_instance (de_delete e) u (MainDB w)) = Fail err"
      "MainDB w' = snd (delete_instance (de_delete e) u (MainDB w))" "GuacDB w' = GuacDB w" "Redis w' = Redis w"
      "AliveVM (Resources w') = AliveVM (Resources w)"
  | (deleted) i where "r = Ok ()" "delete_instance (de_delete e) u (MainDB w) = (Ok (), MainDB w')"
      "GuacDB w' = map_option (\<lambda>g. snd (cleanup_db (de_guac e) u g)) (GuacDB w)"
      "Redis w' = snd (remove_vm_info (de_redis e) u (Redis w))"
      "AliveVM (Resources w') = AliveVM (Resources w)" "VMLocation (Resources w') u = Some i"
proof -
  obtain c w1 where c: "with_core (not_found u) (de_find e) u w = (c, w1)" by fastforce
  note frame = with_core_frame [OF c]
  show thesis
  proof (cases c)
    case (Ok i)
    let ?k = "Cores (Resources w1) ! i"
    obtain rq q where q: "core_delete_vm ?k u HardDelete (de_core e) = (rq, q)" by fastforce
    define w2 where "w2 = record_http (de_core e) rq w1"
    define w3 where "w3 = snd (delete_cms_subnet (de_cms_host e) (de_cms e) u w2)"
    obtain d w4 where d: "repo_delete (de_delete e) u w3 = (d, w4)" by fastforce
    have w4: "d = fst (delete_instance (de_delete e) u (MainDB w))"
      "MainDB w4 = snd (delete_instance (de_delete e) u (MainDB w))"
      "GuacDB w4 = GuacDB w" "Redis w4 = Redis w" "Resources w4 = Resources w1"
    proof -
      have "d = fst (repo_delete (de_delete e) u w3)" "w4 = snd (repo_delete (de_delete e) u w3)"
        using d by simp_all
      with frame show "d = fst (delete_instance (de_delete e) u (MainDB w))"
        "MainDB w4 = snd (delete_instance (de_delete e) u (MainDB w))"
        "GuacDB w4 = GuacDB w" "Redis w4 = Redis w" "Resources w4 = Resources w1"
        by (simp_all add: w3_def w2_def)
    qed
    show thesis
    proof (cases q)
      case (Ok x)
      note okq = this
      have del: "delete_vm e u w = and_then (wrapped (''DeleteVM: failed to delete instance '' @ u) (d, w4))
          (\<lambda>_ w4. (Ok (), snd (redis_remove (de_redis e) u (snd (guac_cleanup (de_guac e) u w4)))))"
        using c q okq \<open>c = Ok i\<close> d by (simp add: delete_vm_def Let_def flip: w2_def w3_def)
      show thesis
      proof (cases d)
        case (Ok y)
        with del assms have "r = Ok ()" "w' = snd (redis_remove (de_redis e) u (snd (guac_cleanup (de_guac e) u w4)))"
          by simp_all
        moreover have "delete_instance (de_delete e) u (MainDB w) = (Ok (), MainDB w4)"
          using w4(1,2) Ok by (simp add: prod_eq_iff)
        ultimately show thesis using w4 frame \<open>c = Ok i\<close> by (intro deleted [of i]) simp_all
      next
        case (Fail err)
        with del assms have "r = Fail (wrap (''DeleteVM: failed to delete instance '' @ u) err)" "w' = w4"
          by simp_all
        moreover have "fst (delete_instance (de_delete e) u (MainDB w)) = Fail err" using w4(1) Fail by simp
        ultimately show thesis using w4(2-5) frame by (intro undeleted [of err]) simp_all
      next
        case Panic
        have "fst (delete_instance (de_delete e) u (MainDB w)) \<noteq> Panic"
          by (cases "tx_commit (de_delete e)") (simp_all add: delete_instance_def Let_def split: option.split)
        with Panic w4(1) show thesis by simp
      qed
    next
      case (Fail err)
      have "delete_vm e u w = (Fail (wrap (''DeleteVM: failed to delete VM '' @ u @ on_core ?k) err), w2)"
        using c q Fail \<open>c = Ok i\<close> by (simp add: delete_vm_def Let_def flip: w2_def)
      with assms frame show thesis by (intro early) (auto simp: w2_def)
    next
      case Panic
      have "delete_vm e u w = (Panic, w2)"
        using c q Panic \<open>c = Ok i\<close> by (simp add: delete_vm_def Let_def flip: w2_def)
      with assms frame show thesis by (intro early) (auto simp: w2_def)
    qed
  next
    case (Fail err)
    have "delete_vm e u w = (Fail err, w1)" using c Fail by (simp add: delete_vm_def)
    with assms frame show thesis by (intro early) auto
  next
    case Panic
    have "delete_vm e u w = (Panic, w1)" using c Panic by (simp add: delete_vm_def)
    with assms frame show thesis by (intro early) auto
  qed
qed

lemma delete_vm_deleted:
  assumes "wf_context w" "delete_vm e u w = (Ok (), w')"
  shows "db_view (MainDB w') = (db_view (MainDB w))(u := None) \<and>
    (case GuacDB w of
       None \<Rightarrow> GuacDB w' = None
     | Some g \<Rightarrow> \<exists>g'. GuacDB w' = Some g' \<and>
         (if cleanup_applies (de_guac e) then find_entity u g' = None else g' = g)) \<and>
    Redis w' = (case re_del (de_redis e) of CommitFailed _ \<Rightarrow> Redis w | _ \<Rightarrow> (Redis w)(u := None)) \<and>
    Cores (Resources w') = Cores (Resources w) \<and> AliveVM (Resources w') = AliveVM (Resources w) \<and>
    VMLocation (Resources w') u \<noteq> None"
  using assms(2)
proof (cases rule: delete_vm_cases)
  case (deleted i)
  have "db_view (MainDB w') = (db_view (MainDB w))(u := None)"
    using assms(1) deleted(2) by (intro mysql.del_ok) (simp_all add: wf_context_def)
  moreover have "find_entity u (cleaned u g) = None" if "GuacDB w = Some g" for g
    using assms(1) that by (auto simp: wf_context_def find_entity_None_iff cleaned_entities)
  moreover have "Cores (Resources w') = Cores (Resources w)"
    using keeps_cores(1) [of e u w] assms(2) by simp
  moreover have "Redis w' = (case re_del (de_redis e) of CommitFailed _ \<Rightarrow> Redis w | _ \<Rightarrow> (Redis w)(u := None))"
    using deleted(4) by (cases "re_del (de_redis e)") (simp_all add: remove_vm_info_def)
  ultimately show ?thesis using deleted(3,5,6) by (cases "GuacDB w") (simp_all add: cleanup_db_eq)
qed simp_all

text \<open>C20: what a \<open>DeleteVM\<close> that returns no error has done to each store. The database knows the VM
  no more and every other VM as before. Its failures on Guacamole and Redis are only logged: the
  Guacamole user is gone when Cleanup took effect and the tables are as they were otherwise, and
  the status document is gone unless its removal failed. The resource manager still counts the
  VM: the core's table and free counters, the list of running VMs and the cached location keep it.\<close>

theorem delete_vm_success:
  assumes "wf_context w" "delete_vm e u w = (Ok (), w')"
  shows "db_view (MainDB w') = (db_view (MainDB w))(u := None) \<and>
    (case GuacDB w of
       None \<Rightarrow> GuacDB w' = None
     | Some g \<Rightarrow> \<exists>g'. GuacDB w' = Some g' \<and>
         (if cleanup_applies (de_guac e) then find_entity u g' = None else g' = g)) \<and>
    Redis w' = (case re_del (de_redis e) of CommitFailed _ \<Rightarrow> Redis w | _ \<Rightarrow> (Redis w)(u := None)) \<and>
    Cores (Resources w') = Cores (Resources w) \<and> AliveVM (Resources w') = AliveVM (Resources w) \<and>
    VMLocation (Resources w') u \<noteq> None"
  using assms by (rule delete_vm_deleted)

text \<open>A \<open>DeleteVM\<close> that fails has changed none of the stores, unless the commit of the
  instance deletion took effect behind an error: Guacamole and Redis keep the VM.\<close>

theorem delete_vm_failure:
  assumes "delete_vm e u w = (r, w')" "\<not> is_ok r" "\<forall>m. tx_commit (de_delete e) \<noteq> CommitLost m"
  shows "MainDB w' = MainDB w \<and> GuacDB w' = GuacDB w \<and> Redis w' = Redis w"
  using assms(1)
proof (cases rule: delete_vm_cases)
  case (undeleted err)
  have "snd (delete_instance (de_delete e) u (MainDB w)) = MainDB w"
    using undeleted(2) assms(3)
    by (cases "tx_commit (de_delete e)") (auto simp: delete_instance_def Let_def split: option.splits)
  with undeleted show ?thesis by simp
qed (use assms(2) in simp_all)

definition demo_placed :: control_context where
  "demo_placed = demo_context\<lparr>Resources := demo_rm\<lparr>VMLocation := [''vm-1'' \<mapsto> 1]\<rparr>\<rparr>"

definition demo_delete_env :: delete_env where
  "demo_delete_env = \<lparr>de_find = no_faults, de_core = ok_answer [], de_cms_host = [],
     de_cms = ok_answer [], de_delete = no_faults, de_guac = demo_cleanup_env, de_redis = redis_ok\<rparr>"

lemma wf_demo_placed: "wf_context demo_placed"
  using wf_demo_context by (auto simp: wf_context_def demo_placed_def demo_context_def wf_rm_def demo_rm_def)

lemma demo_delete_located:
  assumes loc: "VMLocation (Resources w) ''vm-1'' = Some i"
  shows "fst (delete_vm demo_delete_env ''vm-1'' w) = Ok ()"
proof -
  have "do_request [] () (ok_answer []) = Ok ()"
    by (simp add: ok_answer_def do_request_def unmarshal_def decode_struct_def)
  moreover have "fst (repo_delete no_faults u v) = Ok ()" for u v
    by (simp add: delete_instance_def no_faults_def Let_def)
  then have "\<exists>v'. repo_delete no_faults u v = (Ok (), v')" for u v by (metis prod.collapse)
  then obtain f where "repo_delete no_faults u v = (Ok (), f u v)" for u v by metis
  ultimately show ?thesis
    using loc
    by (simp add: delete_vm_def with_core_def find_core_by_vm_uuid_def core_delete_vm_def Let_def demo_delete_env_def)
qed

lemma demo_delete: "fst (delete_vm demo_delete_env ''vm-1'' demo_placed) = Ok ()"
  by (rule demo_delete_located) (simp add: demo_placed_def)

text \<open>The state after the creation of a VM: all stores know it.\<close>

definition demo_after_create :: control_context where
  "demo_after_create = snd (create_vm demo_create_env demo_input demo_context)"

lemma demo_after_create_known:
  shows wf_demo_after_create: "wf_context demo_after_create"
    and "db_view (MainDB demo_after_create) ''vm-1'' \<noteq> None" "Redis demo_after_create ''vm-1'' \<noteq> None"
    and "\<exists>g. GuacDB demo_after_create = Some g \<and> find_entity ''vm-1'' g \<noteq> None"
    and "VMLocation (Resources demo_after_create) ''vm-1'' = Some 1"
    and "vms_of (Cores (Resources demo_after_create) ! 1) ''vm-1'' \<noteq> None"
    and "select_core_or_fail demo_req demo_after_create = Ok 1"
    and "used VM_Memory (Cores (Resources demo_after_create) ! 1) = 4096"
proof -
  have run: "create_vm demo_create_env demo_input demo_context = (Ok (), demo_after_create)"
    using demo_create_runs by (simp add: demo_after_create_def prod_eq_iff)
  have u: "in_UUID demo_input = ''vm-1''" and req: "requirement_of demo_input = demo_req"
    by (simp_all add: demo_input_def requirement_of_def demo_req_def)
  have set: "re_set (ce_redis demo_create_env) = Committed" by (simp add: demo_create_env_def redis_ok_def)
  show "wf_context demo_after_create"
    using wf_context_step [OF wf_demo_context, of "OpCreate demo_create_env demo_input"] by (simp add: demo_after_create_def)
  obtain i cms pass where made: "IsAlive (Cores demo_rm ! i)" "i < length (Cores demo_rm)"
    "Resources demo_after_create = register_vm ''vm-1'' i (new_vm demo_input cms pass)
      (allocate_resources i ''vm-1'' (new_vm demo_input cms pass) demo_req demo_rm)"
    "db_view (MainDB demo_after_create) ''vm-1'' \<noteq> None"
    "\<exists>g. GuacDB demo_after_create = Some g \<and> find_entity ''vm-1'' g \<noteq> None"
    using create_vm_established [OF wf_demo_context run] by (auto simp: u req demo_context_def)
  from made(1,2) have "i = 1" by (auto simp: demo_rm_def demo_core_def less_Suc_eq nth_Cons')
  with made(3) have rm: "Resources demo_after_create = register_vm ''vm-1'' 1 (new_vm demo_input cms pass)
      (allocate_resources 1 ''vm-1'' (new_vm demo_input cms pass) demo_req demo_rm)" by simp
  show "VMLocation (Resources demo_after_create) ''vm-1'' = Some 1" by (simp add: rm register_vm_def)
  show "vms_of (Cores (Resources demo_after_create) ! 1) ''vm-1'' \<noteq> None"
    by (simp add: rm register_vm_def allocate_resources_def alloc_core_def vms_of_def demo_rm_def)
  have "Cores (Resources demo_after_create) = [demo_core\<lparr>IsAlive := False\<rparr>,
      alloc_core ''vm-1'' (new_vm demo_input cms pass) demo_req demo_core]"
    by (simp add: rm register_vm_def allocate_resources_def demo_rm_def)
  then have "sel_Core (select_core demo_req (Resources demo_after_create)) = Some 1"
    by (simp add: select_core_def demo_core_def alloc_core_def demo_req_def fits_def)
  then show "select_core_or_fail demo_req demo_after_create = Ok 1" by (simp add: select_core_or_fail_def)
  have "used VM_Memory (alloc_core ''vm-1'' (new_vm demo_input cms pass) demo_req demo_core) = 4096"
    using used_alloc [of demo_core "''vm-1''"] by (simp add: vms_of_def demo_core_def used_def new_vm_def demo_input_def)
  then show "used VM_Memory (Cores (Resources demo_after_create) ! 1) = 4096"
    by (simp add: rm register_vm_def allocate_resources_def demo_rm_def)
  show "Redis demo_after_create ''vm-1'' \<noteq> None" using create_vm_redis [OF run] by (auto simp: u set)
  show "db_view (MainDB demo_after_create) ''vm-1'' \<noteq> None"
    "\<exists>g. GuacDB demo_after_create = Some g \<and> find_entity ''vm-1'' g \<noteq> None"
    using made(4,5) by simp_all
qed

theorem delete_vm_success_witness:
  "\<exists>w' g'. delete_vm demo_delete_env ''vm-1'' demo_after_create = (Ok (), w') \<and> 
     db_view (MainDB demo_after_create) ''vm-1'' \<noteq> None \<and> db_view (MainDB w') ''vm-1'' = None \<and>
     Redis demo_after_create ''vm-1'' \<noteq> None \<and> Redis w' ''vm-1'' = None \<and>
     (\<exists>g. GuacDB demo_after_create = Some g \<and> find_entity ''vm-1'' g \<noteq> None) \<and>
     GuacDB w' = Some g' \<and> find_entity ''vm-1'' g' = None \<and>
     Cores (Resources w') = Cores (Resources demo_after_create) \<and> vms_of (Cores (Resources w') ! 1) ''vm-1'' \<noteq> None"
proof -
  obtain w' where run: "delete_vm demo_delete_env ''vm-1'' demo_after_create = (Ok (), w')"
    using demo_delete_located [OF demo_after_create_known(5)] by (metis prod.collapse)
  obtain g where g: "GuacDB demo_after_create = Some g" "find_entity ''vm-1'' g \<noteq> None" using demo_after_create_known(4) by blast
  have "cleanup_applies (de_guac demo_delete_env)" "re_del (de_redis demo_delete_env) = Committed"
    by (simp_all add: demo_delete_env_def demo_cleanup_env_def cleanup_applies_def redis_ok_def)
  with delete_vm_success [OF demo_after_create_known(1) run] run g demo_after_create_known show ?thesis by auto
qed

theorem delete_vm_failure_witness:
  "MainDB (snd (delete_vm (demo_delete_env\<lparr>de_core := NotSent ''down''\<rparr>) ''vm-1'' demo_placed)) = MainDB demo_placed"
proof -
  let ?e = "demo_delete_env\<lparr>de_core := NotSent ''down''\<rparr>"
  obtain r w' where run: "delete_vm ?e ''vm-1'' demo_placed = (r, w')" by fastforce
  have "VMLocation (Resources demo_placed) ''vm-1'' = Some 1" by (simp add: demo_placed_def)
  then have "\<not> is_ok (fst (delete_vm ?e ''vm-1'' demo_placed))"
    by (simp add: delete_vm_def with_core_def find_core_by_vm_uuid_def core_delete_vm_def do_request_def Let_def)
  with run delete_vm_failure [OF run] show ?thesis by (simp add: demo_delete_env_def no_faults_def)
qed

lemma unregister_frame [simp]:
  "AliveVM (snd (unregister_alive u rm)) = fst (unregister_loop u (AliveVM rm))"
  by (simp add: unregister_alive_def split: prod.split)

text \<open>A successful \<open>ShutdownVM\<close> takes the first entry of the VM out of the list of running
  VMs and, when its Redis document can be read and written, sets the status there to the
  stopped one, keeping the other fields; cores, databases and Guacamole are untouched.\<close>

theorem shutdown_vm_success:
  assumes "shutdown_vm e a re t u w = (Ok (), w')"
  shows "AliveVM (Resources w') = fst (unregister_loop u (AliveVM (Resources w))) \<and>
    Cores (Resources w') = Cores (Resources w) \<and> MainDB w' = MainDB w \<and> GuacDB w' = GuacDB w \<and>
    (\<forall>i. get_vm_info re u (Redis w) = Ok i \<and> re_set re = Committed \<longrightarrow>
       get_vm_info re u (Redis w') = Ok (i\<lparr>s_Status := ''stopped end''\<rparr>))"
proof -
  obtain c w1 where c: "with_core (not_found u) e u w = (c, w1)" by fastforce
  note frame = with_core_frame [OF c]
  obtain i where i: "c = Ok i" using assms c by (cases c) (simp_all add: shutdown_vm_def)
  obtain rq q where q: "core_force_shutdown_vm (Cores (Resources w1) ! i) u a = (rq, q)" by fastforce
  obtain x where x: "q = Ok x" using assms c i q by (cases q) (simp_all add: shutdown_vm_def Let_def)
  have w': "w' = snd (redis_update re u VMStatusStopped t
      (on_resources (\<lambda>rm. snd (unregister_alive u rm)) (record_http a rq w1)))"
    using assms c i q x by (simp add: shutdown_vm_def Let_def)
  have "get_vm_info re u (Redis w') = Ok (j\<lparr>s_Status := ''stopped end''\<rparr>)"
    if j: "get_vm_info re u (Redis w) = Ok j" "re_set re = Committed" for j
  proof -
    obtain r where r: "load_vm_info re u (Redis w) = Ok r" "j = to_service_dto r"
      using j(1) by (cases "load_vm_info re u (Redis w)") (simp_all add: get_vm_info_def)
    have "re_get re = None" using r(1) by (simp add: load_vm_info_def split: option.splits)
    moreover have "Redis w' = (Redis w)(u \<mapsto> marshal_redis_vm_info (r\<lparr>r_status := VMStatusStopped, r_time := t\<rparr>))"
      using r(1) j(2) frame(3) by (simp add: w' update_vm_status_def redis_set_def)
    ultimately show ?thesis by (simp add: get_vm_info_def r(2) VMStatusStopped_def)
  qed
  then show ?thesis using frame by (simp add: w')
qed

theorem shutdown_vm_success_witness:
  "AliveVM (Resources (snd (shutdown_vm no_faults (ok_answer []) redis_ok 0 ''vm-1'' demo_placed))) = []"
proof -
  have "VMLocation (Resources demo_placed) ''vm-1'' = Some 1" by (simp add: demo_placed_def)
  moreover have "do_request message_fields [] (ok_answer []) = Ok []"
    by (simp add: ok_answer_def do_request_def unmarshal_def decode_struct_def)
  ultimately have "shutdown_vm no_faults (ok_answer []) redis_ok 0 ''vm-1'' demo_placed =
      (Ok (), snd (shutdown_vm no_faults (ok_answer []) redis_ok 0 ''vm-1'' demo_placed))"
    by (simp add: shutdown_vm_def with_core_def find_core_by_vm_uuid_def core_force_shutdown_vm_def Let_def)
  from shutdown_vm_success [OF this] show ?thesis by (simp add: demo_placed_def demo_rm_def)
qed

section \<open>The location cache\<close>

definition coherent :: "control_context \<Rightarrow> bool" where
  "coherent w \<longleftrightarrow> (\<forall>u i vm k. VMLocation (Resources w) u = Some i \<longrightarrow>
     db_view (MainDB w) u = Some (vm, k) \<longrightarrow> k = int i)"

definition good :: "control_context \<Rightarrow> bool" where
  "good w \<longleftrightarrow> wf_context w \<and> coherent w"

lemma goodI:
  "good w \<Longrightarrow> (wf_context w \<Longrightarrow> wf_context w') \<Longrightarrow> VMLocation (Resources w') = VMLocation (Resources w) \<Longrightarrow>
   MainDB w' = MainDB w \<Longrightarrow> good w'"
  by (simp add: good_def coherent_def)

lemma good_steps:
  "good w \<Longrightarrow> good (record_http a rq w)"
  "good w \<Longrightarrow> good (snd (delete_cms_subnet h a u w))"
  "good w \<Longrightarrow> good (snd (guac_cleanup ce u w))"
  "good w \<Longrightarrow> good (snd (redis_remove re u w))"
  "good w \<Longrightarrow> good (snd (redis_update re u s t w))"
  "good w \<Longrightarrow> good (on_resources (\<lambda>rm. snd (unregister_alive u rm)) w)"
proof -
  show "good w \<Longrightarrow> good (on_resources (\<lambda>rm. snd (unregister_alive u rm)) w)"
    by (erule goodI) (simp_all add: wf_context_def wf_rm_unregister)
qed (erule goodI; simp add: inv_intros)+

lemma good_with_core: "good w \<Longrightarrow> good (snd (with_core err e u w))"
proof -
  assume w: "good w"
  have "coherent (snd (find_core_by_vm_uuid e u w))"
  proof (cases "VMLocation (Resources w) u = None \<and> (\<exists>k. get_instance_location e u (MainDB w) = Ok k \<and>
      0 \<le> k \<and> k < int (length (Cores (Resources w))))")
    case True
    then obtain k where k: "VMLocation (Resources w) u = None" "get_instance_location e u (MainDB w) = Ok k" "0 \<le> k"
      "k < int (length (Cores (Resources w)))" by blast
    then obtain i where "db_view (MainDB w) u = Some (i, k)"
      using w mysql.locate_ok [of "MainDB w" e u k] by (auto simp: good_def wf_context_def)
    moreover have "snd (find_core_by_vm_uuid e u w) = on_resources (cache_location u (nat k)) w"
      using k by (simp add: find_core_by_vm_uuid_def)
    ultimately show ?thesis using w k(3) by (auto simp: good_def coherent_def cache_location_def)
  next
    case False
    then have "snd (find_core_by_vm_uuid e u w) = w"
      by (auto simp: find_core_by_vm_uuid_def not_less not_le split: option.split result.split)
    with w show ?thesis by (simp add: good_def)
  qed
  with w show ?thesis by (simp add: good_def with_core_wf) (simp add: snd_with_core)
qed

lemma good_repo_delete: "good w \<Longrightarrow> good (snd (repo_delete e u w))"
proof -
  assume w: "good w"
  obtain r d where d: "delete_instance e u (MainDB w) = (r, d)" by fastforce
  have "wf_db (MainDB w)" using w by (simp add: good_def wf_context_def)
  from mysql.del_cases [OF this d]
  have "db_view d = db_view (MainDB w) \<or> db_view d = (db_view (MainDB w))(u := None)" by blast
  moreover have "coherent w" using w by (simp add: good_def)
  ultimately have "coherent (snd (repo_delete e u w))"
    using d by (auto simp: coherent_def split: if_splits)
  with w show ?thesis by (simp add: good_def inv_intros)
qed

lemmas good_intros = good_steps good_with_core good_repo_delete

lemma good_create:
  assumes good: "good w" and run: "create_vm e inp w = (r, w')"
    and insert: "\<forall>m. tx_commit (ce_insert e) \<noteq> CommitLost m"
  shows "good w'"
proof -
  have wf': "wf_context w'" using wf_context_create [of w e inp] good run by (simp add: good_def)
  have "VMLocation (Resources w') = VMLocation (Resources w) \<and> db_view (MainDB w') = db_view (MainDB w) \<or>
    (\<exists>i vm. VMLocation (Resources w') = (VMLocation (Resources w))(in_UUID inp \<mapsto> i) \<and>
       db_view (MainDB w') = (db_view (MainDB w))(in_UUID inp \<mapsto> (vm, int i)))"
    using run
  proof (cases rule: create_vm_cases)
    case refused
    then show ?thesis using db_view_cong [of "MainDB w'" "MainDB w"] by (simp add: same_but_subnet_def)
  next
    case (placing i keys cms isNew wa)
    have wa: "Resources wa = Resources w" "db_view (MainDB wa) = db_view (MainDB w)" "wf_db (MainDB wa)"
      using placing(5) good db_view_cong [of "MainDB wa" "MainDB w"] wf_db_cong [of "MainDB wa" "MainDB w"]
      by (simp_all add: same_but_subnet_def good_def wf_context_def)
    from placing(6) show ?thesis
    proof (cases rule: place_vm_cases)
      case unconfigured
      with wa show ?thesis by simp
    next
      case (launching pass)
      let ?wb = "fold vm_do
            [ActGuac e (us_Name (hd (in_Users inp))) (in_UUID inp) (cms_IP cms) (fst keys),
             ActAlloc i (in_UUID inp) (new_vm inp cms pass) (requirement_of inp)] wa"
      have wb: "MainDB ?wb = MainDB wa" "VMLocation (Resources ?wb) = VMLocation (Resources w)"
        using wa by simp_all
      from launching(3) show ?thesis
      proof (cases rule: launch_vm_cases)
        case (aborted err w1)
        have "MainDB w1 = MainDB wa" using aborted(5) add_failed_unchanged [OF _ insert] wb(1) by auto
        moreover have "MainDB w' = MainDB w1" "Resources w' = deallocate_resources i (in_UUID inp) (requirement_of inp) (Resources w1)"
          unfolding aborted(2) by (rule chain_frame)+
        ultimately show ?thesis using aborted(3) wa wb(2) by simp
      next
        case launched
        have "db_view (MainDB w') = (db_view (MainDB wa))(VM_UUID (new_vm inp cms pass) \<mapsto>
            (stored (new_vm inp cms pass), int i))"
          using mysql.add_ok(2) [OF wa(3)] launched(4) db_view_cong [OF launched(5,6)] wb(1) by simp
        moreover have "VMLocation (Resources w') = (VMLocation (Resources w))(in_UUID inp \<mapsto> i)"
          using launched(2) wb(2) by (simp add: register_vm_def)
        ultimately show ?thesis using wa(2) by (auto simp: new_vm_def)
      qed
    qed
  qed
  moreover have "coherent w" using good by (simp add: good_def)
  ultimately have "coherent w'" by (auto simp: coherent_def split: if_splits)
  with wf' show ?thesis by (simp add: good_def)
qed

definition no_lost_insert :: "vm_op \<Rightarrow> bool" where
  "no_lost_insert c \<longleftrightarrow>
     (case c of OpCreate e inp \<Rightarrow> (case tx_commit (ce_insert e) of CommitLost _ \<Rightarrow> False | _ \<Rightarrow> True) | _ \<Rightarrow> True)"

lemma good_step:
  assumes "good w" "no_lost_insert c"
  shows "good (vm_step c w)"
proof (cases c)
  case (OpCreate e inp)
  obtain r w' where run: "create_vm e inp w = (r, w')" by fastforce
  have "\<forall>m. tx_commit (ce_insert e) \<noteq> CommitLost m"
    using assms(2) OpCreate by (auto simp: no_lost_insert_def)
  from good_create [OF assms(1) run this] OpCreate run show ?thesis by simp
next
  case (OpDelete e u)
  show ?thesis unfolding OpDelete vm_step.simps delete_vm_def Let_def using assms(1)
    by (auto simp: good_intros split: prod.split intro!: and_then_steps [where P = good])
next
  case (OpStart e a u)
  show ?thesis unfolding OpStart vm_step.simps start_vm_def Let_def using assms(1)
    by (auto simp: good_intros split: prod.split intro!: and_then_steps [where P = good])
next
  case (OpShutdown e a re t u)
  show ?thesis unfolding OpShutdown vm_step.simps shutdown_vm_def Let_def using assms(1)
    by (auto simp: good_intros split: prod.split intro!: and_then_steps [where P = good])
next
  case (OpCpu e a u)
  show ?thesis unfolding OpCpu vm_step.simps get_vm_cpu_info_def get_vm_status_def Let_def using assms(1)
    by (auto simp: good_intros split: prod.split intro!: and_then_steps [where P = good])
next
  case (OpMemory e a u)
  show ?thesis unfolding OpMemory vm_step.simps get_vm_memory_info_def get_vm_status_def Let_def using assms(1)
    by (auto simp: good_intros split: prod.split intro!: and_then_steps [where P = good])
next
  case (OpDisk e a u)
  show ?thesis unfolding OpDisk vm_step.simps get_vm_disk_info_def get_vm_status_def Let_def using assms(1)
    by (auto simp: good_intros split: prod.split intro!: and_then_steps [where P = good])
next
  case (OpToken e a u)
  show ?thesis unfolding OpToken vm_step.simps get_guacamole_token_def Let_def using assms(1)
    by (auto simp: good_intros split: prod.split option.split intro!: and_then_steps [where P = good])
qed

interpretation caching: invariant_steps vm_step good no_lost_insert
  by unfold_locales (rule good_step)

text \<open>C24: the location cache never disagrees with the database: over any history of service calls
  in which no acknowledgement of an instance insert is lost, whenever a VM has both a cached
  core and a row in the database, the row names the index of that core; so which of the two
  \<open>FindCoreByVmUUID\<close> consults does not matter.\<close>

theorem location_cache_is_coherent:
  assumes "wf_context w" "coherent w" "list_all no_lost_insert ops"
  shows "coherent (fold vm_step ops w) \<and>
    (VMLocation (Resources (fold vm_step ops w)) u = Some i \<longrightarrow>
     get_instance_location e u (MainDB (fold vm_step ops w)) = Ok k \<longrightarrow>
     find_core_by_vm_uuid e u (fold vm_step ops w) = (Some (nat k), fold vm_step ops w))"
proof -
  have good: "good (fold vm_step ops w)"
    using assms by (intro caching.history) (simp_all add: good_def)
  then have "wf_db (MainDB (fold vm_step ops w))" by (simp add: good_def wf_context_def)
  with good mysql.locate_ok [OF this, of e u k] show ?thesis
    by (auto simp: good_def coherent_def find_core_by_vm_uuid_def) (metis nat_int)
qed

theorem location_cache_is_coherent_witness:
  "coherent (fold vm_step [OpCreate demo_create_env demo_input, OpDelete demo_delete_env ''vm-1''] demo_context)"
proof -
  have "coherent demo_context" by (simp add: coherent_def demo_context_def demo_rm_def)
  moreover have "list_all no_lost_insert [OpCreate demo_create_env demo_input, OpDelete demo_delete_env ''vm-1'']"
    by (simp add: no_lost_insert_def demo_create_env_def no_faults_def)
  ultimately show ?thesis
    using location_cache_is_coherent [OF wf_demo_context] by blast
qed

section \<open>A UUID that is already in use\<close>

lemma chain_forgets:
  assumes "\<forall>g. GuacDB w = Some g \<longrightarrow> wf_guac g" "i < length (Cores (Resources w))" "cleanup_applies (ce_guac_cleanup e)"
  shows "GuacDB (fst (chain_run (fold (\<lambda>a c. chain_push (vm_undo a) c)
      [ActGuac e n u ip k, ActAlloc i u vm req] empty_chain) w)) = Some g \<Longrightarrow> find_entity u g = None"
    "vms_of (Cores (Resources (fst (chain_run (fold (\<lambda>a c. chain_push (vm_undo a) c)
      [ActGuac e n u ip k, ActAlloc i u vm req] empty_chain) w))) ! i) u = None"
  unfolding chain_frame using assms
  by (auto simp: cleanup_db_eq find_entity_None_iff cleaned_entities deallocate_resources_def)

lemma duplicate_insert: "u \<in> inst_uuid ` set (inst_info db) \<Longrightarrow> VM_UUID vm = u \<Longrightarrow> snd (add_instance e vm k db) = db"
  by (auto simp: add_instance_def insert_info_def row_of_info_def split: option.split)

text \<open>C25: creating a VM under the UUID of an existing one fails, and a request that got as far as
  writing the status document harms the existing VM, when the cleanup of the rollback takes effect:
  its row stays in the database, but its Guacamole user is deleted, and the table of the core
  that \<open>SelectCore\<close> chose for the request has no entry for it afterwards.\<close>

theorem create_existing_uuid_harms_vm:
  assumes wf: "wf_context w" and known: "db_view (MainDB w) (in_UUID inp) \<noteq> None"
    and run: "create_vm e inp w = (r, w')" and "RedisSet (in_UUID inp) \<in> set (drop (length (trace w)) (trace w'))"
    and clean: "cleanup_applies (ce_guac_cleanup e)"
  shows "\<not> is_ok r \<and> db_view (MainDB w') = db_view (MainDB w) \<and>
    (\<exists>g. GuacDB w' = Some g \<and> find_entity (in_UUID inp) g = None) \<and>
    (\<exists>i. sel_Core (select_core (requirement_of inp) (Resources w)) = Some i \<and>
       vms_of (Cores (Resources w') ! i) (in_UUID inp) = None)"
proof -
  have pre: "RedisSet (in_UUID inp) \<notin> set evs" if "list_all subnet_event evs" for evs
    using that by (induction evs) (auto simp: subnet_event_def)
  from run show ?thesis
  proof (cases rule: create_vm_cases)
    case refused
    then obtain evs where "trace w' = trace w @ evs" "list_all subnet_event evs"
      by (auto simp: same_but_subnet_def)
    with assms(4) pre show ?thesis by simp
  next
    case (placing i keys cms isNew wa)
    then obtain evs where evs: "trace wa = trace w @ evs" "list_all subnet_event evs"
      by (auto simp: same_but_subnet_def)
    have wa: "wf_context wa" using wf placing(5) by (rule wf_context_subnet)
    have cores: "Resources wa = Resources w" using placing(5) by (simp add: same_but_subnet_def)
    have view: "db_view (MainDB wa) = db_view (MainDB w)"
      using placing(5) by (intro db_view_cong) (simp_all add: same_but_subnet_def)
    have sel: "sel_Core (select_core (requirement_of inp) (Resources w)) = Some i"
      using placing(1) by (simp add: select_core_or_fail_def split: option.splits)
    note core = select_core_or_fail_Ok [OF placing(1)]
    from placing(6) show ?thesis
    proof (cases rule: place_vm_cases)
      case unconfigured
      with evs pre [OF evs(2)] assms(4) show ?thesis by simp
    next
      case (launching pass)
      let ?wb = "fold vm_do
            [ActGuac e (us_Name (hd (in_Users inp))) (in_UUID inp) (cms_IP cms) (fst keys),
             ActAlloc i (in_UUID inp) (new_vm inp cms pass) (requirement_of inp)] wa"
      from launching(3) show ?thesis
      proof (cases rule: launch_vm_cases)
        case (aborted err w1)
        have "GuacDB wa \<noteq> None"
          using launching(1,2) by (cases "GuacDB wa") (simp_all add: guac_configure_def configure_def)
        then obtain h where h: "GuacDB w1 = Some h" using aborted(4) by auto
        have "\<forall>g. GuacDB w1 = Some g \<longrightarrow> wf_guac g" "i < length (Cores (Resources w1))"
          using aborted(3,4) wf_context_guac(1) [OF wa] core(1) cores
          by (simp_all add: wf_context_def allocate_resources_def)
        note gone = chain_forgets [OF this clean, where u = "in_UUID inp"]
        have "\<exists>g. GuacDB w' = Some g \<and> find_entity (in_UUID inp) g = None"
          using gone(1) h unfolding aborted(2) chain_frame by auto
        moreover have "vms_of (Cores (Resources w') ! i) (in_UUID inp) = None"
          unfolding aborted(2) by (rule gone(2))
        moreover have "in_UUID inp \<in> inst_uuid ` set (inst_info (MainDB wa))"
          using known info_map_None_iff [of "MainDB wa" "in_UUID inp"]
          by (auto simp: view [symmetric] db_view_def split: option.splits)
        then have "MainDB w1 = MainDB wa"
          using aborted(5) duplicate_insert [of "in_UUID inp" "MainDB wa" "new_vm inp cms pass"]
          by (auto simp: new_vm_def)
        then have "MainDB w' = MainDB wa" unfolding aborted(2) chain_frame .
        ultimately show ?thesis using aborted(1) sel view by auto
      next
        case launched
        have "wf_db (MainDB ?wb)" using wa by (simp add: wf_context_def)
        from mysql.add_ok(1) [OF this launched(4)] known view show ?thesis by (simp add: new_vm_def)
      qed
    qed
  qed
qed

lemma launch_vm_trace_prefix:
  fixes e :: create_env and n u ip k i vm req
  defines "chain \<equiv> fold (\<lambda>a c. chain_push (vm_undo a) c) [ActGuac e n u ip k, ActAlloc i u vm req] empty_chain"
  shows "\<exists>evs. trace (snd (launch_vm e inp i cms isNew key vm chain w)) = trace w @ RedisSet (in_UUID inp) # evs"
proof -
  define w1 where "w1 = snd (redis_store (ce_redis e) (initial_status inp cms) (ce_now e) w)"
  have w1: "trace w1 = trace w @ [RedisSet (in_UUID inp)]" by (simp add: w1_def initial_status_def)
  let ?req = "build_core_create_vm_request inp cms key"
  obtain q w2 where q: "core_create (ce_core e) i ?req w1 = (q, w2)" by fastforce
  have "w2 = snd (core_create (ce_core e) i ?req w1)" using q by simp
  then obtain a where w2: "trace w2 = trace w1 @ a" by auto
  obtain p w3 where p: "repo_add (ce_insert e) vm i w2 = (p, w3)" by fastforce
  have "w3 = snd (repo_add (ce_insert e) vm i w2)" using p by simp
  then have w3: "trace w3 = trace w2 @ [InstanceInsert (VM_UUID vm)]" by simp
  have chain: "trace (fst (chain_run chain v)) = trace v @ [GuacCleanup u]" for v
    by (simp add: chain_def chain_run_def chain_push_def empty_chain_def undo_guac_def undo_resources_def numeral_2_eq_2)
  show ?thesis
    using w1 w2 w3 chain
    by (cases q; cases p; cases isNew) (simp_all add: launch_vm_def abort_with_def Let_def q p flip: w1_def)
qed

lemma create_vm_reaches_redis:
  assumes "select_core_or_fail (requirement_of inp) w = Ok i" "ce_ssh e = Ok keys" "in_Users inp \<noteq> []"
    and sub: "allocate_cms_subnet (ce_subnet e) (in_SubnetType inp) (in_UUID inp) w = (Ok (cms, isNew), wa)"
    and guac: "GuacDB w = Some g" "configure_db (ce_guac e) (us_Name (hd (in_Users inp))) (in_UUID inp)
      (cms_IP cms) (fst keys) g = (Ok pass, g')" "pass \<noteq> []"
  shows "RedisSet (in_UUID inp) \<in> set (drop (length (trace w)) (trace (snd (create_vm e inp w))))"
proof -
  have wa: "same_but_subnet w wa"
    using allocate_cms_subnet_frame [of w "ce_subnet e" "in_SubnetType inp" "in_UUID inp"] sub by simp
  then obtain evs where evs: "trace wa = trace w @ evs" by (auto simp: same_but_subnet_def)
  obtain r w' where run: "place_vm e inp i cms isNew (fst keys) (snd keys) wa = (r, w')" by fastforce
  have all: "create_vm e inp w = (r, w')" using assms(1-4) run by (simp add: create_vm_def)
  from run show ?thesis
  proof (cases rule: place_vm_cases)
    case unconfigured
    with guac wa show ?thesis by (simp add: guac_configure_def configure_def same_but_subnet_def)
  next
    case (launching pass')
    let ?as = "[ActGuac e (us_Name (hd (in_Users inp))) (in_UUID inp) (cms_IP cms) (fst keys),
             ActAlloc i (in_UUID inp) (new_vm inp cms pass') (requirement_of inp)]"
    have "\<exists>more. trace (snd (launch_vm e inp i cms isNew (snd keys) (new_vm inp cms pass')
        (fold (\<lambda>a c. chain_push (vm_undo a) c) ?as empty_chain) (fold vm_do ?as wa))) =
        trace (fold vm_do ?as wa) @ RedisSet (in_UUID inp) # more"
      by (rule launch_vm_trace_prefix)
    then obtain more where "trace w' = trace (fold vm_do ?as wa) @ RedisSet (in_UUID inp) # more"
      unfolding launching(3) snd_conv by blast
    then have "trace w' = trace wa @ GuacConfigure (in_UUID inp) # RedisSet (in_UUID inp) # more" by simp
    with evs all show ?thesis by simp
  qed
qed

text \<open>The same request once more, from the subnet it started with.\<close>

definition demo_known :: control_context where
  "demo_known = demo_after_create\<lparr>Last_subnet := ''10.0.0.''\<rparr>"

theorem create_existing_uuid_harms_vm_witness:
  "\<exists>r w' g g'. create_vm demo_create_env demo_input demo_known = (r, w') \<and> \<not> is_ok r \<and>
     GuacDB demo_known = Some g \<and> find_entity ''vm-1'' g \<noteq> None \<and>
     GuacDB w' = Some g' \<and> find_entity ''vm-1'' g' = None \<and>
     vms_of (Cores (Resources demo_known) ! 1) ''vm-1'' \<noteq> None \<and> vms_of (Cores (Resources w') ! 1) ''vm-1'' = None"
proof -
  obtain r w' where run: "create_vm demo_create_env demo_input demo_known = (r, w')" by fastforce
  obtain g where g: "GuacDB demo_known = Some g" "find_entity ''vm-1'' g \<noteq> None"
    using demo_after_create_known(4) by (auto simp: demo_known_def)
  have input: "in_UUID demo_input = ''vm-1''" "requirement_of demo_input = demo_req"
    "in_SubnetType demo_input = ''New''" "in_Users demo_input \<noteq> []" "us_Name (hd (in_Users demo_input)) = ''user''"
    by (simp_all add: demo_input_def requirement_of_def demo_req_def)
  have sel: "select_core_or_fail demo_req demo_known = Ok 1"
    using demo_after_create_known(7) by (simp add: demo_known_def select_core_or_fail_def)
  have wf: "wf_context demo_known" using wf_demo_after_create by (simp add: demo_known_def wf_context_def)
  have row: "db_view (MainDB demo_known) (in_UUID demo_input) \<noteq> None"
    using demo_after_create_known(2) by (simp add: demo_known_def input)
  have clean: "cleanup_applies (ce_guac_cleanup demo_create_env)"
    by (simp add: demo_create_env_def demo_cleanup_env_def cleanup_applies_def)
  obtain pass where pass: "pass \<noteq> []" "configure_db demo_guac_env ''user'' ''vm-1'' (cms_IP demo_cms) ''priv'' g =
      (Ok pass, snd (configure_db demo_guac_env ''user'' ''vm-1'' (cms_IP demo_cms) ''priv'' g))"
    by (rule demo_configure)
  have "find_subnet ''10.0.0.'' = Ok ''10.0.1.''"
    using find_subnet_wf [of "Subnet 10 0 0" "[]"]
    by (simp add: subnet_str_def subnet_succ_def nat_digits.simps wf_subnet_def last_of_all_def go_simps)
  then have "fst (allocate_cms_subnet (ce_subnet demo_create_env) ''New'' ''vm-1'' demo_known) = Ok (demo_cms, True)"
    by (simp add: allocate_cms_subnet_def new_cms_subnet_def demo_known_def update_subnet_row_def
        demo_create_env_def request_reserved_def cms_new_instance_def request_new_instance_def cms_answer_def
        ok_answer_def unmarshal_def decode_struct_def go_simps demo_cms_def zero_cms_response_def)
  then obtain wa where "allocate_cms_subnet (ce_subnet demo_create_env) ''New'' ''vm-1'' demo_known = (Ok (demo_cms, True), wa)"
    by (metis prod.collapse)
  then have "RedisSet (in_UUID demo_input) \<in> set (drop (length (trace demo_known))
      (trace (snd (create_vm demo_create_env demo_input demo_known))))"
    using pass sel g(1)
    by (intro create_vm_reaches_redis [where i = 1 and keys = "(''priv'', ''pub'')" and cms = demo_cms and isNew = True
          and wa = wa and g = g and pass = pass])
      (simp_all add: input, simp_all add: demo_create_env_def)
  then have "RedisSet (in_UUID demo_input) \<in> set (drop (length (trace demo_known)) (trace w'))" by (simp add: run)
  from create_existing_uuid_harms_vm [OF wf row run this clean] sel
  have "\<not> is_ok r" "\<exists>g'. GuacDB w' = Some g' \<and> find_entity ''vm-1'' g' = None"
    "vms_of (Cores (Resources w') ! 1) ''vm-1'' = None"
    by (auto simp: input select_core_or_fail_def)
  moreover have "vms_of (Cores (Resources demo_known) ! 1) ''vm-1'' \<noteq> None"
    using demo_after_create_known(6) by (simp add: demo_known_def)
  ultimately show ?thesis using run g by blast
qed

end
