(* ===== verification/Interleaving.thy ===== *)
theory Interleaving
  imports VmProperties
begin

text \<open>
  Requests run in goroutines of their own, and the resource manager holds its mutex within an
  operation but not between selecting a core and taking its resources. The step relation
  \<open>place_step\<close> gives the interleavings of placements at that granularity; \<open>CreateVM\<close> is shown to
  be a run of one request alone.
\<close>

section \<open>Placing VMs concurrently\<close>

record job =
  jb_uuid :: uuid
  jb_vm :: vm_info
  jb_req :: hardware_requirement

datatype phase = Waiting | Chosen nat | Holding nat | Finished nat | Refused

type_synonym place_state = "resource_manager \<times> (nat \<Rightarrow> phase)"

inductive place_step :: "(nat \<Rightarrow> job) \<Rightarrow> place_state \<Rightarrow> place_state \<Rightarrow> bool" for jobs where
  choose: "ph t = Waiting \<Longrightarrow> sel_Core (select_core (jb_req (jobs t)) rm) = Some i \<Longrightarrow>
    place_step jobs (rm, ph) (rm, ph(t := Chosen i))"
| refuse: "ph t = Waiting \<Longrightarrow> sel_Core (select_core (jb_req (jobs t)) rm) = None \<Longrightarrow>
    place_step jobs (rm, ph) (rm, ph(t := Refused))"
| give_up: "ph t = Chosen i \<Longrightarrow> place_step jobs (rm, ph) (rm, ph(t := Refused))"
| take_core: "ph t = Chosen i \<Longrightarrow>
    place_step jobs (rm, ph)
      (allocate_resources i (jb_uuid (jobs t)) (jb_vm (jobs t)) (jb_req (jobs t)) rm, ph(t := Holding i))"
| roll_back: "ph t = Holding i \<Longrightarrow>
    place_step jobs (rm, ph) (deallocate_resources i (jb_uuid (jobs t)) (jb_req (jobs t)) rm, ph(t := Refused))"
| keep: "ph t = Holding i \<Longrightarrow>
    place_step jobs (rm, ph) (register_vm (jb_uuid (jobs t)) i (jb_vm (jobs t)) rm, ph(t := Finished i))"

lemma Cores_nth_ops:
  "i < length (Cores rm) \<Longrightarrow> Cores (allocate_resources i u vm req rm) ! j =
     (if j = i then alloc_core u vm req (Cores rm ! i) else Cores rm ! j)"
  "i < length (Cores rm) \<Longrightarrow> Cores (deallocate_resources i u req rm) ! j =
     (if j = i then dealloc_core u req (Cores rm ! i) else Cores rm ! j)"
  by (simp_all add: allocate_resources_def deallocate_resources_def nth_list_update)

definition demo_job :: "nat \<Rightarrow> job" where
  "demo_job t = (let u = ''vm-'' @ replicate t CHR ''x'' in
     \<lparr>jb_uuid = u, jb_vm = demo_vm\<lparr>VM_UUID := u, VM_Memory := 40000\<rparr>, jb_req = demo_req\<lparr>req_Memory := 40000\<rparr>\<rparr>)"

lemma two_requests_overlap:
  fixes jobs :: "nat \<Rightarrow> job"
  defines "taken t i rm \<equiv> allocate_resources i (jb_uuid (jobs t)) (jb_vm (jobs t)) (jb_req (jobs t)) rm"
    and "kept t i rm \<equiv> register_vm (jb_uuid (jobs t)) i (jb_vm (jobs t)) rm"
  assumes sel: "sel_Core (select_core (jb_req (jobs 0)) rm) = Some i" "sel_Core (select_core (jb_req (jobs 1)) rm) = Some i"
  shows "(place_step jobs)\<^sup>*\<^sup>* (rm, \<lambda>_. Waiting)
    (kept 1 i (kept 0 i (taken 1 i (taken 0 i rm))), (\<lambda>_. Waiting)(0 := Finished i, 1 := Finished i))"
proof -
  define P where "P = (\<lambda>p q. (\<lambda>_. Waiting)(0 := p, 1 := q) :: nat \<Rightarrow> phase)"
  have upd: "(P p q)(0 := r) = P r q" "(P p q)(1 := r) = P p r" for p q r by (auto simp: P_def)
  have at: "P p q 0 = p" "P p q 1 = q" for p q by (simp_all add: P_def)
  have start: "(\<lambda>_. Waiting) = P Waiting Waiting" by (auto simp: P_def)
  have steps:
    "place_step jobs (rm, P Waiting Waiting) (rm, P (Chosen i) Waiting)"
    "place_step jobs (rm, P (Chosen i) Waiting) (rm, P (Chosen i) (Chosen i))"
    "place_step jobs (rm, P (Chosen i) (Chosen i)) (taken 0 i rm, P (Holding i) (Chosen i))"
    "place_step jobs (v, P (Holding i) (Chosen i)) (taken 1 i v, P (Holding i) (Holding i))"
    "place_step jobs (v, P (Holding i) (Holding i)) (kept 0 i v, P (Finished i) (Holding i))"
    "place_step jobs (v, P (Finished i) (Holding i)) (kept 1 i v, P (Finished i) (Finished i))" for v
    using sel place_step.choose [of "P Waiting Waiting" 0 jobs rm i] place_step.choose [of "P (Chosen i) Waiting" 1 jobs rm i]
      place_step.take_core [of "P (Chosen i) (Chosen i)" 0 i jobs rm] place_step.take_core [of "P (Holding i) (Chosen i)" 1 i jobs v]
      place_step.keep [of "P (Holding i) (Holding i)" 0 i jobs v] place_step.keep [of "P (Finished i) (Holding i)" 1 i jobs v]
    by (simp_all add: upd at taken_def kept_def del: One_nat_def)
  then have "(place_step jobs)\<^sup>*\<^sup>* (rm, P Waiting Waiting)
      (kept 1 i (kept 0 i (taken 1 i (taken 0 i rm))), P (Finished i) (Finished i))"
    by (meson converse_rtranclp_into_rtranclp rtranclp.rtrancl_refl)
  then show ?thesis unfolding start by (simp add: P_def)
qed

text \<open>C29: as the code is written, two concurrent requests can both pass the test of the free
  memory and then both take it: whenever a core is the choice for each of two requests but has
  not the memory for the two together, there is an interleaving that places both, and the free
  memory of the core wraps around to almost \<open>2 ^ 32\<close> MiB.\<close>

theorem unlocked_placement_overcommits:
  assumes "sel_Core (select_core (jb_req (jobs 0)) rm) = Some i" "sel_Core (select_core (jb_req (jobs 1)) rm) = Some i"
    and "unat (FreeMemory (Cores rm ! i)) < unat (req_Memory (jb_req (jobs 0))) + unat (req_Memory (jb_req (jobs 1)))"
  shows "\<exists>rm' ph'. (place_step jobs)\<^sup>*\<^sup>* (rm, \<lambda>_. Waiting) (rm', ph') \<and> ph' 0 = Finished i \<and> ph' 1 = Finished i \<and>
    unat (FreeMemory (Cores rm' ! i)) =
      2 ^ 32 + unat (FreeMemory (Cores rm ! i)) - unat (req_Memory (jb_req (jobs 0))) - unat (req_Memory (jb_req (jobs 1)))"
proof -
  let ?f = "FreeMemory (Cores rm ! i)" and ?a = "req_Memory (jb_req (jobs 0))" and ?b = "req_Memory (jb_req (jobs 1))"
  have i: "i < length (Cores rm)" and fit: "?a \<le> ?f"
    using assms(1) by (simp_all add: select_core_Some_iff fits_def)
  then have a: "unat (?f - ?a) = unat ?f - unat ?a" "unat ?a \<le> unat ?f" by (simp_all add: unat_sub_word word_le_nat_alt)
  with assms(3) have "?f - ?a < ?b" by (simp add: word_less_nat_alt)
  from word_sub_wraps [OF this] a have wrap: "unat (?f - ?a - ?b) = 2 ^ 32 + unat ?f - unat ?a - unat ?b" by simp
  show ?thesis
    by (rule exI, rule exI, rule conjI, rule two_requests_overlap [OF assms(1,2)])
      (use i wrap in \<open>simp add: Cores_nth_ops\<close>)
qed

theorem unlocked_placement_overcommits_witness:
  "\<exists>rm' ph'. (place_step demo_job)\<^sup>*\<^sup>* (demo_rm, \<lambda>_. Waiting) (rm', ph') \<and>
     unat (FreeMemory (Cores rm' ! 1)) = 4294936448"
proof -
  have "sel_Core (select_core (jb_req (demo_job t)) demo_rm) = Some 1" for t
    by (simp add: demo_job_def Let_def select_core_def fits_def demo_defs)
  moreover have "unat (FreeMemory (Cores demo_rm ! 1)) = 49152" "unat (req_Memory (jb_req (demo_job t))) = 40000" for t
    by (simp_all add: demo_job_def Let_def demo_defs)
  ultimately show ?thesis
    using unlocked_placement_overcommits [of demo_job demo_rm 1] by (auto simp del: One_nat_def)
qed

section \<open>One request alone\<close>

lemma solo_refuse:
  assumes "jb_req (jobs t) = req" "ph t = Waiting"
  shows "(place_step jobs)\<^sup>*\<^sup>* (rm, ph) (rm, ph(t := Refused))"
proof (cases "sel_Core (select_core req rm)")
  case None
  with assms show ?thesis by (intro r_into_rtranclp place_step.refuse) simp_all
next
  case (Some i)
  with assms have "place_step jobs (rm, ph) (rm, ph(t := Chosen i))" by (intro place_step.choose) simp_all
  moreover have "place_step jobs (rm, ph(t := Chosen i)) (rm, ph(t := Refused))"
    using place_step.give_up [of "ph(t := Chosen i)" t i jobs rm] by simp
  ultimately show ?thesis by (rule converse_rtranclp_into_rtranclp [OF _ r_into_rtranclp])
qed

lemma solo_hold:
  assumes "jobs t = \<lparr>jb_uuid = u, jb_vm = vm, jb_req = req\<rparr>" "ph t = Waiting" "sel_Core (select_core req rm) = Some i"
  shows "(place_step jobs)\<^sup>*\<^sup>* (rm, ph) (allocate_resources i u vm req rm, ph(t := Holding i))"
proof -
  have "place_step jobs (rm, ph) (rm, ph(t := Chosen i))" using assms by (intro place_step.choose) simp_all
  moreover have "place_step jobs (rm, ph(t := Chosen i)) (allocate_resources i u vm req rm, ph(t := Holding i))"
    using place_step.take_core [of "ph(t := Chosen i)" t i jobs rm] assms(1) by simp
  ultimately show ?thesis by (rule converse_rtranclp_into_rtranclp [OF _ r_into_rtranclp])
qed

lemma solo_end:
  assumes "jobs t = \<lparr>jb_uuid = u, jb_vm = vm, jb_req = req\<rparr>" "ph t = Waiting" "sel_Core (select_core req rm) = Some i"
  shows "(place_step jobs)\<^sup>*\<^sup>* (rm, ph)
      (deallocate_resources i u req (allocate_resources i u vm req rm), ph(t := Refused))"
    "(place_step jobs)\<^sup>*\<^sup>* (rm, ph)
      (register_vm u i vm (allocate_resources i u vm req rm), ph(t := Finished i))"
proof -
  let ?rm = "allocate_resources i u vm req rm" and ?ph = "ph(t := Holding i)"
  note hold = solo_hold [where jobs = jobs and ph = ph and t = t, OF assms]
  have "place_step jobs (?rm, ?ph) (deallocate_resources i u req ?rm, ph(t := Refused))"
    "place_step jobs (?rm, ?ph) (register_vm u i vm ?rm, ph(t := Finished i))"
    using place_step.roll_back [of ?ph t i jobs ?rm] place_step.keep [of ?ph t i jobs ?rm] assms(1) by simp_all
  with hold show "(place_step jobs)\<^sup>*\<^sup>* (rm, ph) (deallocate_resources i u req ?rm, ph(t := Refused))"
    "(place_step jobs)\<^sup>*\<^sup>* (rm, ph) (register_vm u i vm ?rm, ph(t := Finished i))"
    by (blast intro: rtranclp.rtrancl_into_rtrancl)+
qed

text \<open>A request of this job, alone, goes from waiting to \<open>p\<close> and changes the resource manager as
  given.\<close>

definition runs_as :: "job \<Rightarrow> phase \<Rightarrow> resource_manager \<Rightarrow> resource_manager \<Rightarrow> bool" where
  "runs_as j p rm rm' \<longleftrightarrow> (\<forall>jobs ph t. jobs t = j \<longrightarrow> ph t = Waiting \<longrightarrow>
     (place_step jobs)\<^sup>*\<^sup>* (rm, ph) (rm', ph(t := p)))"

lemma runs_as_refused: "runs_as j Refused rm rm"
  using solo_refuse by (auto simp: runs_as_def)

lemma runs_as_ends:
  fixes u vm
  assumes "sel_Core (select_core req rm) = Some i"
  defines "j \<equiv> \<lparr>jb_uuid = u, jb_vm = vm, jb_req = req\<rparr>"
  shows "runs_as j Refused rm (deallocate_resources i u req (allocate_resources i u vm req rm))"
    "runs_as j (Finished i) rm (register_vm u i vm (allocate_resources i u vm req rm))"
  using solo_end [OF _ _ assms(1)] by (simp_all add: runs_as_def j_def)

text \<open>C7: a \<open>CreateVM\<close> that runs alone does to the resource manager exactly what the steps of one
  request do: it ends with its VM kept on the chosen core if it succeeds and refused otherwise.\<close>

theorem create_vm_takes_the_steps:
  assumes "create_vm e inp w = (r, w')"
  shows "\<exists>vm p. VM_UUID vm = in_UUID inp \<and> matches (requirement_of inp) vm \<and>
    runs_as \<lparr>jb_uuid = in_UUID inp, jb_vm = vm, jb_req = requirement_of inp\<rparr> p (Resources w) (Resources w') \<and>
    (if is_ok r then \<exists>i. p = Finished i else p = Refused)"
proof -
  have vm: "VM_UUID (new_vm inp cms pass) = in_UUID inp" "matches (requirement_of inp) (new_vm inp cms pass)" for cms pass
    by (simp_all add: new_vm_def matches_def requirement_of_def)
  have none: ?thesis if "\<not> is_ok r" "Resources w' = Resources w"
    using runs_as_refused vm that by metis
  from assms show ?thesis
  proof (cases rule: create_vm_cases)
    case refused
    then show ?thesis by (intro none) (simp_all add: same_but_subnet_def)
  next
    case (placing i keys cms isNew wa)
    have rm: "Resources wa = Resources w" using placing(5) by (simp add: same_but_subnet_def)
    have sel: "sel_Core (select_core (requirement_of inp) (Resources w)) = Some i"
      using placing(1) by (simp add: select_core_or_fail_def split: option.splits)
    from placing(6) show ?thesis
    proof (cases rule: place_vm_cases)
      case unconfigured
      then show ?thesis using rm by (intro none) simp_all
    next
      case (launching pass)
      note ends = runs_as_ends [OF sel, of "in_UUID inp" "new_vm inp cms pass"]
      from launching(3) show ?thesis
      proof (cases rule: launch_vm_cases)
        case (aborted err w1)
        have "Resources w' = deallocate_resources i (in_UUID inp) (requirement_of inp) (Resources w1)"
          unfolding aborted(2) by (rule chain_frame)
        with aborted(1,3) rm ends(1) vm [of cms pass] show ?thesis
          by (intro exI [of _ "new_vm inp cms pass"] exI [of _ Refused]) simp
      next
        case launched
        with rm ends(2) vm [of cms pass] show ?thesis
          by (intro exI [of _ "new_vm inp cms pass"] exI [of _ "Finished i"]) simp
      qed
    qed
  qed
qed

theorem create_vm_takes_the_steps_witness:
  "\<exists>vm p. runs_as \<lparr>jb_uuid = ''vm-1'', jb_vm = vm, jb_req = requirement_of demo_input\<rparr> p (Resources demo_context)
     (Resources (snd (create_vm demo_create_env demo_input demo_context)))"
  using create_vm_takes_the_steps [of demo_create_env demo_input demo_context, OF prod.collapse [symmetric]]
  by (auto simp: demo_input_def)

end
