(* ===== verification/Snapshots.thy ===== *)
theory Snapshots
  imports ControlContext
begin

text \<open>
  \<open>client/rustfs.go\<close> and \<open>service/external_snap.go\<close>: the client of the S3-compatible store and
  the snapshot operations of the service. The SDK is a record of functions; a listing comes in
  pages, each with the token of the page after it, as the ListObjectsV2 call documents. The
  client is created at most once, and what that attempt gave, an error included, is kept.
\<close>

section \<open>The SDK\<close>

datatype head_outcome = HeadOk | HeadNotFound | HeadError error

text \<open>A name or key of an answer is a pointer to a string.\<close>

record s3_api =
  s3_load :: "error option"
  s3_list_buckets :: "string option list result"
  s3_create_bucket :: "string \<Rightarrow> error option"
  s3_presign_put :: "string \<Rightarrow> string \<Rightarrow> string result"
  s3_presign_get :: "string \<Rightarrow> string \<Rightarrow> string result"
  s3_head :: "string \<Rightarrow> string \<Rightarrow> head_outcome"
  s3_list_objects :: "string \<Rightarrow> string \<Rightarrow> string option \<Rightarrow> (string option list \<times> string option) result"
  s3_delete_object :: "string \<Rightarrow> string \<Rightarrow> error option"

definition aws_to_string :: "string option \<Rightarrow> string" where
  "aws_to_string p = (case p of None \<Rightarrow> [] | Some s \<Rightarrow> s)"

section \<open>The client\<close>

text \<open>The client has no state but its settings: endpoint, access key and secret key.\<close>

record rustfs_client =
  rf_endpoint :: string
  rf_access :: string
  rf_secret :: string

definition default_to :: "string \<Rightarrow> string \<Rightarrow> string" where
  "default_to s d = (if s = [] then d else s)"

definition new_rustfs_client :: "(string \<Rightarrow> string) \<Rightarrow> s3_api \<Rightarrow> rustfs_client result" where
  "new_rustfs_client env s3 =
     (case s3_load s3 of
        Some e \<Rightarrow> Fail e
      | None \<Rightarrow> Ok \<lparr>rf_endpoint = default_to (env ''RUSTFS_ENDPOINT'') ''http://localhost:9000'',
                   rf_access = default_to (env ''RUSTFS_ACCESS_KEY'') ''minioadmin'',
                   rf_secret = default_to (env ''RUSTFS_SECRET_KEY'') ''minioadmin''\<rparr>)"

type_synonym rustfs_once = "rustfs_client result option"

definition get_rustfs_client ::
  "(string \<Rightarrow> string) \<Rightarrow> s3_api \<Rightarrow> rustfs_once \<Rightarrow> rustfs_client result \<times> rustfs_once" where
  "get_rustfs_client env s3 once =
     (case once of
        Some r \<Rightarrow> (r, once)
      | None \<Rightarrow> (let r = new_rustfs_client env s3 in (r, Some r)))"

definition list_buckets :: "s3_api \<Rightarrow> string list result" where
  "list_buckets s3 =
     (case s3_list_buckets s3 of Ok ns \<Rightarrow> Ok (map aws_to_string ns) | Fail e \<Rightarrow> Fail e | Panic \<Rightarrow> Panic)"

definition create_bucket :: "s3_api \<Rightarrow> string \<Rightarrow> unit result" where
  "create_bucket s3 bucket = (case s3_create_bucket s3 bucket of None \<Rightarrow> Ok () | Some e \<Rightarrow> Fail e)"

definition presign_put_object :: "s3_api \<Rightarrow> string \<Rightarrow> string \<Rightarrow> string result" where
  "presign_put_object s3 bucket key = s3_presign_put s3 bucket key"

definition presign_get_object :: "s3_api \<Rightarrow> string \<Rightarrow> string \<Rightarrow> string result" where
  "presign_get_object s3 bucket key = s3_presign_get s3 bucket key"

definition object_error :: "string \<Rightarrow> string \<Rightarrow> string \<Rightarrow> error \<Rightarrow> error" where
  "object_error what bucket key e = wrap (what @ bucket @ ''/'' @ key) e"

definition head_object :: "s3_api \<Rightarrow> string \<Rightarrow> string \<Rightarrow> bool result" where
  "head_object s3 bucket key =
     (case s3_head s3 bucket key of
        HeadOk \<Rightarrow> Ok True
      | HeadNotFound \<Rightarrow> Ok False
      | HeadError e \<Rightarrow> Fail (object_error ''HeadObject '' bucket key e))"

definition list_objects :: "s3_api \<Rightarrow> string \<Rightarrow> string \<Rightarrow> string list result" where
  "list_objects s3 bucket prefix =
     (case s3_list_objects s3 bucket prefix None of
        Fail e \<Rightarrow> Fail (wrap (''ListObjects '' @ bucket) e)
      | Panic \<Rightarrow> Panic
      | Ok (keys, _) \<Rightarrow> Ok (map aws_to_string keys))"

definition delete_object :: "s3_api \<Rightarrow> string \<Rightarrow> string \<Rightarrow> unit result" where
  "delete_object s3 bucket key =
     (case s3_delete_object s3 bucket key of
        None \<Rightarrow> Ok ()
      | Some e \<Rightarrow> Fail (object_error ''DeleteObject '' bucket key e))"

section \<open>The service\<close>

definition list_snapshots ::
  "(string \<Rightarrow> string) \<Rightarrow> s3_api \<Rightarrow> uuid \<Rightarrow> rustfs_once \<Rightarrow> string list result \<times> rustfs_once" where
  "list_snapshots env s3 u once =
     and_then (wrapped ''ListSnapshots: RustFS unavailable'' (get_rustfs_client env s3 once)) (\<lambda>_ once.
       wrapped (''ListSnapshots '' @ u) (list_objects s3 u [], once))"

definition delete_snapshot ::
  "(string \<Rightarrow> string) \<Rightarrow> s3_api \<Rightarrow> uuid \<Rightarrow> string \<Rightarrow> rustfs_once \<Rightarrow> unit result \<times> rustfs_once" where
  "delete_snapshot env s3 u key once =
     and_then (wrapped ''DeleteSnapshot: RustFS unavailable'' (get_rustfs_client env s3 once)) (\<lambda>_ once.
       wrapped (''DeleteSnapshot '' @ u @ ''/'' @ key) (delete_object s3 u key, once))"

text \<open>The presigned URL is dropped: the call to the core is still to be written.\<close>

definition take_snapshot ::
  "tx_env \<Rightarrow> (string \<Rightarrow> string) \<Rightarrow> s3_api \<Rightarrow> uuid \<Rightarrow> string \<Rightarrow> control_context \<times> rustfs_once \<Rightarrow>
   unit result \<times> control_context \<times> rustfs_once" where
  "take_snapshot e env s3 u name s =
     (case find_core_by_vm_uuid e u (fst s) of
        (None, w) \<Rightarrow> (Fail (''TakeSnapshot: VM '' @ u @ '' not found''), w, snd s)
      | (Some _, w) \<Rightarrow>
          (case get_rustfs_client env s3 (snd s) of
             (Fail err, once) \<Rightarrow> (Fail (wrap ''TakeSnapshot: RustFS unavailable'' err), w, once)
           | (Panic, once) \<Rightarrow> (Panic, w, once)
           | (Ok _, once) \<Rightarrow>
               (case presign_put_object s3 u name of
                  Fail err \<Rightarrow>
                    (Fail (''TakeSnapshot '' @ u @ wrap '': failed to generate presigned URL'' err), w, once)
                | Panic \<Rightarrow> (Panic, w, once)
                | Ok _ \<Rightarrow> (Ok (), w, once))))"

section \<open>Properties\<close>

lemma find_core_frame:
  "trace (snd (find_core_by_vm_uuid e u w)) = trace w \<and> MainDB (snd (find_core_by_vm_uuid e u w)) = MainDB w \<and>
   GuacDB (snd (find_core_by_vm_uuid e u w)) = GuacDB w \<and> Redis (snd (find_core_by_vm_uuid e u w)) = Redis w \<and>
   Cores (Resources (snd (find_core_by_vm_uuid e u w))) = Cores (Resources w)"
  by (simp add: find_core_by_vm_uuid_def cache_location_def split: option.split result.split)

text \<open>A \<open>TakeSnapshot\<close> that succeeds has called neither the core nor any other service and has
  changed nothing but the location cache: no snapshot exists afterwards, although the API
  answers that one was taken.\<close>

theorem take_snapshot_takes_nothing:
  assumes "take_snapshot e env s3 u name (w, once) = (Ok (), w', once')"
  shows "trace w' = trace w \<and> Cores (Resources w') = Cores (Resources w) \<and> MainDB w' = MainDB w \<and>
    GuacDB w' = GuacDB w \<and> Redis w' = Redis w"
proof -
  obtain i where "find_core_by_vm_uuid e u w = (Some i, w')"
    using assms by (auto simp: take_snapshot_def split: prod.splits option.splits result.splits)
  with find_core_frame [of e u w] show ?thesis by simp
qed

text \<open>The snapshots that are listed are those of the first page the store answers with; a store
  that pages its answers hides the others, although the comment promises all object keys.\<close>

theorem list_snapshots_first_page:
  assumes "s3_list_objects s3 u [] None = Ok (map Some (take page keys), Some token)" "page < length keys"
    "once = Some (Ok c)" "distinct keys"
  shows "fst (list_snapshots env s3 u once) = Ok (take page keys) \<and> keys ! page \<notin> set (take page keys)"
proof -
  have "fst (list_snapshots env s3 u once) = Ok (take page keys)"
    using assms by (simp add: list_snapshots_def get_rustfs_client_def list_objects_def aws_to_string_def comp_def)
  moreover have "keys ! page \<notin> set (take page keys)"
    using assms(2,4) by (auto simp: in_set_conv_nth nth_eq_iff_index_eq)
  ultimately show ?thesis by blast
qed

text \<open>The first error of creating the RustFS client is final: whatever changes afterwards, every
  later snapshot call reports the same error.\<close>

theorem rustfs_error_is_final:
  assumes "s3_load s3 = Some err"
  shows "\<exists>once. get_rustfs_client env s3 None = (Fail err, once) \<and>
    (\<forall>env' s3'. get_rustfs_client env' s3' once = (Fail err, once) \<and>
       fst (list_snapshots env' s3' u once) = Fail (wrap ''ListSnapshots: RustFS unavailable'' err))"
  using assms
  by (intro exI [of _ "Some (Fail err)"])
    (simp add: get_rustfs_client_def new_rustfs_client_def list_snapshots_def Let_def)

definition demo_s3 :: s3_api where
  "demo_s3 = \<lparr>s3_load = None, s3_list_buckets = Ok [], s3_create_bucket = (\<lambda>_. None),
     s3_presign_put = (\<lambda>b k. Ok (''http://s3/'' @ b @ ''/'' @ k)), s3_presign_get = (\<lambda>b k. Ok (''http://s3/'' @ b @ ''/'' @ k)),
     s3_head = (\<lambda>_ _. HeadNotFound),
     s3_list_objects = (\<lambda>_ _ t. Ok (if t = None then ([Some ''a'', Some ''b''], Some ''2'') else ([Some ''c''], None))),
     s3_delete_object = (\<lambda>_ _. None)\<rparr>"

definition demo_client :: rustfs_client where
  "demo_client = \<lparr>rf_endpoint = ''http://localhost:9000'', rf_access = ''a'', rf_secret = ''s''\<rparr>"

definition demo_located :: control_context where
  "demo_located = \<lparr>Resources = demo_rm\<lparr>VMLocation := [''vm-1'' \<mapsto> 1]\<rparr>, MainDB = empty_db, GuacDB = None,
     Redis = Map.empty, Last_subnet = [], GuacBaseURL = [], trace = []\<rparr>"

theorem take_snapshot_takes_nothing_witness:
  "trace (fst (snd (take_snapshot no_faults (\<lambda>_. []) demo_s3 ''vm-1'' ''s1'' (demo_located, None)))) = []"
proof -
  obtain w' once' where run: "take_snapshot no_faults (\<lambda>_. []) demo_s3 ''vm-1'' ''s1'' (demo_located, None) = (Ok (), w', once')"
    by (simp add: take_snapshot_def find_core_by_vm_uuid_def demo_located_def get_rustfs_client_def
        new_rustfs_client_def demo_s3_def presign_put_object_def Let_def)
  from take_snapshot_takes_nothing [OF run] run show ?thesis by (simp add: demo_located_def)
qed

theorem list_snapshots_first_page_witness:
  "fst (list_snapshots (\<lambda>_. []) demo_s3 ''vm-1'' (Some (Ok demo_client))) = Ok [''a'', ''b'']"
  using list_snapshots_first_page [of demo_s3 "''vm-1''" 2 "[''a'', ''b'', ''c'']" "''2''" "Some (Ok demo_client)" demo_client]
  by (simp add: demo_s3_def)

theorem rustfs_error_is_final_witness:
  "\<exists>once. get_rustfs_client (\<lambda>_. []) (demo_s3\<lparr>s3_load := Some ''bad profile''\<rparr>) None = (Fail ''bad profile'', once)"
  using rustfs_error_is_final [of "demo_s3\<lparr>s3_load := Some ''bad profile''\<rparr>" "''bad profile''" "\<lambda>_. []"] by fastforce

end
