(* ===== verification/Handlers.thy ===== *)
theory Handlers
  imports VmService Snapshots
begin

text \<open>
  \<open>api/*.go\<close> and \<open>util/response.go\<close>: the HTTP handlers, the route table of \<open>Server\<close> and the
  header that \<open>withSecurityHeaders\<close> adds. A request carries the first JSON value of its body,
  which is all that \<open>Decode\<close> reads, and the \<open>uuid\<close> of its query; the outcomes of everything a handler calls are in its environment. A
  panic is recovered by \<open>net/http\<close>, which drops the connection: there is no reply then.
\<close>

section \<open>Replies\<close>

datatype reply_body = NoReplyBody | JsonReply json | TextReply string

record http_reply =
  rp_status :: int
  rp_headers :: "(string \<times> string) list"
  rp_body :: reply_body

definition respond_json :: "int \<Rightarrow> json \<Rightarrow> http_reply" where
  "respond_json status data =
     \<lparr>rp_status = status, rp_headers = [(''Content-Type'', ''application/json'')], rp_body = JsonReply data\<rparr>"

definition respond_error :: "int \<Rightarrow> string \<Rightarrow> http_reply" where
  "respond_error status message = respond_json status (JObj [(''error'', JStr message)])"

definition write_header :: "int \<Rightarrow> http_reply" where
  "write_header status = \<lparr>rp_status = status, rp_headers = [], rp_body = NoReplyBody\<rparr>"

section \<open>Request bodies\<close>

record api_hardware_info =
  ah_CPU :: uint32
  ah_Memory :: uint32
  ah_Disk :: uint32

record api_user_info =
  au_Name :: string
  au_Groups :: string
  au_Password :: string
  au_SSH :: "string list option"

record api_create_vm_request =
  ac_DomType :: string
  ac_DomName :: string
  ac_UUID :: uuid
  ac_OS :: string
  ac_HWInfo :: api_hardware_info
  ac_IPs :: "string list option"
  ac_Users :: "api_user_info list option"
  ac_SubnetType :: string

definition zero_hardware :: api_hardware_info where
  "zero_hardware = \<lparr>ah_CPU = 0, ah_Memory = 0, ah_Disk = 0\<rparr>"

definition hardware_fields :: "api_hardware_info field list" where
  "hardware_fields =
     [(''cpu'', uint32_field (\<lambda>w r. r\<lparr>ah_CPU := w\<rparr>)),
      (''memory'', uint32_field (\<lambda>w r. r\<lparr>ah_Memory := w\<rparr>)),
      (''disk'', uint32_field (\<lambda>w r. r\<lparr>ah_Disk := w\<rparr>))]"

definition zero_user :: api_user_info where
  "zero_user = \<lparr>au_Name = [], au_Groups = [], au_Password = [], au_SSH = None\<rparr>"

definition user_fields :: "api_user_info field list" where
  "user_fields =
     [(''name'', str_field (\<lambda>s r. r\<lparr>au_Name := s\<rparr>)),
      (''groups'', str_field (\<lambda>s r. r\<lparr>au_Groups := s\<rparr>)),
      (''passWord'', str_field (\<lambda>s r. r\<lparr>au_Password := s\<rparr>)),
      (''ssh'', slice_field decode_string (\<lambda>x r. r\<lparr>au_SSH := x\<rparr>))]"

definition network_fields :: "string list option field list" where
  "network_fields = [(''ips'', slice_field decode_string (\<lambda>x _. x))]"

definition zero_api_create :: api_create_vm_request where
  "zero_api_create = \<lparr>ac_DomType = [], ac_DomName = [], ac_UUID = [], ac_OS = [], ac_HWInfo = zero_hardware,
     ac_IPs = None, ac_Users = None, ac_SubnetType = []\<rparr>"

definition api_create_fields :: "api_create_vm_request field list" where
  "api_create_fields =
     [(''domType'', str_field (\<lambda>s r. r\<lparr>ac_DomType := s\<rparr>)),
      (''domName'', str_field (\<lambda>s r. r\<lparr>ac_DomName := s\<rparr>)),
      (''uuid'', str_field (\<lambda>s r. r\<lparr>ac_UUID := s\<rparr>)),
      (''os'', str_field (\<lambda>s r. r\<lparr>ac_OS := s\<rparr>)),
      (''HWInfo'', struct_field hardware_fields ac_HWInfo (\<lambda>x r. r\<lparr>ac_HWInfo := x\<rparr>)),
      (''network'', struct_field network_fields ac_IPs (\<lambda>x r. r\<lparr>ac_IPs := x\<rparr>)),
      (''users'', slice_field (decode_struct user_fields zero_user) (\<lambda>x r. r\<lparr>ac_Users := x\<rparr>)),
      (''Subnettype'', str_field (\<lambda>s r. r\<lparr>ac_SubnetType := s\<rparr>))]"

definition service_user :: "api_user_info \<Rightarrow> user_spec" where
  "service_user u = \<lparr>us_Name = au_Name u, us_Groups = au_Groups u, us_Password = au_Password u, us_SSH = au_SSH u\<rparr>"

definition to_service_input :: "api_create_vm_request \<Rightarrow> create_vm_input" where
  "to_service_input r = \<lparr>in_UUID = ac_UUID r, in_DomType = ac_DomType r, in_DomName = ac_DomName r,
     in_OS = ac_OS r, in_CPU = ah_CPU (ac_HWInfo r), in_Memory = ah_Memory (ac_HWInfo r),
     in_Disk = ah_Disk (ac_HWInfo r), in_IPs = ac_IPs r,
     in_Users = (case ac_Users r of None \<Rightarrow> [] | Some us \<Rightarrow> map service_user us),
     in_SubnetType = ac_SubnetType r\<rparr>"

text \<open>The bodies that hold a UUID, and those that hold a UUID and a second string.\<close>

definition uuid_fields :: "uuid field list" where
  "uuid_fields = [(''uuid'', str_field (\<lambda>s _. s))]"

definition uuid_and :: "string \<Rightarrow> (uuid \<times> string) field list" where
  "uuid_and key = [(''uuid'', str_field (\<lambda>s r. (s, snd r))), (key, str_field (\<lambda>s r. (fst r, s)))]"

text \<open>\<open>RedisStatusRequest\<close> spells its keys differently.\<close>

definition redis_status_fields :: "(uuid \<times> string) field list" where
  "redis_status_fields = [(''UUID'', str_field (\<lambda>s r. (s, snd r))), (''status'', str_field (\<lambda>s r. (fst r, s)))]"

section \<open>The server and its requests\<close>

record server =
  sv_context :: control_context
  sv_rustfs :: rustfs_once

text \<open>\<open>ae_no_json\<close> is what the decoder reports for a text that is no JSON document: a syntax error,
  or another error such as the end of the input.\<close>

datatype no_json = SyntaxError | OtherError error

record api_env =
  ae_no_json :: "string \<Rightarrow> no_json"
  ae_create :: create_env
  ae_delete :: delete_env
  ae_find :: tx_env
  ae_http :: http_outcome
  ae_redis :: redis_env
  ae_check :: redis_env
  ae_now :: int64
  ae_env :: "string \<Rightarrow> string"
  ae_s3 :: s3_api

record api_request =
  rq_method :: string
  rq_path :: string
  rq_uuid :: uuid
  rq_body :: json_text

type_synonym handler = "api_env \<Rightarrow> api_request \<Rightarrow> server \<Rightarrow> http_reply option \<times> server"

definition on_context :: "(control_context \<Rightarrow> 'a \<times> control_context) \<Rightarrow> server \<Rightarrow> 'a \<times> server" where
  "on_context f s = (case f (sv_context s) of (x, w) \<Rightarrow> (x, s\<lparr>sv_context := w\<rparr>))"

text \<open>The end of every handler: an error becomes a reply of status 500, or the one given.\<close>

definition reply_with ::
  "int \<Rightarrow> ('a \<Rightarrow> http_reply) \<Rightarrow> 'a result \<times> server \<Rightarrow> http_reply option \<times> server" where
  "reply_with status done out =
     (case out of
        (Ok x, s) \<Rightarrow> (Some (done x), s)
      | (Fail e, s) \<Rightarrow> (Some (respond_error status e), s)
      | (Panic, s) \<Rightarrow> (None, s))"

definition bad_request :: "string \<Rightarrow> server \<Rightarrow> http_reply option \<times> server" where
  "bad_request msg s = (Some (respond_error 400 msg), s)"

text \<open>Decoding the body or leaving with status 400.\<close>

definition with_body ::
  "'r field list \<Rightarrow> 'r \<Rightarrow> string \<Rightarrow> api_request \<Rightarrow> server \<Rightarrow>
   ('r \<Rightarrow> http_reply option \<times> server) \<Rightarrow> http_reply option \<times> server" where
  "with_body fs zero msg rq s k =
     (case unmarshal fs zero (rq_body rq) of Ok r \<Rightarrow> k r | _ \<Rightarrow> bad_request msg s)"

section \<open>The handlers\<close>

definition create_parse_error :: "api_env \<Rightarrow> json_text \<Rightarrow> string" where
  "create_parse_error e body =
     (case body of
        Doc _ \<Rightarrow> wrap ''err req body parsing'' type_error
      | Garbage t \<Rightarrow>
          (case ae_no_json e t of
             SyntaxError \<Rightarrow> ''invalid JSON format in request body''
           | OtherError err \<Rightarrow> wrap ''err req body parsing'' err))"

definition create_vm_handler :: handler where
  "create_vm_handler e rq s =
     with_body api_create_fields zero_api_create (create_parse_error e (rq_body rq)) rq s (\<lambda>r.
       if ah_Memory (ac_HWInfo r) = 0 \<or> ah_CPU (ac_HWInfo r) = 0 \<or> ah_Disk (ac_HWInfo r) = 0
       then bad_request ''Memory, CPU, and Disk must be non-zero'' s
       else reply_with 500 (\<lambda>_. respond_json 201 (JObj [(''message'', JStr ''VM created successfully'')]))
              (on_context (create_vm (ae_create e) (to_service_input r)) s))"

definition delete_vm_handler :: handler where
  "delete_vm_handler e rq s =
     with_body uuid_fields [] ''Invalid request body'' rq s (\<lambda>u.
       reply_with 500 (\<lambda>_. write_header 200) (on_context (delete_vm (ae_delete e) u) s))"

definition start_vm_handler :: handler where
  "start_vm_handler e rq s =
     with_body uuid_fields [] ''Invalid request body'' rq s (\<lambda>u.
       reply_with 500 (\<lambda>_. write_header 200) (on_context (start_vm (ae_find e) (ae_http e) u) s))"

definition shutdown_vm_handler :: handler where
  "shutdown_vm_handler e rq s =
     with_body uuid_fields [] ''Invalid request body'' rq s (\<lambda>u.
       reply_with 500 (\<lambda>_. write_header 200)
         (on_context (shutdown_vm (ae_find e) (ae_http e) (ae_redis e) (ae_now e) u) s))"

definition json_of_cpu_status :: "vm_cpu_status \<Rightarrow> json" where
  "json_of_cpu_status c = JObj [(''system_time'', json_of_number (vc_System c)),
     (''idle_time'', json_of_number (vc_Idle c)), (''usage_percent'', json_of_number (vc_Usage c))]"

definition json_of_memory_status :: "vm_memory_status \<Rightarrow> json" where
  "json_of_memory_status m = JObj [(''total_gb'', JInt (uint (vmem_Total m))), (''used_gb'', JInt (uint (vmem_Used m))),
     (''available_gb'', JInt (uint (vmem_Available m))), (''used_percent'', json_of_number (vmem_UsedPercent m))]"

definition json_of_disk_status :: "vm_disk_status \<Rightarrow> json" where
  "json_of_disk_status d = JObj [(''total_gb'', JInt (uint (vd_Total d))), (''used_gb'', JInt (uint (vd_Used d))),
     (''free_gb'', JInt (uint (vd_Free d))), (''used_percent'', json_of_number (vd_UsedPercent d))]"

definition vm_status_handler :: handler where
  "vm_status_handler e rq s =
     with_body (uuid_and ''type'') ([], []) ''Invalid request body'' rq s (\<lambda>(u, t).
       if t = ''cpu'' then
         reply_with 500 (\<lambda>x. respond_json 200 (json_of_cpu_status x))
           (on_context (get_vm_cpu_info (ae_find e) (ae_http e) u) s)
       else if t = ''memory'' then
         reply_with 500 (\<lambda>x. respond_json 200 (json_of_memory_status x))
           (on_context (get_vm_memory_info (ae_find e) (ae_http e) u) s)
       else if t = ''disk'' then
         reply_with 500 (\<lambda>x. respond_json 200 (json_of_disk_status x))
           (on_context (get_vm_disk_info (ae_find e) (ae_http e) u) s)
       else bad_request (''Invalid status type. Must be '' @ CHR 0x27 # ''cpu'' @ CHR 0x27 # '', '' @
              CHR 0x27 # ''memory'' @ CHR 0x27 # '', or '' @ CHR 0x27 # ''disk'' @ [CHR 0x27]) s)"

definition vm_connect_handler :: handler where
  "vm_connect_handler e rq s =
     (if rq_uuid rq = []
      then bad_request (''Missing '' @ CHR 0x27 # ''uuid'' @ CHR 0x27 # '' query parameter'') s
      else reply_with 500 (\<lambda>token. respond_json 200 (JObj [(''authToken'', JStr token)]))
             (on_context (get_guacamole_token (ae_find e) (ae_http e) (rq_uuid rq)) s))"

text \<open>The status handler reads the document back after writing it, only to log it.\<close>

definition redis_handler :: handler where
  "redis_handler e rq s =
     with_body redis_status_fields ([], []) ''Invalid request body'' rq s (\<lambda>(u, status).
       case update_vm_status (ae_redis e) u (validate_and_normalize_status status) (ae_now e) (Redis (sv_context s)) of
         (Panic, db) \<Rightarrow> (None, s)
       | (Fail _, db) \<Rightarrow>
           (Some (respond_error 500 ''Failed to update VM status in Redis''),
            s\<lparr>sv_context := (sv_context s)\<lparr>Redis := db\<rparr>\<rparr>)
       | (Ok _, db) \<Rightarrow>
           (Some (if re_get (ae_check e) \<noteq> None \<or> db u = None
                  then respond_error 500 ''Failed to get value from Redis''
                  else \<lparr>rp_status = 200, rp_headers = [], rp_body = TextReply ''VM status updated in Redis''\<rparr>),
            s\<lparr>sv_context := (sv_context s)\<lparr>Redis := db\<rparr>\<rparr>))"

definition json_of_vm_info :: "vm_status_info \<Rightarrow> json" where
  "json_of_vm_info i = JObj [(''uuid'', JStr (s_UUID i)), (''cpu'', JInt (uint (s_CPU i))),
     (''memory'', JInt (uint (s_Memory i))), (''disk'', JInt (uint (s_Disk i))), (''ip'', JStr (s_IP i))]"

definition vm_info_handler :: handler where
  "vm_info_handler e rq s =
     with_body uuid_fields [] ''invalid request body'' rq s (\<lambda>u.
       reply_with 404 (\<lambda>i. respond_json 200 (json_of_vm_info i))
         (get_vm_info (ae_redis e) u (Redis (sv_context s)), s))"

definition take_snapshot_handler :: handler where
  "take_snapshot_handler e rq s =
     with_body (uuid_and ''snapName'') ([], []) ''invalid request body'' rq s (\<lambda>(u, name).
       if u = [] \<or> name = [] then bad_request ''uuid and snapName are required'' s
       else (case take_snapshot (ae_find e) (ae_env e) (ae_s3 e) u name (sv_context s, sv_rustfs s) of
               (r, w, once) \<Rightarrow>
                 reply_with 500 (\<lambda>_. respond_json 200 (JObj [(''message'', JStr ''snapshot taken'')]))
                   (r, s\<lparr>sv_context := w, sv_rustfs := once\<rparr>)))"

definition list_snapshots_handler :: handler where
  "list_snapshots_handler e rq s =
     (if rq_uuid rq = [] then bad_request ''uuid query parameter is required'' s
      else (case list_snapshots (ae_env e) (ae_s3 e) (rq_uuid rq) (sv_rustfs s) of
              (r, once) \<Rightarrow>
                reply_with 500 (\<lambda>keys. respond_json 200 (JObj [(''snapshots'', JArr (map JStr keys))]))
                  (r, s\<lparr>sv_rustfs := once\<rparr>)))"

definition delete_snapshot_handler :: handler where
  "delete_snapshot_handler e rq s =
     with_body (uuid_and ''snapKey'') ([], []) ''invalid request body'' rq s (\<lambda>(u, key).
       if u = [] \<or> key = [] then bad_request ''uuid and snapKey are required'' s
       else (case delete_snapshot (ae_env e) (ae_s3 e) u key (sv_rustfs s) of
               (r, once) \<Rightarrow> reply_with 500 (\<lambda>_. write_header 200) (r, s\<lparr>sv_rustfs := once\<rparr>)))"

section \<open>The route table\<close>

definition with_security_headers :: "handler \<Rightarrow> handler" where
  "with_security_headers h e rq s =
     (case h e rq s of
        (reply, s') \<Rightarrow>
          (map_option (\<lambda>r. r\<lparr>rp_headers := (''X-Content-Type-Options'', ''nosniff'') # rp_headers r\<rparr>) reply, s'))"

definition routes :: "(string \<times> string \<times> handler) list" where
  "routes =
     [(''POST'', ''/vm'', create_vm_handler),
      (''DELETE'', ''/vm'', delete_vm_handler),
      (''POST'', ''/vm/shutdown'', shutdown_vm_handler),
      (''GET'', ''/vm/status'', vm_status_handler),
      (''GET'', ''/vm/connect'', vm_connect_handler),
      (''POST'', ''/vm/redis'', redis_handler),
      (''GET'', ''/vm/info'', vm_info_handler),
      (''POST'', ''/vm/start'', start_vm_handler),
      (''POST'', ''/vm/snapshot'', take_snapshot_handler),
      (''GET'', ''/vm/snapshot'', list_snapshots_handler),
      (''DELETE'', ''/vm/snapshot'', delete_snapshot_handler)]"

text \<open>\<open>ServeMux\<close> on clean paths: a pattern for GET also takes HEAD; a path that is registered for
  other methods only is answered with 405, an unknown one with 404.\<close>

definition method_matches :: "string \<Rightarrow> string \<Rightarrow> bool" where
  "method_matches pattern m \<longleftrightarrow> m = pattern \<or> pattern = ''GET'' \<and> m = ''HEAD''"

definition serve :: handler where
  "serve e rq s =
     (case find (\<lambda>(m, p, h). p = rq_path rq \<and> method_matches m (rq_method rq)) routes of
        Some (m, p, h) \<Rightarrow> with_security_headers h e rq s
      | None \<Rightarrow>
          (Some \<lparr>rp_status = (if \<exists>(m, p, h) \<in> set routes. p = rq_path rq then 405 else 404),
                 rp_headers = [], rp_body = TextReply []\<rparr>, s))"

end
