(* ===== verification/Startup.thy ===== *)
theory Startup
  imports ControlContext
begin

text \<open>
  \<open>startup/init.go\<close>, \<open>startup/core_ip_config.go\<close> and the start of \<open>main.go\<close>: the settings
  and their fallbacks, the discovery of the cores by concurrent goroutines, and the loading of
  the VMs. While the cores are discovered the slice \<open>Cores\<close> grows, so its backing arrays are
  an explicit store here: a \<open>*Core\<close> is an array and an index, and \<open>append\<close> moves the elements
  to a new array when the capacity is used up. Drivers, files and YAML are arguments.
\<close>

section \<open>Results in sequence\<close>

fun on_ok :: "'a result \<Rightarrow> ('a \<Rightarrow> 'b result) \<Rightarrow> 'b result" where
  "on_ok (Ok x) k = k x"
| "on_ok (Fail e) k = Fail e"
| "on_ok Panic k = Panic"

fun or_wrap :: "string \<Rightarrow> 'a result \<Rightarrow> 'a result" where
  "or_wrap p (Fail e) = Fail (wrap p e)"
| "or_wrap p r = r"

fun reported :: "error option \<Rightarrow> unit result" where
  "reported None = Ok ()"
| "reported (Some e) = Fail e"

lemma on_ok_Ok_iff: "on_ok r k = Ok y \<longleftrightarrow> (\<exists>x. r = Ok x \<and> k x = Ok y)"
  by (cases r) auto

lemma or_wrap_Ok_iff [simp]: "or_wrap p r = Ok x \<longleftrightarrow> r = Ok x"
  by (cases r) auto

lemma reported_Ok_iff [simp]: "reported f = Ok x \<longleftrightarrow> f = None"
  by (cases f) auto

section \<open>Settings\<close>

record db_config =
  dc_User :: string
  dc_Password :: string
  dc_Host :: string
  dc_Port :: int
  dc_Name :: string

record config =
  cfg_VmInternalSubnets :: "string list"
  cfg_GuacBaseURL :: string
  cfg_Cores :: "string list"
  cfg_Port :: int
  cfg_Redis :: string
  cfg_DB :: db_config
  cfg_GuacDB :: db_config

text \<open>The file system and the YAML decoder.\<close>

record config_files =
  cf_open :: "string \<Rightarrow> error option"
  cf_read :: "string \<Rightarrow> string result"
  cf_yaml :: "string \<Rightarrow> config result"

definition try_read_config :: "config_files \<Rightarrow> string \<Rightarrow> config result" where
  "try_read_config fs path =
     on_ok (or_wrap ''failed to open config file'' (reported (cf_open fs path))) (\<lambda>_.
     on_ok (or_wrap ''failed to read config file'' (cf_read fs path)) (\<lambda>data.
       or_wrap ''failed to decode config file'' (cf_yaml fs data)))"

definition fallback_path :: string where
  "fallback_path = ''resources/config.yaml''"

definition read_config :: "config_files \<Rightarrow> string \<Rightarrow> config result" where
  "read_config fs path =
     (case try_read_config fs path of
        Fail err \<Rightarrow>
          (case try_read_config fs fallback_path of
             Fail err2 \<Rightarrow> Fail (''both original path ('' @ path @ '') and fallback path ('' @ fallback_path @
                 '') failed. Original error: '' @ err @ '', Fallback error: '' @ err2)
           | r \<Rightarrow> r)
      | r \<Rightarrow> r)"

text \<open>An unset environment variable reads as the empty string.\<close>

type_synonym environment = "string \<Rightarrow> string"

definition or_else :: "string \<Rightarrow> string \<Rightarrow> string" where
  "or_else s d = (if s = [] then d else s)"

definition port_text :: "db_config \<Rightarrow> string" where
  "port_text c = (if dc_Port c \<noteq> 0 then itoa (dc_Port c) else ''3306'')"

definition dsn_text :: "string \<Rightarrow> string \<Rightarrow> string \<Rightarrow> string \<Rightarrow> string \<Rightarrow> string" where
  "dsn_text user password host port name =
     user @ '':'' @ password @ ''@tcp('' @ host @ '':'' @ port @ '')/'' @ name"

definition main_dsn :: "environment \<Rightarrow> db_config \<Rightarrow> string" where
  "main_dsn env c =
     dsn_text (or_else (env ''DB_USER'') (or_else (dc_User c) ''root''))
       (or_else (env ''DB_PASSWORD'') (dc_Password c))
       (or_else (env ''DB_HOST'') (or_else (dc_Host c) ''localhost''))
       (or_else (env ''DB_PORT'') (port_text c))
       (or_else (env ''DB_NAME'') (or_else (dc_Name c) ''db''))"

definition guac_dsn :: "environment \<Rightarrow> db_config \<Rightarrow> string" where
  "guac_dsn env c =
     dsn_text (or_else (env ''GUAC_DB_USER'') (or_else (dc_User c) ''root''))
       (or_else (env ''GUAC_DB_PASSWORD'') (dc_Password c))
       (or_else (env ''GUAC_DB_HOST'') (or_else (dc_Host c) ''localhost''))
       (or_else (env ''GUAC_DB_PORT'') (port_text c))
       (or_else (env ''GUAC_DB_NAME'') (or_else (dc_Name c) ''guacamole_db''))"

definition guac_base_url :: "environment \<Rightarrow> config \<Rightarrow> string" where
  "guac_base_url env c =
     or_else (or_else (env ''GUACAMOLE_BASE_URL'') (cfg_GuacBaseURL c))
       ''http://100.101.247.128:8080/guacamole''"

definition core_addresses :: "environment \<Rightarrow> config \<Rightarrow> string list" where
  "core_addresses env c = (if env ''CORES'' \<noteq> [] then split_on CHR '','' (env ''CORES'') else cfg_Cores c)"

text \<open>\<open>sql.Open\<close> reports a DSN it cannot parse and then returns a nil handle, whose \<open>Stats\<close> the
  code asks for before it looks at the error.\<close>

record db_driver =
  drv_open :: "string \<Rightarrow> error option"
  drv_ping :: "string \<Rightarrow> error option"

definition open_main_db :: "db_driver \<Rightarrow> string \<Rightarrow> unit result" where
  "open_main_db drv dsn =
     (case drv_open drv dsn of
        Some _ \<Rightarrow> Panic
      | None \<Rightarrow> or_wrap ''failed to ping generic database'' (reported (drv_ping drv dsn)))"

definition open_guac_db :: "db_driver \<Rightarrow> string \<Rightarrow> unit result" where
  "open_guac_db drv dsn =
     on_ok (or_wrap ''failed to open database connection'' (reported (drv_open drv dsn))) (\<lambda>_.
       or_wrap ''failed to ping database'' (reported (drv_ping drv dsn)))"

section \<open>The slice of cores\<close>

record core_heap =
  arrays :: "core list list"
  cur :: nat
  cap :: nat

type_synonym core_ptr = "nat \<times> nat"

definition nil_slice :: core_heap where
  "nil_slice = \<lparr>arrays = [[]], cur = 0, cap = 0\<rparr>"

definition the_cores :: "core_heap \<Rightarrow> core list" where
  "the_cores h = arrays h ! cur h"

definition core_at :: "core_ptr \<Rightarrow> core_heap \<Rightarrow> core" where
  "core_at p h = arrays h ! fst p ! snd p"

definition put_core :: "core_ptr \<Rightarrow> core \<Rightarrow> core_heap \<Rightarrow> core_heap" where
  "put_core p c h = h\<lparr>arrays := (arrays h)[fst p := (arrays h ! fst p)[snd p := c]]\<rparr>"

text \<open>\<open>append\<close> of one element; \<open>grow\<close> gives the capacity of the new array.\<close>

definition append_core :: "(nat \<Rightarrow> nat) \<Rightarrow> core \<Rightarrow> core_heap \<Rightarrow> core_heap" where
  "append_core grow c h =
     (let cs = the_cores h @ [c]
      in if length (the_cores h) < cap h then h\<lparr>arrays := (arrays h)[cur h := cs]\<rparr>
         else \<lparr>arrays = arrays h @ [cs], cur = length (arrays h), cap = grow (cap h)\<rparr>)"

text \<open>What the Go runtime does for elements of 64 bytes while there are at most 256 of them.\<close>

definition go_grow :: "nat \<Rightarrow> nat" where
  "go_grow n = (if n = 0 then 1 else 2 * n)"

fun find_core :: "core list \<Rightarrow> nat \<Rightarrow> string \<Rightarrow> uint16 \<Rightarrow> nat option" where
  "find_core [] i ip port = None"
| "find_core (c # cs) i ip port =
     (if core_IP c = ip \<and> core_Port c = port then Some i else find_core cs (Suc i) ip port)"

section \<open>Discovering the cores\<close>

definition parse_address :: "string \<Rightarrow> (string \<times> uint16) result" where
  "parse_address addr =
     (case split_on CHR '':'' addr of
        [ip, port] \<Rightarrow>
          (case atoi port of
             (n, True) \<Rightarrow> Ok (ip, word_of_int n)
           | (_, False) \<Rightarrow> Fail (wrap (''error converting port number from '' @ addr) ''strconv.Atoi''))
      | _ \<Rightarrow> Fail (''invalid core address format in '' @ CHR 0x27 # addr @ CHR 0x27 # '': expected ip:port''))"

definition new_core :: "string \<Rightarrow> uint16 \<Rightarrow> core" where
  "new_core ip port =
     \<lparr>core_IP = ip, core_Port = port, CoreInfoIdx = \<lparr>ci_Memory = 0, ci_Cpu = 0, ci_Disk = 0\<rparr>,
      IsAlive = True, VMInfoIdx = None, FreeMemory = 0, FreeCPU = 0, FreeDisk = 0\<rparr>"

text \<open>\<open>uint32(x * 1024)\<close>: the product wraps at 64 bits, the conversion keeps the low 32.\<close>

definition to_mib :: "uint64 \<Rightarrow> uint32" where
  "to_mib gib = ucast (gib * 1024)"

definition filled_core :: "memory_info \<Rightarrow> disk_info \<Rightarrow> core \<Rightarrow> core" where
  "filled_core mem disk c =
     (let cpu = (if ci_Cpu (CoreInfoIdx c) > 0 then ci_Cpu (CoreInfoIdx c) else 9999)
      in c\<lparr>CoreInfoIdx := \<lparr>ci_Memory = to_mib (mem_Total mem), ci_Cpu = cpu, ci_Disk = to_mib (disk_Total disk)\<rparr>,
           FreeDisk := to_mib (disk_Free disk),
           FreeMemory := to_mib (mem_Available mem),
           FreeCPU := cpu\<rparr>)"

definition probe_error :: "string \<Rightarrow> core \<Rightarrow> error \<Rightarrow> error" where
  "probe_error what c e =
     wrap (''failed to get '' @ what @ '' info for core '' @ core_IP c @ '':'' @ nat_digits (unat (core_Port c))) e"

text \<open>The body of the goroutine: the answers of the core to the two status requests, and what it
  writes. An answer without \<open>information\<close> is a nil pointer.\<close>

definition probe_core :: "http_outcome \<times> http_outcome \<Rightarrow> core \<Rightarrow> unit result \<times> core" where
  "probe_core answers c =
     (case snd (get_core_machine_memory_info c (fst answers)) of
        Panic \<Rightarrow> (Panic, c)
      | Fail e \<Rightarrow> (Fail (probe_error ''Memory'' c e), c\<lparr>IsAlive := False\<rparr>)
      | Ok mem \<Rightarrow>
          (case snd (get_core_machine_disk_info c (snd answers)) of
             Panic \<Rightarrow> (Panic, c)
           | Fail e \<Rightarrow> (Fail (probe_error ''Disk'' c e), c\<lparr>IsAlive := False\<rparr>)
           | Ok disk \<Rightarrow>
               (case (mem, disk) of
                  (Some m, Some d) \<Rightarrow> (Ok (), filled_core m d c)
                | _ \<Rightarrow> (Panic, c))))"

text \<open>
  The state of the discovery: the slice, the pointer each goroutine captured, those that are
  done, and the first error \<open>Wait\<close> will report. The writes of a goroutine are one step; the
  schedule lists, for each round of the loop, the goroutines that finish after it, and \<open>Wait\<close>
  lets the others finish.
\<close>

record discovery =
  d_heap :: core_heap
  d_workers :: "core_ptr list"
  d_done :: "nat list"
  d_error :: "unit result"

definition no_discovery :: discovery where
  "no_discovery = \<lparr>d_heap = nil_slice, d_workers = [], d_done = [], d_error = Ok ()\<rparr>"

fun first_error :: "unit result \<Rightarrow> unit result \<Rightarrow> unit result" where
  "first_error Panic r = Panic"
| "first_error (Fail e) r = (if r = Panic then Panic else Fail e)"
| "first_error (Ok _) r = r"

definition finish_worker :: "(nat \<Rightarrow> http_outcome \<times> http_outcome) \<Rightarrow> nat \<Rightarrow> discovery \<Rightarrow> discovery" where
  "finish_worker answers j d =
     (if length (d_workers d) \<le> j \<or> j \<in> set (d_done d) then d
      else let p = d_workers d ! j; (r, c) = probe_core (answers j) (core_at p (d_heap d))
           in d\<lparr>d_heap := put_core p c (d_heap d), d_done := j # d_done d,
                d_error := first_error (d_error d) r\<rparr>)"

definition launch_worker :: "(nat \<Rightarrow> nat) \<Rightarrow> string \<Rightarrow> uint16 \<Rightarrow> discovery \<Rightarrow> discovery" where
  "launch_worker grow ip port d =
     (case find_core (the_cores (d_heap d)) 0 ip port of
        None \<Rightarrow>
          (let h = append_core grow (new_core ip port) (d_heap d)
           in d\<lparr>d_heap := h, d_workers := d_workers d @ [(cur h, length (the_cores h) - 1)]\<rparr>)
      | Some i \<Rightarrow>
          (let p = (cur (d_heap d), i)
           in d\<lparr>d_heap := put_core p ((core_at p (d_heap d))\<lparr>IsAlive := True\<rparr>) (d_heap d),
                d_workers := d_workers d @ [p]\<rparr>))"

fun launch_loop ::
  "(nat \<Rightarrow> nat) \<Rightarrow> (nat \<Rightarrow> http_outcome \<times> http_outcome) \<Rightarrow> nat list list \<Rightarrow> string list \<Rightarrow> discovery \<Rightarrow>
   discovery result" where
  "launch_loop grow answers sched [] d = Ok d"
| "launch_loop grow answers sched (addr # addrs) d =
     (case parse_address addr of
        Fail e \<Rightarrow> Fail e
      | Panic \<Rightarrow> Panic
      | Ok (ip, port) \<Rightarrow>
          (let d1 = fold (finish_worker answers) (case sched of [] \<Rightarrow> [] | now # _ \<Rightarrow> now)
                      (launch_worker grow ip port d)
           in if d_error d1 = Panic then Panic else launch_loop grow answers (tl sched) addrs d1))"

definition wait_workers :: "(nat \<Rightarrow> http_outcome \<times> http_outcome) \<Rightarrow> discovery \<Rightarrow> core list result" where
  "wait_workers answers d =
     (let d1 = fold (finish_worker answers) [0..<length (d_workers d)] d
      in on_ok (or_wrap ''failed to get core info'' (d_error d1)) (\<lambda>_. Ok (the_cores (d_heap d1))))"

definition discover_cores ::
  "(nat \<Rightarrow> nat) \<Rightarrow> (nat \<Rightarrow> http_outcome \<times> http_outcome) \<Rightarrow> nat list list \<Rightarrow> string list \<Rightarrow> core list result" where
  "discover_cores grow answers sched addrs =
     on_ok (launch_loop grow answers sched addrs no_discovery) (wait_workers answers)"

section \<open>Loading the VMs\<close>

definition load_vm :: "vm_info \<Rightarrow> nat \<Rightarrow> resource_manager \<Rightarrow> resource_manager" where
  "load_vm vm i rm =
     (let c = Cores rm ! i; m = vms_of c
      in if m (VM_UUID vm) = None
         then rm\<lparr>Cores := (Cores rm)[i := c\<lparr>VMInfoIdx := Some (m(VM_UUID vm \<mapsto> vm))\<rparr>],
                 VMLocation := (VMLocation rm)(VM_UUID vm \<mapsto> i)\<rparr>
         else rm\<lparr>Cores := (Cores rm)[i := c\<lparr>VMInfoIdx := Some m\<rparr>]\<rparr>)"

fun load_vms :: "(vm_info \<times> int) list \<Rightarrow> resource_manager \<Rightarrow> resource_manager result" where
  "load_vms [] rm = Ok rm"
| "load_vms ((vm, k) # rows) rm =
     (if k < 0 \<or> int (length (Cores rm)) \<le> k
      then Fail (''core index '' @ itoa k @ '' out of range for core list'')
      else load_vms rows (load_vm vm (nat k) rm))"

section \<open>The whole start\<close>

record startup_env =
  se_env :: environment
  se_files :: config_files
  se_driver :: db_driver
  se_subnet :: "error option"
  se_grow :: "nat \<Rightarrow> nat"
  se_answers :: "nat \<Rightarrow> http_outcome \<times> http_outcome"
  se_schedule :: "nat list list"
  se_list :: tx_env

definition load_instances :: "startup_env \<Rightarrow> main_db \<Rightarrow> resource_manager \<Rightarrow> resource_manager result" where
  "load_instances e db rm =
     on_ok (or_wrap ''failed to get all instance info'' (get_all_instance_info (se_list e) db)) (\<lambda>(vs, ks).
       load_vms (zip vs ks) rm)"

definition initialize_core_data ::
  "startup_env \<Rightarrow> string \<Rightarrow> main_db \<Rightarrow> guac_db \<Rightarrow> redis_db \<Rightarrow> (config \<times> control_context) result" where
  "initialize_core_data e path db guac redis =
     on_ok (or_wrap (''failed to read config file '' @ path) (read_config (se_files e) path)) (\<lambda>cfg.
     on_ok (open_main_db (se_driver e) (main_dsn (se_env e) (cfg_DB cfg))) (\<lambda>_.
     on_ok (open_guac_db (se_driver e) (guac_dsn (se_env e) (cfg_GuacDB cfg))) (\<lambda>_.
     on_ok (or_wrap ''failed to get last_subnet'' (reported (se_subnet e))) (\<lambda>_.
     on_ok (discover_cores (se_grow e) (se_answers e) (se_schedule e) (core_addresses (se_env e) cfg)) (\<lambda>cores.
     on_ok (load_instances e db (new_resource_manager\<lparr>Cores := cores\<rparr>)) (\<lambda>rm.
       (let url = guac_base_url (se_env e) cfg
        in Ok (cfg\<lparr>cfg_GuacBaseURL := url\<rparr>,
               \<lparr>Resources = rm, MainDB = db, GuacDB = Some guac, Redis = redis,
                Last_subnet = last_subnet db, GuacBaseURL = url, trace = []\<rparr>))))))))"

text \<open>\<open>main\<close> until the server runs: any error is a panic.\<close>

definition main_start ::
  "startup_env \<Rightarrow> redis_env \<Rightarrow> main_db \<Rightarrow> guac_db \<Rightarrow> redis_db \<Rightarrow> (config \<times> control_context) result" where
  "main_start e re db guac redis =
     (case initialize_redis (se_env e ''REDIS_HOST'') re redis of
        (Ok _, redis1) \<Rightarrow>
          (case initialize_core_data e ''config.yaml'' db guac redis1 of
             Ok r \<Rightarrow> Ok r | _ \<Rightarrow> Panic)
      | _ \<Rightarrow> Panic)"

end
