(* ===== verification/StartupProperties.thy ===== *)
theory StartupProperties
  imports Startup VmProperties
begin

text \<open>
  What the start of the server establishes: which cores are known and with which resources,
  what makes it fail, and that the state it hands to the server satisfies the invariants the
  service operations keep.
\<close>

section \<open>The slice of cores\<close>

definition core_id :: "core \<Rightarrow> string \<times> uint16" where
  "core_id c = (core_IP c, core_Port c)"

definition all_cores :: "core_heap \<Rightarrow> core set" where
  "all_cores h = \<Union> (set ` set (arrays h))"

definition valid_ptr :: "core_heap \<Rightarrow> core_ptr \<Rightarrow> bool" where
  "valid_ptr h p \<longleftrightarrow> fst p < length (arrays h) \<and> snd p < length (arrays h ! fst p)"

definition wf_heap :: "core_heap \<Rightarrow> bool" where
  "wf_heap h \<longleftrightarrow> cur h < length (arrays h)"

lemma nil_slice_simps [simp]: "the_cores nil_slice = []" "wf_heap nil_slice" "all_cores nil_slice = {}" "cap nil_slice = 0"
  by (simp_all add: nil_slice_def the_cores_def wf_heap_def all_cores_def)

lemma put_core_simps [simp]:
  "cur (put_core p c h) = cur h" "cap (put_core p c h) = cap h"
  "length (arrays (put_core p c h)) = length (arrays h)" "wf_heap (put_core p c h) = wf_heap h"
  by (simp_all add: put_core_def wf_heap_def)

lemma length_array_put [simp]: "length (arrays (put_core p c h) ! a) = length (arrays h ! a)"
  by (cases "fst p < length (arrays h)") (auto simp: put_core_def nth_list_update not_less list_update_beyond)

lemma valid_ptr_put [simp]: "valid_ptr (put_core p c h) q = valid_ptr h q"
  by (simp add: valid_ptr_def)

lemma the_cores_put:
  "wf_heap h \<Longrightarrow> the_cores (put_core p c h) = (if fst p = cur h then (the_cores h)[snd p := c] else the_cores h)"
  by (simp add: wf_heap_def the_cores_def put_core_def nth_list_update)

lemma core_at_in: "valid_ptr h p \<Longrightarrow> core_at p h \<in> all_cores h"
  unfolding valid_ptr_def core_at_def all_cores_def by (metis UN_I nth_mem)

lemma the_cores_in: "wf_heap h \<Longrightarrow> set (the_cores h) \<subseteq> all_cores h"
  unfolding wf_heap_def the_cores_def all_cores_def by (meson UN_upper nth_mem)

lemma set_update_cases: "x \<in> set (xs[i := y]) \<Longrightarrow> x = y \<or> x \<in> set xs"
  using set_update_subset_insert [of xs i y] by blast

lemma all_cores_put: "all_cores (put_core p c h) \<subseteq> insert c (all_cores h)"
proof
  fix x assume "x \<in> all_cores (put_core p c h)"
  then obtain a where a: "x \<in> set a" "a \<in> set ((arrays h)[fst p := (arrays h ! fst p)[snd p := c]])"
    by (auto simp: all_cores_def put_core_def)
  show "x \<in> insert c (all_cores h)"
  proof (cases "fst p < length (arrays h)")
    case True
    with a show ?thesis
      using set_update_cases [OF a(2)] set_update_cases [of x "arrays h ! fst p" "snd p" c]
      by (auto simp: all_cores_def)
  next
    case False
    with a show ?thesis by (auto simp: all_cores_def not_less list_update_beyond)
  qed
qed

lemma append_core_simps:
  assumes "wf_heap h"
  shows "the_cores (append_core grow c h) = the_cores h @ [c]" "wf_heap (append_core grow c h)"
    "all_cores (append_core grow c h) \<subseteq> insert c (all_cores h)"
    "valid_ptr (append_core grow c h) (cur (append_core grow c h), length (the_cores h))"
proof -
  show "the_cores (append_core grow c h) = the_cores h @ [c]" "wf_heap (append_core grow c h)"
    "valid_ptr (append_core grow c h) (cur (append_core grow c h), length (the_cores h))"
    using assms by (auto simp: append_core_def Let_def the_cores_def wf_heap_def valid_ptr_def)
  show "all_cores (append_core grow c h) \<subseteq> insert c (all_cores h)"
  proof -
    have "set (arrays (append_core grow c h)) \<subseteq> insert (the_cores h @ [c]) (set (arrays h))"
      using set_update_subset_insert [of "arrays h" "cur h" "the_cores h @ [c]"]
      by (simp add: append_core_def Let_def subset_insertI)
    then have "all_cores (append_core grow c h) \<subseteq> insert c (set (the_cores h)) \<union> all_cores h"
      unfolding all_cores_def by fastforce
    with the_cores_in [OF assms] show ?thesis by blast
  qed
qed

lemma valid_ptr_append:
  assumes "wf_heap h" "valid_ptr h p"
  shows "valid_ptr (append_core grow c h) p"
  using assms by (auto simp: append_core_def Let_def valid_ptr_def wf_heap_def the_cores_def nth_append nth_list_update)

lemma find_core_None_iff: "find_core cs i ip port = None \<longleftrightarrow> (ip, port) \<notin> core_id ` set cs"
  by (induction cs i ip port rule: find_core.induct) (auto simp: core_id_def)

lemma find_core_Some:
  "find_core cs i ip port = Some k \<Longrightarrow> i \<le> k \<and> k - i < length cs \<and> core_id (cs ! (k - i)) = (ip, port)"
proof (induction cs i ip port rule: find_core.induct)
  case (2 c cs i ip port)
  show ?case
  proof (cases "core_IP c = ip \<and> core_Port c = port")
    case True
    with 2 show ?thesis by (auto simp: core_id_def)
  next
    case False
    with 2 have "Suc i \<le> k" "k - Suc i < length cs" "core_id (cs ! (k - Suc i)) = (ip, port)"
      by (auto split: if_splits)
    moreover from this(1) have "k - i = Suc (k - Suc i)" by simp
    ultimately show ?thesis by simp
  qed
qed simp

section \<open>Discovery\<close>

abbreviation memory_answer :: "http_outcome \<Rightarrow> memory_info option result" where
  "memory_answer \<equiv> host_info memory_info_fields zero_memory_info"

abbreviation disk_answer :: "http_outcome \<Rightarrow> disk_info option result" where
  "disk_answer \<equiv> host_info disk_info_fields zero_disk_info"

text \<open>Both requests succeed but one answer lacks the \<open>information\<close> object.\<close>

definition nil_information :: "http_outcome \<times> http_outcome \<Rightarrow> bool" where
  "nil_information a \<longleftrightarrow> is_ok (memory_answer (fst a)) \<and> is_ok (disk_answer (snd a)) \<and>
     (memory_answer (fst a) = Ok None \<or> disk_answer (snd a) = Ok None)"

lemma host_info_not_Panic: "host_info fs zero a \<noteq> Panic"
  by (simp add: host_info_def do_request_def unmarshal_not_Panic split: http_outcome.split result.split)

lemma probe_core_cases:
  assumes "probe_core a c = (r, c')"
  obtains (filled) m d where "r = Ok ()" "c' = filled_core m d c" "memory_answer (fst a) = Ok (Some m)"
      "disk_answer (snd a) = Ok (Some d)" "\<not> nil_information a"
  | (failed) e where "r = Fail e" "c' = c\<lparr>IsAlive := False\<rparr>" "\<not> nil_information a"
  | (crashed) "r = Panic" "c' = c" "nil_information a"
proof -
  have eqs: "snd (get_core_machine_memory_info c (fst a)) = memory_answer (fst a)"
    "snd (get_core_machine_disk_info c (snd a)) = disk_answer (snd a)"
    by (simp_all add: get_core_machine_memory_info_def get_core_machine_disk_info_def)
  from assms show thesis
    by (cases "memory_answer (fst a)"; cases "disk_answer (snd a)")
      (auto simp: probe_core_def eqs nil_information_def host_info_not_Panic split: option.splits
        intro: filled failed crashed)
qed

lemma filled_core_simps [simp]:
  "core_id (filled_core m d c) = core_id c" "core_IP (filled_core m d c) = core_IP c"
  "core_Port (filled_core m d c) = core_Port c" "IsAlive (filled_core m d c) = IsAlive c"
  "VMInfoIdx (filled_core m d c) = VMInfoIdx c"
  by (simp_all add: filled_core_def core_id_def Let_def)

lemma probe_core_keeps:
  assumes "probe_core a c = (r, c')"
  shows "core_id c' = core_id c" "VMInfoIdx c' = VMInfoIdx c" "r = Ok () \<Longrightarrow> IsAlive c' = IsAlive c"
    "r = Panic \<longleftrightarrow> nil_information a"
proof -
  have "core_id c' = core_id c \<and> VMInfoIdx c' = VMInfoIdx c \<and> (r = Ok () \<longrightarrow> IsAlive c' = IsAlive c) \<and>
      (r = Panic \<longleftrightarrow> nil_information a)"
    using assms by (cases rule: probe_core_cases) (simp_all add: core_id_def)
  then show "core_id c' = core_id c" "VMInfoIdx c' = VMInfoIdx c" "r = Ok () \<Longrightarrow> IsAlive c' = IsAlive c"
    "r = Panic \<longleftrightarrow> nil_information a" by simp_all
qed

lemma first_error_iff:
  "first_error r s = Ok () \<longleftrightarrow> r = Ok () \<and> s = Ok ()" "first_error r s = Panic \<longleftrightarrow> r = Panic \<or> s = Panic"
  by (cases r; auto)+

text \<open>The addresses in the order of their first occurrence.\<close>

definition keep_first :: "'a list \<Rightarrow> 'a list" where
  "keep_first xs = rev (remdups (rev xs))"

lemma keep_first_simps [simp]:
  "keep_first [] = []" "keep_first (xs @ [x]) = (if x \<in> set xs then keep_first xs else keep_first xs @ [x])"
  "set (keep_first xs) = set xs" "distinct (keep_first xs)"
  by (simp_all add: keep_first_def)

lemma keep_first_map: "inj f \<Longrightarrow> keep_first (map f xs) = map f (keep_first xs)"
  by (induction xs rule: rev_induct) (auto dest: injD)

definition discovery_inv ::
  "(nat \<Rightarrow> http_outcome \<times> http_outcome) \<Rightarrow> (string \<times> uint16) list \<Rightarrow> discovery \<Rightarrow> bool" where
  "discovery_inv answers ps d \<longleftrightarrow>
     wf_heap (d_heap d) \<and> (\<forall>p \<in> set (d_workers d). valid_ptr (d_heap d) p) \<and>
     map core_id (the_cores (d_heap d)) = keep_first ps \<and>
     (\<forall>c \<in> all_cores (d_heap d). VMInfoIdx c = None \<and> (d_error d = Ok () \<longrightarrow> IsAlive c)) \<and>
     length (d_workers d) = length ps \<and> set (d_done d) \<subseteq> {..<length ps} \<and>
     (d_error d = Panic \<longleftrightarrow> (\<exists>j \<in> set (d_done d). nil_information (answers j)))"

lemma discovery_inv_empty: "discovery_inv answers [] no_discovery"
  by (simp add: discovery_inv_def no_discovery_def)

lemma map_core_id_put:
  assumes "wf_heap h" "core_id c = core_id (core_at p h)"
  shows "map core_id (the_cores (put_core p c h)) = map core_id (the_cores h)"
proof (cases "fst p = cur h")
  case True
  have "map core_id ((the_cores h)[snd p := c]) = map core_id (the_cores h)"
  proof (cases "snd p < length (the_cores h)")
    case True
    with assms(2) \<open>fst p = cur h\<close> have "core_id c = map core_id (the_cores h) ! snd p"
      by (simp add: core_at_def the_cores_def)
    then show ?thesis by (simp only: map_update list_update_id)
  qed (simp add: list_update_beyond)
  with True assms(1) show ?thesis by (simp add: the_cores_put)
qed (simp add: assms(1) the_cores_put)

lemma discovery_inv_finish:
  assumes inv: "discovery_inv answers ps d"
  shows "discovery_inv answers ps (finish_worker answers j d)"
proof (cases "length (d_workers d) \<le> j \<or> j \<in> set (d_done d)")
  case False
  define p where "p = d_workers d ! j"
  obtain r c where probe: "probe_core (answers j) (core_at p (d_heap d)) = (r, c)" by fastforce
  note keeps = probe_core_keeps [OF probe]
  have p: "valid_ptr (d_heap d) p" using inv False by (simp add: discovery_inv_def p_def)
  have at: "core_at p (d_heap d) \<in> all_cores (d_heap d)" using p by (rule core_at_in)
  have fin: "finish_worker answers j d = d\<lparr>d_heap := put_core p c (d_heap d), d_done := j # d_done d,
      d_error := first_error (d_error d) r\<rparr>"
    using False probe by (simp add: finish_worker_def p_def)
  have ids: "map core_id (the_cores (put_core p c (d_heap d))) = map core_id (the_cores (d_heap d))"
    using inv keeps(1) by (intro map_core_id_put) (simp_all add: discovery_inv_def)
  have fresh: "VMInfoIdx x = None \<and> (first_error (d_error d) r = Ok () \<longrightarrow> IsAlive x)"
    if "x \<in> all_cores (put_core p c (d_heap d))" for x
    using that all_cores_put [of p c "d_heap d"] at inv keeps(2,3) by (auto simp: discovery_inv_def first_error_iff)
  have err: "first_error (d_error d) r = Panic \<longleftrightarrow> (\<exists>i \<in> set (j # d_done d). nil_information (answers i))"
    using inv keeps(4) by (auto simp: first_error_iff discovery_inv_def)
  show ?thesis
    using inv False fresh err ids by (simp add: discovery_inv_def fin)
qed (simp add: finish_worker_def assms)

lemma discovery_inv_finish_all:
  "discovery_inv answers ps d \<Longrightarrow> discovery_inv answers ps (fold (finish_worker answers) js d)"
  by (induction js arbitrary: d) (simp_all add: discovery_inv_finish)

lemma d_workers_finish [simp]: "d_workers (finish_worker answers j d) = d_workers d"
  by (simp add: finish_worker_def Let_def split: prod.split)

lemma d_workers_finish_all [simp]: "d_workers (fold (finish_worker answers) js d) = d_workers d"
  by (induction js arbitrary: d) simp_all

lemma discovery_inv_launch:
  assumes inv: "discovery_inv answers ps d"
  shows "discovery_inv answers (ps @ [(ip, port)]) (launch_worker grow ip port d)"
proof (cases "find_core (the_cores (d_heap d)) 0 ip port")
  case None
  have new: "(ip, port) \<notin> set ps"
  proof -
    have "core_id ` set (the_cores (d_heap d)) = set ps"
      using inv by (metis discovery_inv_def keep_first_simps(3) list.set_map)
    with None show ?thesis by (simp add: find_core_None_iff)
  qed
  define h where "h = append_core grow (new_core ip port) (d_heap d)"
  have wf: "wf_heap (d_heap d)" using inv by (simp add: discovery_inv_def)
  note app = append_core_simps [OF wf, of grow "new_core ip port", folded h_def]
  have "\<forall>c \<in> all_cores h. VMInfoIdx c = None \<and> (d_error d = Ok () \<longrightarrow> IsAlive c)"
    using app(3) inv by (auto simp: discovery_inv_def new_core_def)
  moreover have "\<forall>p \<in> set (d_workers d). valid_ptr h p"
    using inv valid_ptr_append [OF wf] by (simp add: discovery_inv_def h_def)
  moreover have "map core_id (the_cores h) = keep_first (ps @ [(ip, port)])"
    using inv new by (simp add: app(1) discovery_inv_def core_id_def new_core_def)
  moreover have "launch_worker grow ip port d =
      d\<lparr>d_heap := h, d_workers := d_workers d @ [(cur h, length (the_cores (d_heap d)))]\<rparr>"
    using None by (simp add: launch_worker_def Let_def h_def [symmetric] app(1))
  ultimately show ?thesis
    using inv app(2,4) by (auto simp: discovery_inv_def less_Suc_eq)
next
  case (Some i)
  define p where "p = (cur (d_heap d), i)"
  note found = find_core_Some [OF Some, simplified]
  have wf: "wf_heap (d_heap d)" using inv by (simp add: discovery_inv_def)
  have p: "valid_ptr (d_heap d) p" using wf found by (simp add: valid_ptr_def p_def wf_heap_def the_cores_def)
  have "(ip, port) \<in> core_id ` set (the_cores (d_heap d))" using found by (metis image_eqI nth_mem)
  then have old: "(ip, port) \<in> set ps"
    using inv by (metis discovery_inv_def keep_first_simps(3) list.set_map)
  let ?c = "(core_at p (d_heap d))\<lparr>IsAlive := True\<rparr>"
  have "launch_worker grow ip port d = d\<lparr>d_heap := put_core p ?c (d_heap d), d_workers := d_workers d @ [p]\<rparr>"
    using Some by (simp add: launch_worker_def Let_def p_def)
  moreover have "map core_id (the_cores (put_core p ?c (d_heap d))) = keep_first (ps @ [(ip, port)])"
    using map_core_id_put [OF wf, of ?c p] inv old by (simp add: discovery_inv_def core_id_def)
  moreover have "\<forall>c \<in> all_cores (put_core p ?c (d_heap d)). VMInfoIdx c = None \<and> (d_error d = Ok () \<longrightarrow> IsAlive c)"
    using all_cores_put [of p ?c "d_heap d"] core_at_in [OF p] inv by (auto simp: discovery_inv_def)
  ultimately show ?thesis
    using inv p by (auto simp: discovery_inv_def less_Suc_eq)
qed

lemma launch_loop_inv:
  assumes "discovery_inv answers ps d" "map parse_address addrs = map Ok qs"
  shows "(launch_loop grow answers sched addrs d = Panic \<and>
      (\<exists>j < length ps + length qs. nil_information (answers j))) \<or>
    (\<exists>d'. launch_loop grow answers sched addrs d = Ok d' \<and> discovery_inv answers (ps @ qs) d')"
  using assms
proof (induction addrs arbitrary: ps qs sched d)
  case (Cons addr addrs)
  then obtain q qs' where "parse_address addr = Ok q" "qs = q # qs'" "map parse_address addrs = map Ok qs'"
    by (cases qs) auto
  then obtain ip port where addr: "parse_address addr = Ok (ip, port)" "qs = (ip, port) # qs'"
    "map parse_address addrs = map Ok qs'"
    by (cases q) auto
  define d1 where "d1 = fold (finish_worker answers) (case sched of [] \<Rightarrow> [] | now # _ \<Rightarrow> now)
                      (launch_worker grow ip port d)"
  have inv: "discovery_inv answers (ps @ [(ip, port)]) d1"
    unfolding d1_def by (intro discovery_inv_finish_all discovery_inv_launch Cons.prems(1))
  have run: "launch_loop grow answers sched (addr # addrs) d =
      (if d_error d1 = Panic then Panic else launch_loop grow answers (tl sched) addrs d1)"
    by (simp add: addr(1) d1_def Let_def)
  show ?case
  proof (cases "d_error d1 = Panic")
    case True
    with inv obtain j where "j \<in> set (d_done d1)" "nil_information (answers j)" by (auto simp: discovery_inv_def)
    moreover from this(1) inv have "j < Suc (length ps)" by (auto simp: discovery_inv_def)
    ultimately have "\<exists>j < length ps + length qs. nil_information (answers j)"
      unfolding addr(2) by (intro exI [of _ j]) simp
    with run True show ?thesis by simp
  next
    case False
    with run Cons.IH [OF inv addr(3), where sched = "tl sched"] show ?thesis by (simp add: addr(2))
  qed
qed auto

lemma finish_done: "j < length (d_workers d) \<Longrightarrow> j \<in> set (d_done (finish_worker answers j d))"
  by (simp add: finish_worker_def Let_def split: prod.split)

lemma done_grows: "set (d_done d) \<subseteq> set (d_done (fold (finish_worker answers) js d))"
proof (induction js arbitrary: d)
  case (Cons j js)
  have "set (d_done d) \<subseteq> set (d_done (finish_worker answers j d))"
    by (auto simp: finish_worker_def Let_def split: prod.split)
  with Cons [of "finish_worker answers j d"] show ?case by simp
qed simp

lemma finish_all_done:
  "\<forall>j \<in> set js. j < length (d_workers d) \<Longrightarrow> set js \<subseteq> set (d_done (fold (finish_worker answers) js d))"
proof (induction js arbitrary: d)
  case (Cons j js)
  then have "j \<in> set (d_done (finish_worker answers j d))" by (simp add: finish_done)
  with done_grows [of "finish_worker answers j d" answers js] Cons show ?case by auto
qed simp

lemma launch_loop_parses:
  "launch_loop grow answers sched addrs d = Ok d' \<Longrightarrow> \<exists>ps. map parse_address addrs = map Ok ps"
proof (induction addrs arbitrary: sched d)
  case (Cons addr addrs)
  then obtain p where p: "parse_address addr = Ok p" by (cases "parse_address addr") auto
  with Cons.prems obtain sched' d1 where "launch_loop grow answers sched' addrs d1 = Ok d'"
    by (auto simp: Let_def split: prod.splits if_splits)
  with Cons.IH obtain ps where "map parse_address addrs = map Ok ps" by blast
  with p have "map parse_address (addr # addrs) = map Ok (p # ps)" by simp
  then show ?case by blast
qed simp

lemma discover_cores_Ok:
  assumes "discover_cores grow answers sched addrs = Ok cores"
  obtains ps d where "map parse_address addrs = map Ok ps"
    "launch_loop grow answers sched addrs no_discovery = Ok d" "discovery_inv answers ps d"
    "cores = the_cores (d_heap (fold (finish_worker answers) [0..<length ps] d))"
    "d_error (fold (finish_worker answers) [0..<length ps] d) = Ok ()"
proof -
  obtain d where d: "launch_loop grow answers sched addrs no_discovery = Ok d" "wait_workers answers d = Ok cores"
    using assms by (auto simp: discover_cores_def on_ok_Ok_iff)
  obtain ps where ps: "map parse_address addrs = map Ok ps" using launch_loop_parses [OF d(1)] by blast
  have inv: "discovery_inv answers ps d"
    using launch_loop_inv [OF discovery_inv_empty ps, where answers = answers and grow = grow and sched = sched] d(1) by simp
  then have "length (d_workers d) = length ps" by (simp add: discovery_inv_def)
  with d(2) ps inv d(1) that show thesis by (auto simp: wait_workers_def Let_def on_ok_Ok_iff)
qed

lemma discovered_ids:
  assumes "discover_cores grow answers sched addrs = Ok cores"
  shows "\<exists>ps. map parse_address addrs = map Ok ps \<and> map core_id cores = keep_first ps \<and>
    distinct (map core_id cores) \<and> (\<forall>c \<in> set cores. IsAlive c \<and> VMInfoIdx c = None)"
proof -
  obtain ps d where d: "map parse_address addrs = map Ok ps" "discovery_inv answers ps d"
    "cores = the_cores (d_heap (fold (finish_worker answers) [0..<length ps] d))"
    "d_error (fold (finish_worker answers) [0..<length ps] d) = Ok ()"
    using discover_cores_Ok [OF assms] by blast
  from discovery_inv_finish_all [OF d(2), of "[0..<length ps]"] d(3,4) d(1) show ?thesis
    using the_cores_in [of "d_heap (fold (finish_worker answers) [0..<length ps] d)"]
    by (intro exI [of _ ps]) (auto simp: discovery_inv_def)
qed

text \<open>C31: however the goroutines and the loop interleave, a successful discovery yields exactly
  the configured addresses, each once and in the order of their first occurrence, as cores that
  are alive and hold no VM yet.\<close>

theorem discovered_cores:
  assumes "discover_cores grow answers sched addrs = Ok cores"
  shows "\<exists>ps. map parse_address addrs = map Ok ps \<and> map core_id cores = keep_first ps \<and>
    distinct (map core_id cores) \<and> (\<forall>c \<in> set cores. IsAlive c \<and> VMInfoIdx c = None)"
  using assms by (rule discovered_ids)

text \<open>C36: when every address parses, the start crashes exactly if some core answers both status
  requests but leaves out the \<open>information\<close> object of one of them.\<close>

theorem discovery_panics_iff:
  assumes "map parse_address addrs = map Ok ps"
  shows "discover_cores grow answers sched addrs = Panic \<longleftrightarrow>
    (\<exists>j < length addrs. nil_information (answers j))"
proof -
  have len: "length addrs = length ps" using assms by (metis length_map)
  from launch_loop_inv [OF discovery_inv_empty assms, where answers = answers and grow = grow and sched = sched] show ?thesis
  proof
    assume *: "launch_loop grow answers sched addrs no_discovery = Panic \<and>
      (\<exists>j < length [] + length ps. nil_information (answers j))"
    then show ?thesis by (simp add: discover_cores_def len)
  next
    assume "\<exists>d. launch_loop grow answers sched addrs no_discovery = Ok d \<and> discovery_inv answers ([] @ ps) d"
    then obtain d where d: "launch_loop grow answers sched addrs no_discovery = Ok d" "discovery_inv answers ps d"
      by auto
    have n: "length (d_workers d) = length ps" using d(2) by (simp add: discovery_inv_def)
    define d1 where "d1 = fold (finish_worker answers) [0..<length ps] d"
    have inv: "discovery_inv answers ps d1" unfolding d1_def using d(2) by (rule discovery_inv_finish_all)
    have "set [0..<length ps] \<subseteq> set (d_done d1)" unfolding d1_def by (rule finish_all_done) (simp add: n)
    with inv have "set (d_done d1) = {..<length ps}" by (auto simp: discovery_inv_def)
    with inv have "d_error d1 = Panic \<longleftrightarrow> (\<exists>j < length ps. nil_information (answers j))"
      by (auto simp: discovery_inv_def)
    moreover have "discover_cores grow answers sched addrs = Panic \<longleftrightarrow> d_error d1 = Panic"
      by (cases "d_error d1") (simp_all add: discover_cores_def d(1) wait_workers_def Let_def n d1_def)
    ultimately show ?thesis by (simp add: len)
  qed
qed

section \<open>Loading the VMs\<close>

lemma load_vm_simps:
  assumes "i < length (Cores rm)" "vms_of (Cores rm ! i) (VM_UUID vm) = None"
  shows "length (Cores (load_vm vm i rm)) = length (Cores rm)"
    "VMLocation (load_vm vm i rm) = (VMLocation rm)(VM_UUID vm \<mapsto> i)"
    "AliveVM (load_vm vm i rm) = AliveVM rm"
    "vms_of (Cores (load_vm vm i rm) ! j) =
       (if j = i then (vms_of (Cores rm ! i))(VM_UUID vm \<mapsto> vm) else vms_of (Cores rm ! j))"
  using assms by (simp_all add: load_vm_def Let_def vms_of_def nth_list_update)

text \<open>Only the VM tables and the location map change.\<close>

definition hardware :: "core \<Rightarrow> core" where
  "hardware c = c\<lparr>VMInfoIdx := None\<rparr>"

lemma load_vm_hardware: "map hardware (Cores (load_vm vm i rm)) = map hardware (Cores rm)"
proof -
  have *: "map hardware (xs[i := (xs ! i)\<lparr>VMInfoIdx := m\<rparr>]) = map hardware xs" for xs :: "core list" and m
    by (cases "i < length xs") (auto simp: map_update hardware_def list_update_beyond intro: nth_equalityI
        simp: nth_list_update)
  show ?thesis by (simp add: load_vm_def Let_def *)
qed

definition row_map :: "(vm_info \<times> int) list \<Rightarrow> uuid \<rightharpoonup> vm_info \<times> int" where
  "row_map rows = map_of (map (\<lambda>(vm, k). (VM_UUID vm, (vm, k))) rows)"

lemma row_map_simps [simp]:
  "row_map [] = Map.empty" "row_map ((vm, k) # rows) = (row_map rows)(VM_UUID vm \<mapsto> (vm, k))"
  by (simp_all add: row_map_def)

lemma row_map_None: "u \<notin> (VM_UUID \<circ> fst) ` set rows \<Longrightarrow> row_map rows u = None"
  by (induction rows) auto

lemma load_vms_Ok:
  assumes "load_vms rows rm = Ok rm'" "distinct (map (VM_UUID \<circ> fst) rows)"
    "\<forall>u \<in> (VM_UUID \<circ> fst) ` set rows. \<forall>i < length (Cores rm). vms_of (Cores rm ! i) u = None"
  shows "length (Cores rm') = length (Cores rm) \<and> AliveVM rm' = AliveVM rm \<and>
    map hardware (Cores rm') = map hardware (Cores rm) \<and>
    (\<forall>u. VMLocation rm' u =
       (case row_map rows u of Some (vm, k) \<Rightarrow> Some (nat k) | None \<Rightarrow> VMLocation rm u)) \<and>
    (\<forall>i < length (Cores rm). \<forall>u. vms_of (Cores rm' ! i) u =
       (case row_map rows u of Some (vm, k) \<Rightarrow> if nat k = i then Some vm else None
        | None \<Rightarrow> vms_of (Cores rm ! i) u)) \<and>
    (\<forall>(vm, k) \<in> set rows. 0 \<le> k \<and> k < int (length (Cores rm)))"
  using assms
proof (induction rows arbitrary: rm)
  case (Cons row rows)
  obtain vm k where row: "row = (vm, k)" by (cases row)
  let ?i = "nat k" and ?u = "VM_UUID vm"
  from Cons.prems(1) have k: "0 \<le> k" "k < int (length (Cores rm))"
    and run: "load_vms rows (load_vm vm ?i rm) = Ok rm'"
    by (auto simp: row split: if_splits)
  have i: "?i < length (Cores rm)" using k by simp
  have free: "vms_of (Cores rm ! ?i) ?u = None" using Cons.prems(3) i by (simp add: row)
  note step = load_vm_simps [OF i free]
  have new: "?u \<notin> (VM_UUID \<circ> fst) ` set rows" using Cons.prems(2) by (simp add: row)
  have "\<forall>u \<in> (VM_UUID \<circ> fst) ` set rows. \<forall>j < length (Cores (load_vm vm ?i rm)).
      vms_of (Cores (load_vm vm ?i rm) ! j) u = None"
  proof (intro ballI allI impI)
    fix u j assume "u \<in> (VM_UUID \<circ> fst) ` set rows" "j < length (Cores (load_vm vm ?i rm))"
    moreover from this(1) new have "u \<noteq> ?u" by blast
    ultimately show "vms_of (Cores (load_vm vm ?i rm) ! j) u = None"
      using Cons.prems(3) i by (auto simp: row step)
  qed
  with Cons.IH [OF run] Cons.prems(2)
  have IH: "length (Cores rm') = length (Cores rm)" "AliveVM rm' = AliveVM rm"
    "map hardware (Cores rm') = map hardware (Cores rm)"
    "\<And>u. VMLocation rm' u =
       (case row_map rows u of Some (vm, k) \<Rightarrow> Some (nat k) | None \<Rightarrow> ((VMLocation rm)(?u \<mapsto> ?i)) u)"
    "\<And>j u. j < length (Cores rm) \<Longrightarrow> vms_of (Cores rm' ! j) u =
       (case row_map rows u of Some (vm, k) \<Rightarrow> if nat k = j then Some vm else None
        | None \<Rightarrow> vms_of (Cores (load_vm vm ?i rm) ! j) u)"
    "\<forall>(vm, k) \<in> set rows. 0 \<le> k \<and> k < int (length (Cores rm))"
    by (simp_all add: step load_vm_hardware cong: option.case_cong)
  have none: "row_map rows ?u = None" using new by (rule row_map_None)
  have loc: "VMLocation rm' u =
      (case row_map (row # rows) u of Some (vm, k) \<Rightarrow> Some (nat k) | None \<Rightarrow> VMLocation rm u)" for u
    using IH(4) [of u] none by (auto simp: row split: option.split)
  have vms: "vms_of (Cores rm' ! j) u =
      (case row_map (row # rows) u of Some (vm, k) \<Rightarrow> if nat k = j then Some vm else None
       | None \<Rightarrow> vms_of (Cores rm ! j) u)" if "j < length (Cores rm)" for j u
    using IH(5) [OF that, of u] none Cons.prems(3) that by (auto simp: row step split: option.split)
  show ?case using IH(1-3,6) loc vms k by (simp add: row)
qed simp

lemma db_rows:
  assumes "wf_db db" "get_all_instance_info e db = Ok (vs, ks)"
  shows "length vs = length ks" "distinct (map (VM_UUID \<circ> fst) (zip vs ks))" "row_map (zip vs ks) = db_view db"
proof -
  note all = mysql.get_all_ok [OF assms]
  from all show len: "length vs = length ks" by blast
  then have keys: "map (VM_UUID \<circ> fst) (zip vs ks) = map VM_UUID vs"
    by (metis map_fst_zip map_map)
  with all show "distinct (map (VM_UUID \<circ> fst) (zip vs ks))" by metis
  have "map (\<lambda>(vm, k). (VM_UUID vm, (vm, k))) (zip vs ks) = zip (map VM_UUID vs) (zip vs ks)"
    using len by (induction vs ks rule: list_induct2) auto
  with all show "row_map (zip vs ks) = db_view db" by (simp add: row_map_def)
qed

section \<open>The state handed to the server\<close>

lemma row_map_in: "row_map rows u = Some (vm, k) \<Longrightarrow> (vm, k) \<in> set rows \<and> VM_UUID vm = u"
  unfolding row_map_def by (auto dest!: map_of_SomeD)

lemma initialize_core_data_Ok:
  assumes "initialize_core_data e path db guac redis = Ok (cfg, w)"
  obtains cfg0 cores vs ks rm where
    "read_config (se_files e) path = Ok cfg0" "cfg = cfg0\<lparr>cfg_GuacBaseURL := guac_base_url (se_env e) cfg0\<rparr>"
    "discover_cores (se_grow e) (se_answers e) (se_schedule e) (core_addresses (se_env e) cfg0) = Ok cores"
    "get_all_instance_info (se_list e) db = Ok (vs, ks)"
    "load_vms (zip vs ks) (new_resource_manager\<lparr>Cores := cores\<rparr>) = Ok rm"
    "w = \<lparr>Resources = rm, MainDB = db, GuacDB = Some guac, Redis = redis, Last_subnet = last_subnet db,
       GuacBaseURL = guac_base_url (se_env e) cfg0, trace = []\<rparr>"
  using assms by (auto simp: initialize_core_data_def load_instances_def on_ok_Ok_iff Let_def)

lemma started_mirrors:
  assumes "main_start e re db guac redis = Ok (cfg, w)" "wf_db db" "wf_guac guac" "wf_redis redis"
  shows "wf_context w \<and> coherent w \<and> MainDB w = db \<and> Last_subnet w = last_subnet db \<and>
    map Ok (map core_id (Cores (Resources w))) = keep_first (map parse_address (core_addresses (se_env e) cfg)) \<and>
    (\<forall>u. VMLocation (Resources w) u = map_option (nat \<circ> snd) (db_view db u)) \<and>
    (\<forall>i < length (Cores (Resources w)). \<forall>u. vms_of (Cores (Resources w) ! i) u =
       (case db_view db u of Some (vm, k) \<Rightarrow> if k = int i then Some vm else None | None \<Rightarrow> None)) \<and>
    (\<forall>u vm k. db_view db u = Some (vm, k) \<longrightarrow> 0 \<le> k \<and> k < int (length (Cores (Resources w))))"
proof -
  obtain redis1 where redis1: "initialize_redis (se_env e ''REDIS_HOST'') re redis = (Ok (), redis1)"
    and init: "initialize_core_data e ''config.yaml'' db guac redis1 = Ok (cfg, w)"
    using assms(1) by (auto simp: main_start_def split: prod.splits result.splits)
  have redis_wf: "wf_redis redis1" using wf_redis_initialize [OF assms(4)] redis1 by (metis snd_conv)
  obtain cfg0 cores vs ks rm where run:
    "discover_cores (se_grow e) (se_answers e) (se_schedule e) (core_addresses (se_env e) cfg0) = Ok cores"
    "get_all_instance_info (se_list e) db = Ok (vs, ks)"
    "load_vms (zip vs ks) (new_resource_manager\<lparr>Cores := cores\<rparr>) = Ok rm"
    "cfg = cfg0\<lparr>cfg_GuacBaseURL := guac_base_url (se_env e) cfg0\<rparr>"
    "w = \<lparr>Resources = rm, MainDB = db, GuacDB = Some guac, Redis = redis1, Last_subnet = last_subnet db,
       GuacBaseURL = guac_base_url (se_env e) cfg0, trace = []\<rparr>"
    using initialize_core_data_Ok [OF init] by metis
  note rows = db_rows [OF assms(2) run(2)]
  obtain ps where ps: "map parse_address (core_addresses (se_env e) cfg0) = map Ok ps"
    "map core_id cores = keep_first ps" "\<forall>c \<in> set cores. VMInfoIdx c = None"
    using discovered_ids [OF run(1)] by blast
  have loaded: "length (Cores rm) = length cores" "map hardware (Cores rm) = map hardware cores"
    "VMLocation rm u = (case db_view db u of Some (vm, k) \<Rightarrow> Some (nat k) | None \<Rightarrow> None)"
    "i < length cores \<Longrightarrow> vms_of (Cores rm ! i) u =
       (case db_view db u of Some (vm, k) \<Rightarrow> if nat k = i then Some vm else None | None \<Rightarrow> None)"
    "\<forall>(vm, k) \<in> set (zip vs ks). 0 \<le> k \<and> k < int (length cores)" for u i
    using load_vms_Ok [OF run(3) rows(2)] ps(3)
    by (simp_all add: new_resource_manager_def vms_of_def rows(3) cong: option.case_cong)
  have range: "0 \<le> k \<and> k < int (length cores) \<and> VM_UUID vm = u" if "db_view db u = Some (vm, k)" for u vm k
    using row_map_in [of "zip vs ks" u vm k] that loaded(5) by (auto simp: rows(3))
  have ids: "map core_id (Cores rm) = map core_id cores"
  proof -
    have "map core_id (Cores rm) = map core_id (map hardware (Cores rm))"
      by (simp add: hardware_def core_id_def)
    also have "\<dots> = map core_id cores" unfolding loaded(2) by (simp add: hardware_def core_id_def)
    finally show ?thesis .
  qed
  have wf: "wf_rm rm"
  proof -
    have "wf_core (Cores rm ! i)" if "i < length cores" for i
    proof -
      have "dom (vms_of (Cores rm ! i)) \<subseteq> dom (db_view db)"
        using loaded(4) [OF that] by (auto split: option.splits)
      moreover have "finite (dom (db_view db))"
        unfolding rows(3) [symmetric] row_map_def by (rule finite_dom_map_of)
      ultimately have "finite (dom (vms_of (Cores rm ! i)))" by (rule finite_subset)
      moreover have "VM_UUID v = u" if "vms_of (Cores rm ! i) u = Some v" for u v
        using that loaded(4) [OF \<open>i < length cores\<close>, of u] range [of u]
        by (auto split: option.splits if_splits)
      ultimately show ?thesis by (simp add: wf_core_def)
    qed
    moreover have "i < length cores" if "VMLocation rm u = Some i" for u i
      using that loaded(3) [of u] range [of u] by (auto split: option.splits)
    ultimately show ?thesis by (auto simp: wf_rm_def loaded(1) in_set_conv_nth)
  qed
  have "wf_context w" using wf assms(2,3) redis_wf by (simp add: wf_context_def run(5))
  moreover have "coherent w"
    using loaded(3) range by (auto simp: coherent_def run(5) split: option.splits)
  moreover have "map Ok (map core_id (Cores rm)) = keep_first (map parse_address (core_addresses (se_env e) cfg))"
  proof -
    have "core_addresses (se_env e) cfg = core_addresses (se_env e) cfg0"
      by (simp add: core_addresses_def run(4))
    moreover have "keep_first (map Ok ps) = map Ok (map core_id (Cores rm))"
      using keep_first_map [of Ok ps] by (simp only: ids ps(2)) (simp add: inj_def)
    ultimately show ?thesis by (simp only: ps(1))
  qed
  moreover have "VMLocation rm u = map_option (nat \<circ> snd) (db_view db u)" for u
    using loaded(3) [of u] by (simp split: option.split)
  moreover have "vms_of (Cores rm ! i) u =
      (case db_view db u of Some (vm, k) \<Rightarrow> if k = int i then Some vm else None | None \<Rightarrow> None)"
    if "i < length cores" for i u
    using loaded(4) [OF that, of u] range [of u] by (auto split: option.splits)
  ultimately show ?thesis using range by (simp add: run(5) loaded(1))
qed

lemma main_start_wf:
  assumes "main_start e re db guac redis = Ok (cfg, w)" "wf_db db" "wf_guac guac" "wf_redis redis"
  shows "wf_context w" "coherent w"
  using started_mirrors [OF assms] by blast+

text \<open>C4: when the server starts without an error, its memory is the picture of the database:
  the cores are the configured ones, the location map sends every stored VM to its stored core
  index, the table of each core holds exactly the stored VMs of that index, and no row points
  outside the list of cores; so all the invariants the service operations keep hold from the
  beginning.\<close>

theorem startup_mirrors_database:
  assumes "main_start e re db guac redis = Ok (cfg, w)" "wf_db db" "wf_guac guac" "wf_redis redis"
  shows "wf_context w \<and> coherent w \<and> MainDB w = db \<and> Last_subnet w = last_subnet db \<and>
    map Ok (map core_id (Cores (Resources w))) = keep_first (map parse_address (core_addresses (se_env e) cfg)) \<and>
    (\<forall>u. VMLocation (Resources w) u = map_option (nat \<circ> snd) (db_view db u)) \<and>
    (\<forall>i < length (Cores (Resources w)). \<forall>u. vms_of (Cores (Resources w) ! i) u =
       (case db_view db u of Some (vm, k) \<Rightarrow> if k = int i then Some vm else None | None \<Rightarrow> None)) \<and>
    (\<forall>u vm k. db_view db u = Some (vm, k) \<longrightarrow> 0 \<le> k \<and> k < int (length (Cores (Resources w))))"
  using assms by (rule started_mirrors)

section \<open>Pointers into a slice that moves\<close>

text \<open>The cores below this index were copied to the present array after their goroutine had
  taken its pointer.\<close>

definition moved :: "core_heap \<Rightarrow> nat" where
  "moved h = cap h div 2"

definition core_of :: "string \<times> uint16 \<Rightarrow> core" where
  "core_of p = new_core (fst p) (snd p)"

definition launched :: "(string \<times> uint16) list \<Rightarrow> discovery \<Rightarrow> bool" where
  "launched ps d \<longleftrightarrow>
     Suc (cur (d_heap d)) = length (arrays (d_heap d)) \<and> the_cores (d_heap d) = map core_of ps \<and> distinct ps \<and>
     d_done d = [] \<and> d_error d = Ok () \<and> length (d_workers d) = length ps \<and>
     (\<forall>i < length ps. snd (d_workers d ! i) = i \<and> fst (d_workers d ! i) \<le> cur (d_heap d) \<and>
        (fst (d_workers d ! i) = cur (d_heap d) \<longleftrightarrow> moved (d_heap d) \<le> i)) \<and>
     (ps = [] \<and> cap (d_heap d) = 0 \<or>
      (\<exists>k. cap (d_heap d) = 2 ^ k \<and> moved (d_heap d) < length ps \<and> length ps \<le> 2 ^ k))"

lemma launched_empty: "launched [] no_discovery"
  by (simp add: launched_def no_discovery_def) (simp add: nil_slice_def)

lemma core_id_of [simp]: "core_id (core_of p) = p"
  by (simp add: core_id_def core_of_def new_core_def)

lemma launched_step:
  assumes l: "launched ps d" and new: "(ip, port) \<notin> set ps"
  shows "launched (ps @ [(ip, port)]) (launch_worker go_grow ip port d)"
proof -
  define h where "h = d_heap d"
  define h' where "h' = append_core go_grow (new_core ip port) h"
  have wf: "wf_heap h" using l by (simp add: launched_def wf_heap_def h_def)
  have "core_id ` set (the_cores h) = set ps" using l by (simp add: launched_def h_def image_image)
  with new have "find_core (the_cores h) 0 ip port = None" by (simp add: find_core_None_iff)
  moreover have cores: "the_cores h = map core_of ps" "the_cores h' = map core_of (ps @ [(ip, port)])"
    using l append_core_simps(1) [OF wf] by (simp_all add: launched_def h_def h'_def core_of_def)
  ultimately have d': "launch_worker go_grow ip port d =
      d\<lparr>d_heap := h', d_workers := d_workers d @ [(cur h', length ps)]\<rparr>"
    by (simp add: launch_worker_def Let_def h_def [symmetric] h'_def [symmetric])
  have shape: "Suc (cur h') = length (arrays h') \<and> cap h' \<noteq> 0 \<and> moved h' \<le> length ps \<and>
      (\<exists>k. cap h' = 2 ^ k \<and> length ps < 2 ^ k) \<and>
      (\<forall>i < length ps. fst (d_workers d ! i) \<le> cur h' \<and> (fst (d_workers d ! i) = cur h' \<longleftrightarrow> moved h' \<le> i))"
  proof (cases "length ps < cap h")
    case True
    then have "cur h' = cur h" "cap h' = cap h" "length (arrays h') = length (arrays h)"
      by (simp_all add: h'_def append_core_def cores(1) Let_def)
    with l True show ?thesis by (auto simp: launched_def h_def moved_def)
  next
    case False
    then have h': "cur h' = length (arrays h)" "cap h' = go_grow (cap h)" "length (arrays h') = Suc (length (arrays h))"
      by (simp_all add: h'_def append_core_def cores(1) Let_def)
    have cap: "cap h = 0 \<and> ps = [] \<or> (\<exists>k. cap h = 2 ^ k \<and> length ps = cap h)"
      using l False by (auto simp: launched_def h_def)
    then have "moved h' = length ps" "\<exists>k. cap h' = 2 ^ k \<and> length ps < 2 ^ k" "cap h' \<noteq> 0"
      by (auto simp: h' go_grow_def moved_def power_Suc [symmetric] simp del: power_Suc
          intro: exI [of _ 0] exI [of _ "Suc k" for k])
    with l h' show ?thesis by (fastforce simp: launched_def h_def)
  qed
  have "snd (d_workers d ! i) = i" if "i < length ps" for i using l that by (simp add: launched_def)
  with l new shape cores(2) d' show ?thesis
    by (auto simp: launched_def nth_append less_Suc_eq Suc_le_eq)
qed

lemma launch_loop_launched:
  assumes "launch_loop go_grow answers [] addrs d = Ok d'" "launched ps d" "map parse_address addrs = map Ok qs"
    "distinct (ps @ qs)"
  shows "launched (ps @ qs) d'"
  using assms
proof (induction addrs arbitrary: ps qs d)
  case (Cons addr addrs)
  then obtain q qs' where "parse_address addr = Ok q" "qs = q # qs'" "map parse_address addrs = map Ok qs'"
    by (cases qs) auto
  then obtain ip port where addr: "parse_address addr = Ok (ip, port)" "qs = (ip, port) # qs'"
    "map parse_address addrs = map Ok qs'"
    by (cases q) auto
  have l: "launched (ps @ [(ip, port)]) (launch_worker go_grow ip port d)"
    using Cons.prems(2,4) addr(2) by (intro launched_step) simp_all
  have "launch_loop go_grow answers [] addrs (launch_worker go_grow ip port d) = Ok d'"
    using Cons.prems(1) addr(1) by (simp add: Let_def split: if_splits)
  from Cons.IH [OF this l addr(3)] Cons.prems(4) show ?case by (simp add: addr(2))
qed simp

lemma power_of_two_between:
  assumes "2 ^ k < (n :: nat)" "n \<le> 2 * 2 ^ k" "2 ^ j div 2 < n" "n \<le> 2 ^ j"
  shows "2 ^ j div 2 = (2 :: nat) ^ k"
proof -
  from assms(1,4) have "(2 :: nat) ^ k < 2 ^ j" by linarith
  then have "k < j" by simp
  then obtain i where i: "j = Suc i" by (cases j) simp_all
  from assms(2,3) i have "(2 :: nat) ^ i < 2 ^ Suc k" by simp
  then have "i < Suc k" by (rule power_less_imp_less_exp [rotated]) simp
  with \<open>k < j\<close> i have "i = k" by simp
  with i show ?thesis by simp
qed

text \<open>The goroutine wrote to the core that the slice shows now.\<close>

definition settled :: "http_outcome \<times> http_outcome \<Rightarrow> string \<times> uint16 \<Rightarrow> core \<Rightarrow> bool" where
  "settled a p c \<longleftrightarrow> (\<exists>mem disk. memory_answer (fst a) = Ok (Some mem) \<and>
     disk_answer (snd a) = Ok (Some disk) \<and> c = filled_core mem disk (core_of p))"

text \<open>What \<open>Wait\<close> finds once the first \<open>m\<close> goroutines are done.\<close>

lemma finish_launched:
  fixes answers
  assumes l: "launched ps d"
  defines "fin \<equiv> \<lambda>m. fold (finish_worker answers) [0..<m] d"
  assumes "m \<le> length ps" "d_error (fin m) = Ok ()"
  shows "cur (d_heap (fin m)) = cur (d_heap d) \<and> wf_heap (d_heap (fin m)) \<and> set (d_done (fin m)) = {..<m} \<and>
    length (the_cores (d_heap (fin m))) = length ps \<and>
    (\<forall>i < length ps. if i < m \<and> moved (d_heap d) \<le> i
       then settled (answers i) (ps ! i) (the_cores (d_heap (fin m)) ! i)
       else the_cores (d_heap (fin m)) ! i = core_of (ps ! i))"
  using assms(3,4)
proof (induction m)
  case 0
  with l show ?case by (simp add: fin_def launched_def wf_heap_def)
next
  case (Suc m)
  define h where "h = d_heap (fin m)"
  define p where "p = d_workers d ! m"
  obtain r c where probe: "probe_core (answers m) (core_at p h) = (r, c)" by fastforce
  have step: "fin (Suc m) = finish_worker answers m (fin m)" by (simp add: fin_def)
  have workers: "d_workers (fin m) = d_workers d" by (simp add: fin_def)
  have "first_error (d_error (fin m)) r = Ok () \<or> m \<in> set (d_done (fin m)) \<and> d_error (fin m) = Ok ()"
    using Suc.prems l probe
    by (auto simp: step finish_worker_def workers launched_def h_def p_def Let_def split: if_splits)
  then have err: "d_error (fin m) = Ok ()" by (auto simp: first_error_iff)
  with Suc have IH: "cur h = cur (d_heap d)" "wf_heap h" "set (d_done (fin m)) = {..<m}"
    "length (the_cores h) = length ps"
    "\<And>i. i < length ps \<Longrightarrow> if i < m \<and> moved (d_heap d) \<le> i
       then settled (answers i) (ps ! i) (the_cores h ! i)
       else the_cores h ! i = core_of (ps ! i)"
    by (simp_all add: h_def)
  have m: "m < length ps" using Suc.prems(1) by simp
  have p: "snd p = m" "fst p = cur h \<longleftrightarrow> moved (d_heap d) \<le> m"
    using l m IH(1) by (simp_all add: launched_def p_def)
  have fin: "fin (Suc m) = (fin m)\<lparr>d_heap := put_core p c h, d_done := m # d_done (fin m),
      d_error := first_error (d_error (fin m)) r\<rparr>"
    using l m IH(3) probe by (simp add: step finish_worker_def workers launched_def h_def p_def)
  have r: "r = Ok ()" using Suc.prems(2) by (simp add: fin first_error_iff)
  have cores: "the_cores (put_core p c h) = (if moved (d_heap d) \<le> m then (the_cores h)[m := c] else the_cores h)"
    by (simp add: the_cores_put IH(2) p)
  have new: "settled (answers m) (ps ! m) c" if "moved (d_heap d) \<le> m"
  proof -
    have "core_at p h = core_of (ps ! m)" using IH(5) [OF m] that p by (simp add: core_at_def the_cores_def)
    with probe r show ?thesis by (cases rule: probe_core_cases) (auto simp: settled_def)
  qed
  show ?case
    using IH(1-4) IH(5) new by (auto simp: fin cores nth_list_update less_Suc_eq)
qed

text \<open>C16: when two or more different cores are configured and no goroutine finishes before the
  loop is through (they wait for the network, the loop does not), the start succeeds but loses
  what it learned about the first \<open>2 ^ k\<close> of them, the largest power of two below their number:
  their goroutines hold pointers into arrays that \<open>append\<close> has replaced. These cores keep zero
  free memory, CPU and disk and no request that asks for memory is ever placed on them; the
  others hold what they answered.\<close>

theorem slice_growth_loses_cores:
  assumes "discover_cores go_grow answers [] addrs = Ok cores" "map parse_address addrs = map Ok ps" "distinct ps"
    "length addrs \<le> 256" "2 ^ k < length addrs" "length addrs \<le> 2 * 2 ^ k"
  shows "length cores = length addrs \<and>
    (\<forall>i < 2 ^ k. cores ! i = core_of (ps ! i) \<and> FreeMemory (cores ! i) = 0 \<and>
       (\<forall>req. 0 < req_Memory req \<longrightarrow> \<not> fits req (cores ! i))) \<and>
    (\<forall>i. 2 ^ k \<le> i \<and> i < length addrs \<longrightarrow> settled (answers i) (ps ! i) (cores ! i))"
proof -
  have len: "length addrs = length ps" using assms(2) by (metis length_map)
  obtain ps' d where d: "map parse_address addrs = map Ok ps'"
    "launch_loop go_grow answers [] addrs no_discovery = Ok d"
    "cores = the_cores (d_heap (fold (finish_worker answers) [0..<length ps'] d))"
    "d_error (fold (finish_worker answers) [0..<length ps'] d) = Ok ()"
    using discover_cores_Ok [OF assms(1)] by blast
  then have ps': "ps' = ps" using assms(2) by (simp add: inj_map_eq_map inj_def)
  have l: "launched ps d"
    using launch_loop_launched [OF d(2) launched_empty assms(2)] assms(3) by simp
  then obtain j where j: "cap (d_heap d) = 2 ^ j" "2 ^ j div 2 < length ps" "length ps \<le> 2 ^ j"
    using assms(5) by (auto simp: launched_def moved_def len)
  have moved: "moved (d_heap d) = 2 ^ k"
    using j assms(5,6) power_of_two_between [of k "length ps" j] by (simp add: len moved_def)
  note fin = finish_launched [OF l le_refl, of answers, folded d(3) [unfolded ps'], OF d(4) [unfolded ps']]
  have "cores ! i = core_of (ps ! i)" if "i < 2 ^ k" for i
    using fin that assms(5) by (simp add: moved len)
  moreover have "settled (answers i) (ps ! i) (cores ! i)" if "2 ^ k \<le> i" "i < length addrs" for i
    using fin that by (simp add: moved len)
  moreover have "FreeMemory (core_of p) = 0" for p by (simp add: core_of_def new_core_def)
  moreover have "length cores = length addrs" using fin by (simp add: len)
  ultimately show ?thesis by (auto simp: fits_def)
qed

definition demo_memory_answer :: http_outcome where
  "demo_memory_answer = ok_answer [(''information'', JObj [(''total_gb'', JInt 64), (''available_gb'', JInt 48)])]"

definition demo_disk_answer :: http_outcome where
  "demo_disk_answer = ok_answer [(''information'', JObj [(''total_gb'', JInt 500), (''free_gb'', JInt 400)])]"

definition demo_memory :: memory_info where
  "demo_memory = zero_memory_info\<lparr>mem_Total := 64, mem_Available := 48\<rparr>"

definition demo_disk :: disk_info where
  "demo_disk = zero_disk_info\<lparr>disk_Total := 500, disk_Free := 400\<rparr>"

lemma demo_answers:
  "memory_answer demo_memory_answer = Ok (Some demo_memory)" "disk_answer demo_disk_answer = Ok (Some demo_disk)"
  by (simp_all add: demo_memory_answer_def demo_disk_answer_def ok_answer_def host_info_def do_request_def
      unmarshal_def decode_struct_def find_field_def core_response_fields_def pointer_field_def
      memory_info_fields_def disk_info_fields_def uint64_field_def demo_memory_def demo_disk_def)

lemma demo_parse:
  "parse_address ''a:80'' = Ok (''a'', 80)" "parse_address ''b:81'' = Ok (''b'', 81)"
  by (simp_all add: parse_address_def atoi_def atoi_unsigned_def parse_uint_def is_digit_def digit_val_def)

lemma demo_discovery:
  "discover_cores go_grow (\<lambda>_. (demo_memory_answer, demo_disk_answer)) [] [''a:80'', ''b:81''] =
     Ok [core_of (''a'', 80), filled_core demo_memory demo_disk (core_of (''b'', 81))]"
  by (simp add: discover_cores_def demo_parse launch_worker_def append_core_def the_cores_def
      no_discovery_def nil_slice_def go_grow_def new_core_def Let_def wait_workers_def finish_worker_def
      probe_core_def get_core_machine_memory_info_def get_core_machine_disk_info_def demo_answers core_at_def
      put_core_def core_of_def upt_rec filled_core_def)

definition demo_config :: config where
  "demo_config = \<lparr>cfg_VmInternalSubnets = [], cfg_GuacBaseURL = ''http://guac'', cfg_Cores = [''a:80'', ''b:81''],
     cfg_Port = 8081, cfg_Redis = [],
     cfg_DB = \<lparr>dc_User = [], dc_Password = [], dc_Host = [], dc_Port = 0, dc_Name = []\<rparr>,
     cfg_GuacDB = \<lparr>dc_User = [], dc_Password = [], dc_Host = [], dc_Port = 0, dc_Name = []\<rparr>\<rparr>"

definition demo_startup_env :: startup_env where
  "demo_startup_env = \<lparr>se_env = (\<lambda>_. []),
     se_files = \<lparr>cf_open = (\<lambda>_. None), cf_read = (\<lambda>_. Ok []), cf_yaml = (\<lambda>_. Ok demo_config)\<rparr>,
     se_driver = \<lparr>drv_open = (\<lambda>_. None), drv_ping = (\<lambda>_. None)\<rparr>, se_subnet = None, se_grow = go_grow,
     se_answers = (\<lambda>_. (demo_memory_answer, demo_disk_answer)), se_schedule = [], se_list = no_faults\<rparr>"

theorem discovered_cores_witness:
  "\<exists>ps. map parse_address [''a:80'', ''b:81''] = map Ok ps \<and>
     map core_id [core_of (''a'', 80), filled_core demo_memory demo_disk (core_of (''b'', 81))] = keep_first ps"
  using discovered_cores [OF demo_discovery] by blast

theorem discovery_panics_iff_witness:
  "discover_cores go_grow (\<lambda>_. (ok_answer [], demo_disk_answer)) [] [''a:80''] = Panic"
proof -
  have "memory_answer (ok_answer []) = Ok None"
    by (simp add: ok_answer_def host_info_def do_request_def unmarshal_def decode_struct_def)
  then have "nil_information (ok_answer [], demo_disk_answer)" by (simp add: nil_information_def demo_answers)
  then show ?thesis
    using discovery_panics_iff [of "[''a:80'']" "[(''a'', 80)]" go_grow "\<lambda>_. (ok_answer [], demo_disk_answer)" "[]"]
    by (simp add: demo_parse)
qed

theorem slice_growth_loses_cores_witness:
  "\<not> fits demo_req ([core_of (''a'', 80), filled_core demo_memory demo_disk (core_of (''b'', 81))] ! 0)"
  using slice_growth_loses_cores [OF demo_discovery, of "[(''a'', 80), (''b'', 81)]" 0]
  by (simp add: demo_parse demo_req_def)

lemma demo_start:
  "main_start demo_startup_env redis_ok empty_db empty_guac Map.empty =
     Ok (demo_config, \<lparr>Resources = \<lparr>Cores = [core_of (''a'', 80), filled_core demo_memory demo_disk (core_of (''b'', 81))],
           AliveVM = [], VMLocation = Map.empty\<rparr>, MainDB = empty_db, GuacDB = Some empty_guac,
         Redis = [test_key \<mapsto> test_value], Last_subnet = last_subnet empty_db, GuacBaseURL = ''http://guac'', trace = []\<rparr>)"
proof -
  have "initialize_redis [] redis_ok Map.empty = (Ok (), [test_key \<mapsto> test_value])"
    by (simp add: initialize_redis_def redis_set_def redis_ok_def)
  moreover have "get_all_instance_info no_faults empty_db = Ok ([], [])"
    by (simp add: get_all_instance_info_def no_faults_def commit_read_def join_rows_def empty_db_def)
  ultimately show ?thesis
    by (simp add: main_start_def initialize_core_data_def load_instances_def demo_startup_env_def read_config_def try_read_config_def
        open_main_db_def open_guac_db_def core_addresses_def guac_base_url_def or_else_def demo_config_def
        demo_discovery new_resource_manager_def Let_def)
qed

definition one_vm_db :: main_db where
  "one_vm_db = empty_db\<lparr>inst_info := [\<lparr>inst_uuid = ''vm-1'', inst_ip = ''10.0.1.2'', guac_pass = ''pw'', inst_mem = 4096,
     inst_vcpu = 2, inst_disk = 20480\<rparr>], inst_loc := [(''vm-1'', 1)]\<rparr>"

lemma one_vm_db_loaded:
  "\<exists>cfg w. main_start demo_startup_env redis_ok one_vm_db empty_guac Map.empty = Ok (cfg, w)"
proof -
  have "initialize_redis [] redis_ok Map.empty = (Ok (), [test_key \<mapsto> test_value])"
    by (simp add: initialize_redis_def redis_set_def redis_ok_def)
  moreover have "\<exists>vm. get_all_instance_info no_faults one_vm_db = Ok ([vm], [1])"
    by (simp add: get_all_instance_info_def no_faults_def commit_read_def join_rows_def one_vm_db_def)
  ultimately show ?thesis
    by (auto simp: main_start_def initialize_core_data_def load_instances_def demo_startup_env_def read_config_def try_read_config_def
        open_main_db_def open_guac_db_def core_addresses_def guac_base_url_def or_else_def demo_config_def
        demo_discovery new_resource_manager_def Let_def)
qed

theorem startup_mirrors_database_witness:
  "\<exists>cfg w. main_start demo_startup_env redis_ok one_vm_db empty_guac Map.empty = Ok (cfg, w) \<and> wf_context w \<and>
     VMLocation (Resources w) ''vm-1'' = Some 1 \<and>
     map_option VM_Memory (vms_of (Cores (Resources w) ! 1) ''vm-1'') = Some 4096 \<and>
     vms_of (Cores (Resources w) ! 0) ''vm-1'' = None"
proof -
  obtain cfg w where start: "main_start demo_startup_env redis_ok one_vm_db empty_guac Map.empty = Ok (cfg, w)"
    using one_vm_db_loaded by blast
  have db: "wf_db one_vm_db" by (simp add: wf_db_def one_vm_db_def empty_db_def)
  obtain vm where row: "db_view one_vm_db ''vm-1'' = Some (vm, 1)" "VM_Memory vm = 4096"
    by (simp add: db_view_def info_map_def one_vm_db_def info_of_row_def)
  have "wf_redis Map.empty" by (simp add: wf_redis_def)
  from startup_mirrors_database [OF start db wf_empty_guac this] have w: "wf_context w"
    "VMLocation (Resources w) ''vm-1'' = map_option (nat \<circ> snd) (db_view one_vm_db ''vm-1'')"
    "1 < length (Cores (Resources w))"
    "\<forall>i < length (Cores (Resources w)). \<forall>u. vms_of (Cores (Resources w) ! i) u =
       (case db_view one_vm_db u of Some (vm, k) \<Rightarrow> if k = int i then Some vm else None | None \<Rightarrow> None)"
    using row by (simp_all, fastforce)
  have "vms_of (Cores (Resources w) ! 0) ''vm-1'' = None" "vms_of (Cores (Resources w) ! 1) ''vm-1'' = Some vm"
    using w(4) [rule_format, of 0 "''vm-1''"] w(4) [rule_format, of 1 "''vm-1''"] less_trans [OF zero_less_one w(3)] w(3) row
    by simp_all
  with start w(1,2) row show ?thesis by auto
qed

end
