(* ===== verification/ServerProperties.thy ===== *)
theory ServerProperties
  imports Handlers StartupProperties
begin

text \<open>
  What the HTTP interface guarantees: which replies a client can get, that a rejected request
  leaves the server as it was, that the invariants hold from the start of the process through
  any sequence of requests, and that a request reaches the core unchanged.
\<close>

section \<open>Replies\<close>

text \<open>A reply of one of the known codes; with 400 nothing has happened.\<close>

definition well_answered :: "server \<Rightarrow> http_reply option \<times> server \<Rightarrow> bool" where
  "well_answered s out \<longleftrightarrow>
     (case fst out of
        None \<Rightarrow> True
      | Some rp \<Rightarrow> rp_status rp \<in> {200, 201, 400, 404, 500} \<and> (rp_status rp = 400 \<longrightarrow> snd out = s))"

lemma respond_status [simp]:
  "rp_status (respond_json c j) = c" "rp_status (respond_error c m) = c" "rp_status (write_header c) = c"
  by (simp_all add: respond_json_def respond_error_def write_header_def)

lemma well_answered_bad [simp]: "well_answered s (bad_request m s)"
  by (simp add: well_answered_def bad_request_def)

lemma well_answered_reply:
  assumes "status \<in> {404, 500}" "\<And>x. rp_status (done x) \<in> {200, 201}"
  shows "well_answered s (reply_with status done out)"
proof -
  obtain r s' where out: "out = (r, s')" by (cases out)
  have "rp_status (done x) \<noteq> 400" "rp_status (done x) \<in> {200, 201, 400, 404, 500}" for x
    using assms(2) [of x] by auto
  with assms(1) show ?thesis by (cases r) (auto simp: well_answered_def reply_with_def out)
qed

lemma well_answered_body:
  "(\<And>r. well_answered s (k r)) \<Longrightarrow> well_answered s (with_body fs zero msg rq s k)"
  by (simp add: with_body_def split: result.split)

lemma well_answered_redis: "well_answered s (redis_handler e rq s)"
  unfolding redis_handler_def
  by (rule well_answered_body) (auto simp: well_answered_def split: prod.split result.split)

lemmas handler_defs =
  create_vm_handler_def delete_vm_handler_def start_vm_handler_def shutdown_vm_handler_def
  vm_status_handler_def vm_connect_handler_def vm_info_handler_def take_snapshot_handler_def
  list_snapshots_handler_def delete_snapshot_handler_def

lemma well_answered_others:
  "well_answered s (create_vm_handler e rq s)" "well_answered s (delete_vm_handler e rq s)"
  "well_answered s (start_vm_handler e rq s)" "well_answered s (shutdown_vm_handler e rq s)"
  "well_answered s (vm_status_handler e rq s)" "well_answered s (vm_connect_handler e rq s)"
  "well_answered s (vm_info_handler e rq s)" "well_answered s (take_snapshot_handler e rq s)"
  "well_answered s (list_snapshots_handler e rq s)" "well_answered s (delete_snapshot_handler e rq s)"
  by (auto simp: handler_defs intro!: well_answered_body well_answered_reply split: prod.split)

lemma handlers_well_answered: "(m, p, h) \<in> set routes \<Longrightarrow> well_answered s (h e rq s)"
  by (auto simp: routes_def well_answered_redis well_answered_others)

lemma serve_cases:
  obtains (routed) m p h where "(m, p, h) \<in> set routes" "p = rq_path rq" "method_matches m (rq_method rq)"
      "serve e rq s = with_security_headers h e rq s"
  | (unrouted) rp where "serve e rq s = (Some rp, s)"
      "rp_status rp = (if \<exists>(m, p, h) \<in> set routes. p = rq_path rq then 405 else 404)"
      "\<forall>(m, p, h) \<in> set routes. \<not> (p = rq_path rq \<and> method_matches m (rq_method rq))"
proof (cases "find (\<lambda>(m, p, h). p = rq_path rq \<and> method_matches m (rq_method rq)) routes")
  case None
  then have "\<forall>(m, p, h) \<in> set routes. \<not> (p = rq_path rq \<and> method_matches m (rq_method rq))"
    by (auto simp: find_None_iff)
  moreover define rp where "rp = \<lparr>rp_status = if \<exists>(m, p, h) \<in> set routes. p = rq_path rq then 405 else 404,
             rp_headers = [], rp_body = TextReply []\<rparr>"
  then have "rp_status rp = (if \<exists>(m, p, h) \<in> set routes. p = rq_path rq then 405 else 404)" by simp
  moreover from None have "serve e rq s = (Some rp, s)"
    by (simp add: serve_def rp_def)
  ultimately show thesis using unrouted [of rp] by blast
next
  case (Some r)
  obtain m p h where r: "r = (m, p, h)" by (cases r)
  from Some have "(m, p, h) \<in> set routes" "p = rq_path rq" "method_matches m (rq_method rq)"
    by (auto simp: find_Some_iff r in_set_conv_nth)
  with Some show thesis by (intro routed) (simp_all add: serve_def r)
qed

text \<open>C26: what a reply can be. When a route matches method and path, the reply has one of five
  status codes, with 400 (a body that does not decode, a missing field, an unknown status type, a
  zero size) nothing has changed at all, and it carries the header that forbids content sniffing,
  whatever its status. When none matches, nothing has changed and the status is 405 for a path
  with a route of another method and 404 for any other.\<close>

theorem replies_are_well_formed:
  assumes "serve e rq s = (Some rp, s')"
  shows "if \<exists>(m, p, h) \<in> set routes. p = rq_path rq \<and> method_matches m (rq_method rq)
    then rp_status rp \<in> {200, 201, 400, 404, 500} \<and> (rp_status rp = 400 \<longrightarrow> s' = s) \<and>
      (''X-Content-Type-Options'', ''nosniff'') \<in> set (rp_headers rp)
    else s' = s \<and> rp_status rp = (if \<exists>(m, p, h) \<in> set routes. p = rq_path rq then 405 else 404)"
proof (cases rule: serve_cases [of rq e s])
  case (routed m p h)
  then have "\<exists>(m, p, h) \<in> set routes. p = rq_path rq \<and> method_matches m (rq_method rq)" by blast
  moreover obtain out s1 where h: "h e rq s = (out, s1)" by fastforce
  with routed(4) assms obtain rp0 where rp: "out = Some rp0" "s1 = s'"
    "rp = rp0\<lparr>rp_headers := (''X-Content-Type-Options'', ''nosniff'') # rp_headers rp0\<rparr>"
    by (cases out) (auto simp: with_security_headers_def)
  with handlers_well_answered [OF routed(1), of s e rq] h
  have "rp_status rp \<in> {200, 201, 400, 404, 500} \<and> (rp_status rp = 400 \<longrightarrow> s' = s) \<and>
      (''X-Content-Type-Options'', ''nosniff'') \<in> set (rp_headers rp)"
    by (auto simp: well_answered_def)
  ultimately show ?thesis by simp
next
  case (unrouted rp0)
  then have "\<not> (\<exists>(m, p, h) \<in> set routes. p = rq_path rq \<and> method_matches m (rq_method rq))" by blast
  with unrouted(1,2) assms show ?thesis by (simp only: if_False) simp
qed

section \<open>Invariants from the start\<close>

lemma on_context_snd [simp]: "sv_context (snd (on_context f s)) = snd (f (sv_context s))"
  by (simp add: on_context_def split: prod.split)

lemma reply_with_snd [simp]: "snd (reply_with status done out) = snd out"
  by (cases out; cases "fst out") (auto simp: reply_with_def)

lemma with_body_context:
  "(\<And>r. wf_context (sv_context (snd (k r)))) \<Longrightarrow> wf_context (sv_context s) \<Longrightarrow>
   wf_context (sv_context (snd (with_body fs zero msg rq s k)))"
  by (simp add: with_body_def bad_request_def split: result.split)

lemma bad_request_snd [simp]: "snd (bad_request msg s) = s"
  by (simp add: bad_request_def)

lemma wf_find_core [inv_intros]: "wf_context w \<Longrightarrow> wf_context (snd (find_core_by_vm_uuid e u w))"
  using find_core_wf(1) [OF _ prod.collapse [symmetric]] by blast

lemma wf_context_redis_write [intro]:
  assumes "wf_context w" "update_vm_status e u st t (Redis w) = (r, db)"
  shows "wf_context (w\<lparr>Redis := db\<rparr>)"
  using assms wf_redis_step [of "Redis w" "UpdateOp e u st t"] by (simp add: wf_context_def)

lemma wf_snapshot: "wf_context w \<Longrightarrow> wf_context (fst (snd (take_snapshot te env s3 u name (w, once))))"
  using wf_find_core [of w te u]
  by (auto simp: take_snapshot_def split: prod.split option.split result.split)

lemma handlers_keep_context:
  assumes "wf_context (sv_context s)"
  shows "wf_context (sv_context (snd (create_vm_handler e rq s)))"
    "wf_context (sv_context (snd (delete_vm_handler e rq s)))"
    "wf_context (sv_context (snd (start_vm_handler e rq s)))"
    "wf_context (sv_context (snd (shutdown_vm_handler e rq s)))"
    "wf_context (sv_context (snd (vm_status_handler e rq s)))"
    "wf_context (sv_context (snd (vm_connect_handler e rq s)))"
    "wf_context (sv_context (snd (vm_info_handler e rq s)))"
    "wf_context (sv_context (snd (redis_handler e rq s)))"
    "wf_context (sv_context (snd (take_snapshot_handler e rq s)))"
    "wf_context (sv_context (snd (list_snapshots_handler e rq s)))"
    "wf_context (sv_context (snd (delete_snapshot_handler e rq s)))"
proof -
  show "wf_context (sv_context (snd (take_snapshot_handler e rq s)))"
  proof -
    have "wf_context (sv_context (snd (case take_snapshot te env s3 u name (sv_context s, sv_rustfs s) of
        (r, w, once) \<Rightarrow> reply_with c d (r, s\<lparr>sv_context := w, sv_rustfs := once\<rparr>))))" for te env s3 u name c and d :: "unit \<Rightarrow> http_reply"
      using wf_snapshot [OF assms, of te env s3 u name "sv_rustfs s"] by (auto split: prod.split)
    with assms show ?thesis
      unfolding take_snapshot_handler_def by (intro with_body_context) (auto split: prod.split)
  qed
  show "wf_context (sv_context (snd (redis_handler e rq s)))"
    unfolding redis_handler_def using assms
    by (intro with_body_context) (auto split: prod.split result.split)
qed (use assms in \<open>auto simp: handler_defs inv_intros get_vm_cpu_info_def get_vm_memory_info_def
      get_vm_disk_info_def intro!: with_body_context split: prod.split\<close>)

lemma serve_keeps_context:
  assumes "wf_context (sv_context s)"
  shows "wf_context (sv_context (snd (serve e rq s)))"
proof (cases rule: serve_cases [of rq e s])
  case (routed m p h)
  have "wf_context (sv_context (snd (h e rq s)))"
    using routed(1) handlers_keep_context [OF assms] by (auto simp: routes_def)
  with routed(4) show ?thesis by (auto simp: with_security_headers_def split: prod.split)
next
  case unrouted
  with assms show ?thesis by simp
qed

text \<open>The server after a history of requests, each with the outcomes of the calls it makes.\<close>

definition serve_step :: "api_env \<times> api_request \<Rightarrow> server \<Rightarrow> server" where
  "serve_step c s = snd (serve (fst c) (snd c) s)"

definition serve_all :: "(api_env \<times> api_request) list \<Rightarrow> server \<Rightarrow> server" where
  "serve_all = fold serve_step"

interpretation requests: invariant_steps serve_step "\<lambda>s. wf_context (sv_context s)" "\<lambda>_. True"
  by unfold_locales (simp add: serve_step_def serve_keeps_context)

definition fresh_server :: "control_context \<Rightarrow> server" where
  "fresh_server w = \<lparr>sv_context = w, sv_rustfs = None\<rparr>"

lemma serve_all_keeps_context:
  "wf_context (sv_context s) \<Longrightarrow> wf_context (sv_context (serve_all rqs s))"
  unfolding serve_all_def by (rule requests.any_history) simp_all

text \<open>From the moment the server has started on sound stores, every sequence of requests, with
  every outcome of the databases, Redis, the CMS, the cores and the object store, and also the
  requests that panic, keeps all the invariants of the state.\<close>

theorem server_keeps_invariants:
  assumes "main_start e re db guac redis = Ok (cfg, w)" "wf_db db" "wf_guac guac" "wf_redis redis"
  shows "wf_context (sv_context (serve_all rqs (fresh_server w)))"
  using main_start_wf(1) [OF assms] by (intro serve_all_keeps_context) (simp add: fresh_server_def)

section \<open>Creating a VM over HTTP\<close>

definition post_vm :: "json_text \<Rightarrow> api_request" where
  "post_vm body = \<lparr>rq_method = ''POST'', rq_path = ''/vm'', rq_uuid = [], rq_body = body\<rparr>"

definition delete_vm_request :: "uuid \<Rightarrow> api_request" where
  "delete_vm_request u =
     \<lparr>rq_method = ''DELETE'', rq_path = ''/vm'', rq_uuid = [], rq_body = Doc (JObj [(''uuid'', JStr u)])\<rparr>"

definition info_request :: "uuid \<Rightarrow> api_request" where
  "info_request u =
     \<lparr>rq_method = ''GET'', rq_path = ''/vm/info'', rq_uuid = [], rq_body = Doc (JObj [(''uuid'', JStr u)])\<rparr>"

lemma serve_requests:
  "serve e (post_vm body) = with_security_headers create_vm_handler e (post_vm body)"
  "serve e (delete_vm_request u) = with_security_headers delete_vm_handler e (delete_vm_request u)"
  "serve e (info_request u) = with_security_headers vm_info_handler e (info_request u)"
  by (simp_all add: fun_eq_iff serve_def routes_def method_matches_def post_vm_def delete_vm_request_def info_request_def)

lemma request_bodies [simp]:
  "rq_body (post_vm body) = body" "rq_body (delete_vm_request u) = Doc (JObj [(''uuid'', JStr u)])"
  "rq_body (info_request u) = Doc (JObj [(''uuid'', JStr u)])"
  by (simp_all add: post_vm_def delete_vm_request_def info_request_def)

lemma decode_uuid: "unmarshal uuid_fields [] (Doc (JObj [(''uuid'', JStr u)])) = Ok u"
  by (simp add: unmarshal_def decode_struct_def uuid_fields_def find_field_def)

definition sizes_given :: "api_create_vm_request \<Rightarrow> bool" where
  "sizes_given r \<longleftrightarrow> ah_Memory (ac_HWInfo r) \<noteq> 0 \<and> ah_CPU (ac_HWInfo r) \<noteq> 0 \<and> ah_Disk (ac_HWInfo r) \<noteq> 0"

lemma create_handler_cases:
  obtains (undecoded) "\<not> is_ok (unmarshal api_create_fields zero_api_create (rq_body rq))"
      "\<exists>m. create_vm_handler e rq s = bad_request m s"
  | (unsized) r where "unmarshal api_create_fields zero_api_create (rq_body rq) = Ok r" "\<not> sizes_given r"
      "\<exists>m. create_vm_handler e rq s = bad_request m s"
  | (called) r where "unmarshal api_create_fields zero_api_create (rq_body rq) = Ok r" "sizes_given r"
      "create_vm_handler e rq s = reply_with 500
         (\<lambda>_. respond_json 201 (JObj [(''message'', JStr ''VM created successfully'')]))
         (on_context (create_vm (ae_create e) (to_service_input r)) s)"
  by (cases "unmarshal api_create_fields zero_api_create (rq_body rq)")
    (auto simp: create_vm_handler_def with_body_def sizes_given_def split: if_splits)

lemma created_cases:
  assumes "serve e (post_vm body) s = (Some rp, s')" "rp_status rp = 201"
  obtains r w' where "unmarshal api_create_fields zero_api_create body = Ok r" "sizes_given r"
    "create_vm (ae_create e) (to_service_input r) (sv_context s) = (Ok (), w')" "s' = s\<lparr>sv_context := w'\<rparr>"
proof -
  obtain rp0 where h: "create_vm_handler e (post_vm body) s = (Some rp0, s')" "rp_status rp0 = 201"
    using assms by (auto simp: serve_requests with_security_headers_def split: prod.splits)
  show thesis
  proof (cases rule: create_handler_cases [of "post_vm body" e s])
    case (called r)
    obtain q w' where "create_vm (ae_create e) (to_service_input r) (sv_context s) = (q, w')" by fastforce
    with called h that [of r w'] show thesis
      by (cases q) (auto simp: reply_with_def on_context_def)
  qed (use h in \<open>auto simp: bad_request_def\<close>)
qed

text \<open>The API answers 201 to a creation exactly when the body decodes, all three sizes are
  non-zero, and \<open>CreateVM\<close> returned no error; then the state is the one \<open>CreateVM\<close> left.\<close>

theorem created_iff:
  "(\<exists>rp s'. serve e (post_vm body) s = (Some rp, s') \<and> rp_status rp = 201) \<longleftrightarrow>
   (\<exists>r w'. unmarshal api_create_fields zero_api_create body = Ok r \<and> sizes_given r \<and>
      create_vm (ae_create e) (to_service_input r) (sv_context s) = (Ok (), w') \<and>
      snd (serve e (post_vm body) s) = s\<lparr>sv_context := w'\<rparr>)"
proof (cases rule: create_handler_cases [of "post_vm body" e s])
  case (called r)
  obtain q w' where run: "create_vm (ae_create e) (to_service_input r) (sv_context s) = (q, w')" by fastforce
  with called show ?thesis
    by (cases q) (auto simp: serve_requests with_security_headers_def reply_with_def on_context_def)
qed (auto simp: serve_requests with_security_headers_def bad_request_def)

section \<open>From the API to the core and back\<close>

lemma decode_hardware:
  "decode_struct hardware_fields r
     (JObj [(''cpu'', JInt (uint c)), (''memory'', JInt (uint m)), (''disk'', JInt (uint d))]) =
   Some (r\<lparr>ah_CPU := c, ah_Memory := m, ah_Disk := d\<rparr>)"
  by (simp add: decode_struct_def hardware_fields_def find_field_def uint32_field_JInt)

lemma decode_ssh: "slice_field decode_string upd (json_of_slice JStr x) r = Some (upd x r)"
  by (cases x) (simp_all add: json_of_slice_def decode_strings)

lemma decode_user:
  "decode_struct user_fields zero_user (json_of_user u) =
     Some \<lparr>au_Name = u_Name u, au_Groups = u_Groups u, au_Password = u_Password u, au_SSH = u_SSH u\<rparr>"
  by (simp add: decode_struct_def user_fields_def find_field_def json_of_user_def decode_ssh zero_user_def)

definition api_user :: "user_info_vm \<Rightarrow> api_user_info" where
  "api_user u = \<lparr>au_Name = u_Name u, au_Groups = u_Groups u, au_Password = u_Password u, au_SSH = u_SSH u\<rparr>"

lemma decode_users:
  "slice_field (decode_struct user_fields zero_user) upd (json_of_slice json_of_user (Some us)) r =
     Some (upd (Some (map api_user us)) r)"
  using those_list_Some [of api_user us]
  by (simp add: json_of_slice_def those_list_map comp_def decode_user api_user_def)

lemma create_fields:
  "find_field api_create_fields ''domType'' = Some (str_field (\<lambda>s r. r\<lparr>ac_DomType := s\<rparr>))"
  "find_field api_create_fields ''domName'' = Some (str_field (\<lambda>s r. r\<lparr>ac_DomName := s\<rparr>))"
  "find_field api_create_fields ''uuid'' = Some (str_field (\<lambda>s r. r\<lparr>ac_UUID := s\<rparr>))"
  "find_field api_create_fields ''os'' = Some (str_field (\<lambda>s r. r\<lparr>ac_OS := s\<rparr>))"
  "find_field api_create_fields ''HWInfo'' = Some (struct_field hardware_fields ac_HWInfo (\<lambda>x r. r\<lparr>ac_HWInfo := x\<rparr>))"
  "find_field api_create_fields ''network'' = Some (struct_field network_fields ac_IPs (\<lambda>x r. r\<lparr>ac_IPs := x\<rparr>))"
  "find_field api_create_fields ''users'' = Some (slice_field (decode_struct user_fields zero_user) (\<lambda>x r. r\<lparr>ac_Users := x\<rparr>))"
  "find_field api_create_fields ''Subnettype'' = Some (str_field (\<lambda>s r. r\<lparr>ac_SubnetType := s\<rparr>))"
  by (simp_all add: find_field_def api_create_fields_def)

lemma unknown_keys:
  "find_field network_fields ''NetType'' = None" "find_field api_create_fields ''sdnUUID'' = None"
  "find_field api_create_fields ''macAddr'' = None"
  by code_simp+

lemma decode_ips:
  "struct_field network_fields get put
     (JObj [(''ips'', json_of_slice JStr (Some ips)), (''NetType'', JInt n)]) r = Some (put (Some ips) r)"
  by (simp add: struct_field_def decode_struct_def unknown_keys(1))
    (simp add: network_fields_def find_field_def json_of_slice_def decode_strings)

lemma service_users_back:
  "map api_user (with_first_key key (map core_user (in_Users (to_service_input r)))) =
     (case ac_Users r of Some (u # us) \<Rightarrow> u\<lparr>au_SSH := Some [key]\<rparr> # us | _ \<Rightarrow> [])"
  by (cases "ac_Users r"; cases "the (ac_Users r)")
    (simp_all add: to_service_input_def service_user_def core_user_def api_user_def comp_def map_idI)

text \<open>C10: the description of a VM reaches its core as the client gave it: the document sent to the
  core, read with the API's own schema, is the client's request with its addresses replaced by
  the one the CMS gave and the keys of the first user replaced by the generated one. Nothing
  else is lost or altered on the way through the three layers.\<close>

theorem core_request_carries_input:
  "unmarshal api_create_fields zero_api_create
     (Doc (json_of_create_vm (build_core_create_vm_request (to_service_input r) cms key))) =
   Ok (r\<lparr>ac_IPs := Some [cms_IP cms],
         ac_Users := Some (case ac_Users r of Some (u # us) \<Rightarrow> u\<lparr>au_SSH := Some [key]\<rparr> # us | _ \<Rightarrow> [])\<rparr>)"
proof -
  have "decode_struct api_create_fields zero_api_create
      (json_of_create_vm (build_core_create_vm_request (to_service_input r) cms key)) =
    Some (r\<lparr>ac_IPs := Some [cms_IP cms],
         ac_Users := Some (map api_user (with_first_key key (map core_user (in_Users (to_service_input r)))))\<rparr>)"
    unfolding json_of_create_vm_def build_core_create_vm_request_def
    by (simp add: decode_struct_def [of api_create_fields] create_fields unknown_keys(2,3) decode_users decode_ips
        struct_field_def [of hardware_fields] decode_hardware)
      (simp add: to_service_input_def zero_api_create_def)
  then show ?thesis by (simp add: unmarshal_def service_users_back)
qed

section \<open>What the information request reports\<close>

lemma serve_with_handler:
  assumes "serve e rq s = with_security_headers h e rq s" "h e rq s = (Some rp, s')"
  shows "serve e rq s = (Some (rp\<lparr>rp_headers := (''X-Content-Type-Options'', ''nosniff'') # rp_headers rp\<rparr>), s')"
  using assms by (simp add: with_security_headers_def)

lemma get_vm_info_not_Panic [simp]: "get_vm_info e u db \<noteq> Panic"
  by (auto simp: get_vm_info_def load_vm_info_def unmarshal_not_Panic split: option.split result.split)

lemma info_request_reply:
  "\<exists>rp. serve e (info_request u) s = (Some rp, s) \<and>
     (case get_vm_info (ae_redis e) u (Redis (sv_context s)) of
        Ok i \<Rightarrow> rp_status rp = 200 \<and> rp_body rp = JsonReply (json_of_vm_info i)
      | _ \<Rightarrow> rp_status rp = 404)"
  by (cases "get_vm_info (ae_redis e) u (Redis (sv_context s))")
    (auto simp: serve_requests with_security_headers_def vm_info_handler_def with_body_def decode_uuid
      reply_with_def respond_json_def respond_error_def get_vm_info_not_Panic)

text \<open>C9: what \<open>GET /vm/info\<close> says of a VM whose creation was answered with 201. When the status
  document was written, which the code does not insist on, it answers 200 with the UUID and the sizes
  of the request and an address. When writing it failed, the creation was answered with 201 all the
  same, and a VM that Redis did not know before is answered with 404.\<close>

theorem created_vm_is_reported:
  assumes "wf_context (sv_context s)" "serve e (post_vm body) s = (Some rp, s')" "rp_status rp = 201"
    "unmarshal api_create_fields zero_api_create body = Ok r" "re_get (ae_redis e') = None"
  shows "\<exists>ip rp'. serve e' (info_request (ac_UUID r)) s' = (Some rp', s') \<and>
    (case re_set (ce_redis (ae_create e)) of
       CommitFailed _ \<Rightarrow> Redis (sv_context s) (ac_UUID r) = None \<longrightarrow> rp_status rp' = 404
     | _ \<Rightarrow> rp_status rp' = 200 \<and>
         rp_body rp' = JsonReply (JObj [(''uuid'', JStr (ac_UUID r)), (''cpu'', JInt (uint (ah_CPU (ac_HWInfo r)))),
           (''memory'', JInt (uint (ah_Memory (ac_HWInfo r)))), (''disk'', JInt (uint (ah_Disk (ac_HWInfo r)))),
           (''ip'', JStr ip)]))"
proof -
  let ?inp = "to_service_input r"
  obtain w' where run: "create_vm (ae_create e) ?inp (sv_context s) = (Ok (), w')"
    and s': "s' = s\<lparr>sv_context := w'\<rparr>"
    using created_cases [OF assms(2,3)] assms(4) by auto
  have u: "in_UUID ?inp = ac_UUID r" by (simp add: to_service_input_def)
  obtain cms where redis: "Redis w' = (case re_set (ce_redis (ae_create e)) of
      CommitFailed _ \<Rightarrow> Redis (sv_context s)
    | _ \<Rightarrow> (Redis (sv_context s))(ac_UUID r \<mapsto> marshal_redis_vm_info (stored_form (initial_status ?inp cms) (ce_now (ae_create e)))))"
    using create_vm_redis [OF run] unfolding u by blast
  have read: "get_vm_info (ae_redis e') u (R(u \<mapsto> marshal_redis_vm_info (stored_form (initial_status ?inp cms) t))) =
      Ok (initial_status ?inp cms)" for u R t
    by (simp add: get_vm_info_def load_vm_info_def assms(5) initial_status_def)
  have unknown: "\<not> is_ok (get_vm_info (ae_redis e') u R)" if "R u = None" for u R
    using that by (simp add: get_vm_info_def load_vm_info_def split: option.split)
  obtain rp' where reply: "serve e' (info_request (ac_UUID r)) s' = (Some rp', s')"
    "case get_vm_info (ae_redis e') (ac_UUID r) (Redis w') of
        Ok i \<Rightarrow> rp_status rp' = 200 \<and> rp_body rp' = JsonReply (json_of_vm_info i)
      | _ \<Rightarrow> rp_status rp' = 404"
    using info_request_reply [of e' "ac_UUID r" s'] by (auto simp: s')
  have written: "rp_status rp' = 200 \<and> rp_body rp' = JsonReply (json_of_vm_info (initial_status ?inp cms))"
    if "\<forall>m. re_set (ce_redis (ae_create e)) \<noteq> CommitFailed m"
    using reply(2) that by (cases "re_set (ce_redis (ae_create e))") (simp_all add: redis read)
  show ?thesis
  proof (cases "re_set (ce_redis (ae_create e))")
    case (CommitFailed m)
    have "rp_status rp' = 404" if "Redis (sv_context s) (ac_UUID r) = None"
      using reply(2) unknown [of "Redis (sv_context s)" "ac_UUID r"] that by (simp add: redis CommitFailed split: result.splits)
    with reply(1) CommitFailed show ?thesis by auto
  qed (use reply(1) written in \<open>auto simp: json_of_vm_info_def initial_status_def to_service_input_def\<close>)
qed

text \<open>C27: after a deletion that was answered with 200, and whose removal of the status document got
  through, \<open>GET /vm/info\<close> answers 404 for the VM, whatever Redis does on the read.\<close>

theorem deleted_vm_is_not_found:
  assumes "wf_context (sv_context s)" "serve e (delete_vm_request u) s = (Some rp, s')" "rp_status rp = 200"
    "re_del (de_redis (ae_delete e)) = Committed"
  shows "\<exists>rp'. serve e' (info_request u) s' = (Some rp', s') \<and> rp_status rp' = 404"
proof -
  obtain q w' where run: "delete_vm (ae_delete e) u (sv_context s) = (q, w')" by fastforce
  with assms(2,3) have "q = Ok ()" "s' = s\<lparr>sv_context := w'\<rparr>"
    by (cases q; simp add: serve_requests with_security_headers_def delete_vm_handler_def with_body_def decode_uuid
      reply_with_def on_context_def; fastforce)+
  with delete_vm_deleted [OF assms(1), of "ae_delete e" u w'] run assms(4)
  have "Redis (sv_context s') u = None" by simp
  then have "\<not> is_ok (get_vm_info (ae_redis e') u (Redis (sv_context s')))"
    by (simp add: get_vm_info_def load_vm_info_def split: option.split)
  with info_request_reply [of e' u s'] show ?thesis
    by (cases "get_vm_info (ae_redis e') u (Redis (sv_context s'))") auto
qed

section \<open>The status of a VM\<close>

definition status_request :: "uuid \<Rightarrow> string \<Rightarrow> api_request" where
  "status_request u t = \<lparr>rq_method = ''GET'', rq_path = ''/vm/status'', rq_uuid = [],
     rq_body = Doc (JObj [(''uuid'', JStr u), (''type'', JStr t)])\<rparr>"

definition answer_of :: "http_reply option \<times> server \<Rightarrow> (int \<times> reply_body) option" where
  "answer_of out = map_option (\<lambda>rp. (rp_status rp, rp_body rp)) (fst out)"

definition enveloped :: "json \<Rightarrow> string \<Rightarrow> json_text" where
  "enveloped info m = Doc (JObj [(''information'', info), (''message'', JStr m)])"

lemma envelope_unknown:
  "find_field cpu_info_fields ''information'' = None" "find_field cpu_info_fields ''message'' = None"
  "find_field memory_info_fields ''information'' = None" "find_field memory_info_fields ''message'' = None"
  "find_field disk_info_fields ''information'' = None" "find_field disk_info_fields ''message'' = None"
  by code_simp+

lemma envelope_lost:
  assumes "find_field fs ''information'' = None" "find_field fs ''message'' = None"
    "200 \<le> h_status resp" "h_status resp < 300" "h_body resp = enveloped info m"
  shows "do_request fs zero (Answered resp) = Ok zero"
  using assms by (simp add: do_request_def unmarshal_def decode_struct_def enveloped_def)

lemma status_of_located:
  assumes "VMLocation (Resources w) u = Some i" "\<And>c. snd (call c u answer) = Ok x"
  shows "\<exists>rq. get_vm_status who what call te answer u w = (Ok x, record_http answer rq w)"
proof -
  obtain rq r where "call (Cores (Resources w) ! i) u answer = (rq, r)" by fastforce
  moreover from this assms(2) [of "Cores (Resources w) ! i"] have "r = Ok x" by simp
  ultimately show ?thesis
    using assms(1) by (auto simp: get_vm_status_def with_core_def find_core_by_vm_uuid_def Let_def)
qed

lemma decode_status: "unmarshal (uuid_and ''type'') ([], []) (Doc (JObj [(''uuid'', JStr u), (''type'', JStr t)])) = Ok (u, t)"
  by (simp add: unmarshal_def decode_struct_def uuid_and_def find_field_def)

lemma serve_status: "serve e (status_request u t) = with_security_headers vm_status_handler e (status_request u t)"
  by (simp add: fun_eq_iff serve_def routes_def method_matches_def status_request_def)

text \<open>C28: a core that answers a status request for a VM the way it answers one for the host, with
  the values under \<open>information\<close>, is not understood: whatever it reports, the API answers 200
  and all values are zero.\<close>

theorem vm_status_drops_envelope:
  assumes "VMLocation (Resources (sv_context s)) u = Some i" "ae_http e = Answered resp"
    "200 \<le> h_status resp" "h_status resp < 300" "h_body resp = enveloped info m"
  shows "answer_of (serve e (status_request u ''cpu'') s) =
      Some (200, JsonReply (JObj [(''system_time'', JInt 0), (''idle_time'', JInt 0), (''usage_percent'', JInt 0)])) \<and>
    answer_of (serve e (status_request u ''memory'') s) =
      Some (200, JsonReply (JObj [(''total_gb'', JInt 0), (''used_gb'', JInt 0), (''available_gb'', JInt 0), (''used_percent'', JInt 0)])) \<and>
    answer_of (serve e (status_request u ''disk'') s) =
      Some (200, JsonReply (JObj [(''total_gb'', JInt 0), (''used_gb'', JInt 0), (''free_gb'', JInt 0), (''used_percent'', JInt 0)]))"
proof -
  let ?w = "sv_context s"
  note lost = envelope_lost [OF _ _ assms(3-5)]
  have "\<exists>r. get_vm_cpu_info (ae_find e) (ae_http e) u ?w = (Ok (to_cpu_status zero_cpu_info), record_http (ae_http e) r ?w)"
    unfolding get_vm_cpu_info_def
    by (rule status_of_located [OF assms(1)]) (simp add: converted_def core_vm_cpu_info_def assms(2) lost envelope_unknown)
  then obtain r1 where "get_vm_cpu_info (ae_find e) (ae_http e) u ?w = (Ok (to_cpu_status zero_cpu_info), record_http (ae_http e) r1 ?w)" ..
  moreover have "\<exists>r. get_vm_memory_info (ae_find e) (ae_http e) u ?w = (Ok (to_memory_status zero_memory_info), record_http (ae_http e) r ?w)"
    unfolding get_vm_memory_info_def
    by (rule status_of_located [OF assms(1)]) (simp add: converted_def core_vm_memory_info_def assms(2) lost envelope_unknown)
  then obtain r2 where "get_vm_memory_info (ae_find e) (ae_http e) u ?w = (Ok (to_memory_status zero_memory_info), record_http (ae_http e) r2 ?w)" ..
  moreover have "\<exists>r. get_vm_disk_info (ae_find e) (ae_http e) u ?w = (Ok (to_disk_status zero_disk_info), record_http (ae_http e) r ?w)"
    unfolding get_vm_disk_info_def
    by (rule status_of_located [OF assms(1)]) (simp add: converted_def core_vm_disk_info_def assms(2) lost envelope_unknown)
  then obtain r3 where "get_vm_disk_info (ae_find e) (ae_http e) u ?w = (Ok (to_disk_status zero_disk_info), record_http (ae_http e) r3 ?w)" ..
  moreover have "rq_body (status_request u t) = Doc (JObj [(''uuid'', JStr u), (''type'', JStr t)])" for t
    by (simp add: status_request_def)
  ultimately show ?thesis
    by (simp add: answer_of_def serve_status with_security_headers_def vm_status_handler_def with_body_def decode_status
        on_context_def reply_with_def respond_json_def json_of_cpu_status_def json_of_memory_status_def
        json_of_disk_status_def json_of_number_def to_cpu_status_def to_memory_status_def to_disk_status_def zero_cpu_info_def zero_memory_info_def zero_disk_info_def)
qed

section \<open>A demonstration\<close>

definition demo_body :: json_text where
  "demo_body = Doc (JObj
     [(''uuid'', JStr ''vm-1''), (''domType'', JStr ''kvm''), (''domName'', JStr ''d''), (''os'', JStr ''ubuntu''),
      (''HWInfo'', JObj [(''cpu'', JInt 2), (''memory'', JInt 4096), (''disk'', JInt 20480)]),
      (''users'', JArr [json_of_user \<lparr>u_Name = ''user'', u_Groups = [], u_Password = ''p'', u_SSH = None\<rparr>]),
      (''Subnettype'', JStr ''New'')])"

definition demo_create_request :: api_create_vm_request where
  "demo_create_request = \<lparr>ac_DomType = ''kvm'', ac_DomName = ''d'', ac_UUID = ''vm-1'', ac_OS = ''ubuntu'',
     ac_HWInfo = \<lparr>ah_CPU = 2, ah_Memory = 4096, ah_Disk = 20480\<rparr>, ac_IPs = None,
     ac_Users = Some [\<lparr>au_Name = ''user'', au_Groups = [], au_Password = ''p'', au_SSH = None\<rparr>],
     ac_SubnetType = ''New''\<rparr>"

definition demo_api_env :: api_env where
  "demo_api_env = \<lparr>ae_no_json = \<lambda>_. SyntaxError, ae_create = demo_create_env, ae_delete = demo_delete_env,
     ae_find = no_faults, ae_http = NotSent ''timeout'', ae_redis = redis_ok, ae_check = redis_ok, ae_now = 0,
     ae_env = \<lambda>_. [], ae_s3 = demo_s3\<rparr>"

lemma demo_body_decodes: "unmarshal api_create_fields zero_api_create demo_body = Ok demo_create_request"
  using those_list_Some [of api_user "[\<lparr>u_Name = ''user'', u_Groups = [], u_Password = ''p'', u_SSH = None\<rparr>]"]
    decode_hardware [of _ 2 4096 20480]
  by (simp add: unmarshal_def demo_body_def decode_struct_def [of api_create_fields] create_fields decode_user
      api_user_def struct_field_def [of hardware_fields] zero_api_create_def demo_create_request_def)

lemma demo_created:
  "\<exists>rp s'. serve demo_api_env (post_vm demo_body) (fresh_server demo_context) = (Some rp, s') \<and> rp_status rp = 201 \<and>
     sv_context s' = demo_after_create"
proof -
  have "to_service_input demo_create_request = demo_input"
    by (simp add: to_service_input_def demo_create_request_def service_user_def demo_input_def)
  moreover have "create_vm demo_create_env demo_input demo_context = (Ok (), demo_after_create)"
    using demo_create_runs by (simp add: demo_after_create_def prod_eq_iff)
  moreover have "sizes_given demo_create_request" by (simp add: sizes_given_def demo_create_request_def)
  ultimately show ?thesis
    by (cases rule: create_handler_cases [of "post_vm demo_body" demo_api_env "fresh_server demo_context"])
      (auto simp: demo_body_decodes serve_requests fresh_server_def
        with_security_headers_def reply_with_def on_context_def demo_api_env_def)
qed

theorem created_vm_is_reported_witness:
  "case serve demo_api_env (info_request ''vm-1'')
      (snd (serve demo_api_env (post_vm demo_body) (fresh_server demo_context))) of
     (Some rp, s) \<Rightarrow> rp_status rp = 200 | (None, s) \<Rightarrow> False"
proof -
  obtain rp s' where made: "serve demo_api_env (post_vm demo_body) (fresh_server demo_context) = (Some rp, s')"
    "rp_status rp = 201"
    using demo_created by blast
  have "wf_context (sv_context (fresh_server demo_context))" by (simp add: fresh_server_def wf_demo_context)
  moreover have "re_get (ae_redis demo_api_env) = None" by (simp add: demo_api_env_def redis_ok_def)
  moreover have "re_set (ce_redis (ae_create demo_api_env)) = Committed"
    by (simp add: demo_api_env_def demo_create_env_def redis_ok_def)
  ultimately have "\<exists>rp'. serve demo_api_env (info_request ''vm-1'') s' = (Some rp', s') \<and> rp_status rp' = 200"
    using created_vm_is_reported [OF _ made demo_body_decodes, of demo_api_env] by (auto simp: demo_create_request_def)
  then show ?thesis using made by auto
qed

theorem deleted_vm_is_not_found_witness:
  "case serve demo_api_env (info_request ''vm-1'')
      (snd (serve demo_api_env (delete_vm_request ''vm-1'') (fresh_server demo_placed))) of
     (Some rp, s) \<Rightarrow> rp_status rp = 404 | (None, s) \<Rightarrow> False"
proof -
  obtain w' where "delete_vm demo_delete_env ''vm-1'' demo_placed = (Ok (), w')"
    using demo_delete by (metis prod.collapse)
  then obtain rp s' where gone: "serve demo_api_env (delete_vm_request ''vm-1'') (fresh_server demo_placed) = (Some rp, s')"
    "rp_status rp = 200"
    by (auto simp: serve_requests with_security_headers_def delete_vm_handler_def with_body_def decode_uuid
        reply_with_def on_context_def fresh_server_def demo_api_env_def)
  have "wf_context (sv_context (fresh_server demo_placed))" by (simp add: fresh_server_def wf_demo_placed)
  moreover have "re_del (de_redis (ae_delete demo_api_env)) = Committed"
    by (simp add: demo_api_env_def demo_delete_env_def redis_ok_def)
  ultimately show ?thesis
    using deleted_vm_is_not_found [OF _ gone, of demo_api_env] gone by auto
qed

theorem replies_are_well_formed_witness:
  "case serve demo_api_env (post_vm (Garbage ''{'')) (fresh_server demo_context) of
     (Some rp, s) \<Rightarrow> rp_status rp = 400 \<and> s = fresh_server demo_context | (None, s) \<Rightarrow> False"
proof -
  have "\<exists>rp s'. serve demo_api_env (post_vm (Garbage ''{'')) (fresh_server demo_context) = (Some rp, s') \<and> rp_status rp = 400"
    by (simp add: serve_requests with_security_headers_def create_vm_handler_def with_body_def unmarshal_def bad_request_def)
  then obtain rp s' where bad: "serve demo_api_env (post_vm (Garbage ''{'')) (fresh_server demo_context) = (Some rp, s')"
    "rp_status rp = 400" by blast
  with replies_are_well_formed [OF bad(1)] show ?thesis by (auto split: if_splits)
qed

theorem server_keeps_invariants_witness:
  "\<exists>cfg w. main_start demo_startup_env redis_ok empty_db empty_guac Map.empty = Ok (cfg, w) \<and>
     wf_context (sv_context (serve_all [(demo_api_env, post_vm demo_body), (demo_api_env, info_request ''vm-1'')]
       (fresh_server w)))"
proof -
  have "wf_redis Map.empty" by (simp add: wf_redis_def)
  with server_keeps_invariants [OF demo_start wf_empty_db wf_empty_guac] demo_start show ?thesis by blast
qed

theorem vm_status_drops_envelope_witness:
  "case answer_of (serve (demo_api_env\<lparr>ae_http := ok_answer
       [(''information'', JObj [(''total_gb'', JInt 64)]), (''message'', JStr ''ok'')]\<rparr>)
       (status_request ''vm-1'' ''memory'') (fresh_server demo_placed)) of
     Some (c, JsonReply (JObj ((k, v) # kvs))) \<Rightarrow> c = 200 \<and> k = ''total_gb'' \<and> v = JInt 0 | _ \<Rightarrow> False"
proof -
  have "VMLocation (Resources (sv_context (fresh_server demo_placed))) ''vm-1'' = Some 1"
    by (simp add: fresh_server_def demo_placed_def)
  from vm_status_drops_envelope [OF this, of "demo_api_env\<lparr>ae_http := ok_answer
       [(''information'', JObj [(''total_gb'', JInt 64)]), (''message'', JStr ''ok'')]\<rparr>"]
  show ?thesis by (simp add: ok_answer_def enveloped_def)
qed

end
