(* ===== verification/Threads.thy ===== *)
theory Threads
  imports Prelude
begin

text \<open>
  Goroutines over a shared state. A thread is a value or an atomic step with the thread that is
  left, both of which depend on the state the step finds; a pool takes the steps of its threads
  in any order. The locale \<open>stepwise\<close> is the rule for assertions about single threads: what a
  thread keeps about itself and what no other thread destroys holds for every interleaving. It
  is interpreted for invariants (\<open>keeps\<close>) and for rely and guarantee (\<open>sat\<close>).
\<close>

section \<open>Threads\<close>

datatype ('r, 's) thread = Return 'r | Step "'s \<Rightarrow> 's" "'s \<Rightarrow> ('r, 's) thread"

primrec bind_thread :: "('a, 's) thread \<Rightarrow> ('a \<Rightarrow> ('b, 's) thread) \<Rightarrow> ('b, 's) thread" where
  "bind_thread (Return x) k = k x"
| "bind_thread (Step f g) k = Step f (\<lambda>s. bind_thread (g s) k)"

text \<open>The thread on its own, with no other between its steps.\<close>

primrec run :: "('r, 's) thread \<Rightarrow> 's \<Rightarrow> 'r \<times> 's" where
  "run (Return r) s = (r, s)"
| "run (Step f k) s = run (k s) (f s)"

definition atom :: "('s \<Rightarrow> 'r \<times> 's) \<Rightarrow> ('r, 's) thread" where
  "atom f = Step (\<lambda>s. snd (f s)) (\<lambda>s. Return (fst (f s)))"

definition look :: "('s \<Rightarrow> 'r) \<Rightarrow> ('r, 's) thread" where
  "look g = atom (\<lambda>s. (g s, s))"

definition effect :: "('s \<Rightarrow> 's) \<Rightarrow> (unit, 's) thread" where
  "effect f = atom (\<lambda>s. ((), f s))"

definition map_thread_result :: "('a \<Rightarrow> 'b) \<Rightarrow> ('a, 's) thread \<Rightarrow> ('b, 's) thread" where
  "map_thread_result h t = bind_thread t (\<lambda>x. Return (h x))"

text \<open>The sequencing of the code: leaving at the first error, and wrapping one.\<close>

definition on_ok_thread :: "('a result, 's) thread \<Rightarrow> ('a \<Rightarrow> ('b result, 's) thread) \<Rightarrow> ('b result, 's) thread" where
  "on_ok_thread t k = bind_thread t (\<lambda>r. case r of Ok x \<Rightarrow> k x | Fail e \<Rightarrow> Return (Fail e) | Panic \<Rightarrow> Return Panic)"

definition wrapping :: "string \<Rightarrow> ('a result, 's) thread \<Rightarrow> ('a result, 's) thread" where
  "wrapping p = map_thread_result (\<lambda>r. fst (wrapped p (r, ())))"

text \<open>A thread over a part of the state.\<close>

primrec zoom :: "('t \<Rightarrow> 's) \<Rightarrow> ('s \<Rightarrow> 't \<Rightarrow> 't) \<Rightarrow> ('r, 's) thread \<Rightarrow> ('r, 't) thread" where
  "zoom get put (Return r) = Return r"
| "zoom get put (Step f k) = Step (\<lambda>s. put (f (get s)) s) (\<lambda>s. zoom get put (k (get s)))"

lemma bind_thread_assoc: "bind_thread (bind_thread t k) l = bind_thread t (\<lambda>x. bind_thread (k x) l)"
  by (induction t) simp_all

lemma run_bind [simp]: "run (bind_thread t k) s = (case run t s of (x, s') \<Rightarrow> run (k x) s')"
  by (induction t arbitrary: s) auto

lemma run_atom [simp]: "run (atom f) s = f s" "run (look g) s = (g s, s)" "run (effect h) s = ((), h s)"
  by (simp_all add: atom_def look_def effect_def)

lemma run_map [simp]: "run (map_thread_result h t) s = (case run t s of (x, s') \<Rightarrow> (h x, s'))"
  by (simp add: map_thread_result_def)

lemma run_on_ok [simp]: "run (on_ok_thread t k) s = and_then (run t s) (\<lambda>x s. run (k x) s)"
  by (auto simp: on_ok_thread_def split: prod.split result.split)

lemma run_wrapping [simp]: "run (wrapping p t) s = wrapped p (run t s)"
  by (auto simp: wrapping_def split: prod.split) (metis fst_conv result.exhaust wrapped.simps)

lemma run_zoom:
  assumes "\<And>x s. get (put x s) = x" "\<And>x y s. put x (put y s) = put x s" "\<And>s. put (get s) s = s"
  shows "run (zoom get put t) s = (case run t (get s) of (r, x) \<Rightarrow> (r, put x s))"
proof (induction t arbitrary: s)
  case (Step f k)
  then show ?case by (simp add: assms(1,2) split: prod.split)
qed (simp add: assms(3))

section \<open>Pools\<close>

type_synonym ('r, 's) pool = "'s \<times> ('r, 's) thread list"

inductive turn :: "('r, 's) pool \<Rightarrow> ('r, 's) pool \<Rightarrow> bool" where
  "i < length ts \<Longrightarrow> ts ! i = Step f k \<Longrightarrow> turn (s, ts) (f s, ts[i := k s])"

inductive_cases turnE: "turn (s, ts) p"

primrec returned :: "('r, 's) thread \<Rightarrow> 'r option" where
  "returned (Return r) = Some r"
| "returned (Step f k) = None"

lemma turns_length: "turn\<^sup>*\<^sup>* (s, ts) (s', ts') \<Longrightarrow> length ts' = length ts"
  by (induction rule: rtranclp_induct2) (auto elim: turnE)

text \<open>One thread can run to its end while the others rest.\<close>

lemma turns_solo:
  assumes "i < length ts"
  shows "turn\<^sup>*\<^sup>* (s, ts[i := t]) (snd (run t s), ts[i := Return (fst (run t s))])"
proof (induction t arbitrary: s)
  case (Step f k)
  have "turn (s, ts[i := Step f k]) (f s, (ts[i := Step f k])[i := k s])"
    using assms by (intro turn.intros) simp_all
  then have "turn (s, ts[i := Step f k]) (f s, ts[i := k s])" by simp
  moreover have "turn\<^sup>*\<^sup>* (f s, ts[i := k s]) (snd (run (k s) (f s)), ts[i := Return (fst (run (k s) (f s)))])"
    by (rule Step) simp
  ultimately show ?case by (simp add: converse_rtranclp_into_rtranclp)
qed simp

text \<open>A whole thread between the first step of another and the rest of it.\<close>

lemma turns_between:
  assumes "run t (f s) = (x, s1)" "run (k s) s1 = (y, s2)"
  shows "turn\<^sup>*\<^sup>* (s, [Step f k, t]) (s2, [Return y, Return x])"
proof -
  have "turn (s, [Step f k, t]) (f s, [k s, t])"
    using turn.intros [of 0 "[Step f k, t]" f k s] by simp
  moreover have "turn\<^sup>*\<^sup>* (f s, [k s, t]) (s1, [k s, Return x])"
    using turns_solo [of 1 "[k s, t]" "f s" t] assms(1) by simp
  moreover have "turn\<^sup>*\<^sup>* (s1, [k s, Return x]) (s2, [Return y, Return x])"
    using turns_solo [of 0 "[k s, Return x]" s1 "k s"] assms(2) by simp
  ultimately show ?thesis by (meson converse_rtranclp_into_rtranclp rtranclp_trans)
qed

section \<open>Assertions about the threads of a pool\<close>

locale stepwise =
  fixes holds :: "nat \<Rightarrow> ('r, 's) thread \<Rightarrow> 's \<Rightarrow> bool"
    and inv :: "'s \<Rightarrow> bool"
  assumes own_step: "inv s \<Longrightarrow> holds i (Step f k) s \<Longrightarrow> inv (f s) \<and> holds i (k s) (f s)"
    and other_step: "inv s \<Longrightarrow> holds i (Step f k) s \<Longrightarrow> i \<noteq> j \<Longrightarrow> holds j t s \<Longrightarrow> holds j t (f s)"
begin

definition pool_holds :: "('r, 's) pool \<Rightarrow> bool" where
  "pool_holds p \<longleftrightarrow> inv (fst p) \<and> (\<forall>i < length (snd p). holds i (snd p ! i) (fst p))"

lemma turn_holds: "turn p q \<Longrightarrow> pool_holds p \<Longrightarrow> pool_holds q \<and> length (snd q) = length (snd p)"
proof (induction rule: turn.induct)
  case (1 i ts f k s)
  then have "holds i (Step f k) s" "inv s" by (auto simp: pool_holds_def)
  with 1 own_step [of s i f k] other_step [of s i f k] show ?case
    by (auto simp: pool_holds_def nth_list_update)
qed

lemma turns_hold: "turn\<^sup>*\<^sup>* p q \<Longrightarrow> pool_holds p \<Longrightarrow> pool_holds q \<and> length (snd q) = length (snd p)"
  by (induction rule: rtranclp_induct) (auto dest: turn_holds)

lemma pool_rule:
  assumes "turn\<^sup>*\<^sup>* (s, ts) (s', ts')" "inv s" "\<And>i. i < length ts \<Longrightarrow> holds i (ts ! i) s"
  shows "inv s'" "length ts' = length ts" "i < length ts \<Longrightarrow> holds i (ts' ! i) s'"
  using turns_hold [OF assms(1)] assms(2,3) by (auto simp: pool_holds_def)

end

subsection \<open>Invariants and guarantees\<close>

text \<open>Whatever the others did in between, as long as \<open>I\<close> holds, every step keeps \<open>I\<close> and changes the
  state by \<open>G\<close>, and the answer satisfies \<open>q\<close>.\<close>

definition moves :: "('s \<Rightarrow> bool) \<Rightarrow> ('s \<Rightarrow> 's \<Rightarrow> bool) \<Rightarrow> 's \<Rightarrow> 's \<Rightarrow> bool" where
  "moves I G s s' \<longleftrightarrow> I s' \<and> G s s'"

primrec keeps :: "('s \<Rightarrow> bool) \<Rightarrow> ('s \<Rightarrow> 's \<Rightarrow> bool) \<Rightarrow> ('r \<Rightarrow> bool) \<Rightarrow> ('r, 's) thread \<Rightarrow> bool" where
  "keeps I G q (Return r) \<longleftrightarrow> q r"
| "keeps I G q (Step f k) \<longleftrightarrow> (\<forall>s. I s \<longrightarrow> moves I G s (f s) \<and> keeps I G q (k s))"

interpretation kept: stepwise "\<lambda>i t s. keeps I (G i) (q i) t" I for I G q
  by unfold_locales (auto simp: moves_def)

lemma keeps_mono: "keeps I G p t \<Longrightarrow> (\<And>r. p r \<Longrightarrow> q r) \<Longrightarrow> keeps I G q t"
  by (induction t) auto

lemma keeps_bind:
  "keeps I G p t \<Longrightarrow> (\<And>x. p x \<Longrightarrow> keeps I G q (k x)) \<Longrightarrow> keeps I G q (bind_thread t k)"
  by (induction t) auto

lemma keeps_atom: "(\<And>s. I s \<Longrightarrow> moves I G s (snd (f s)) \<and> q (fst (f s))) \<Longrightarrow> keeps I G q (atom f)"
  by (simp add: atom_def)

lemma keeps_look: "(\<And>s. I s \<Longrightarrow> G s s \<and> q (g s)) \<Longrightarrow> keeps I G q (look g)"
  by (simp add: look_def keeps_atom moves_def)

lemma keeps_effect: "(\<And>s. I s \<Longrightarrow> moves I G s (f s)) \<Longrightarrow> keeps I G (\<lambda>_. True) (effect f)"
  by (simp add: effect_def keeps_atom)

lemma keeps_map: "keeps I G p t \<Longrightarrow> (\<And>x. p x \<Longrightarrow> q (h x)) \<Longrightarrow> keeps I G q (map_thread_result h t)"
  unfolding map_thread_result_def by (rule keeps_bind [where p = p]) auto

text \<open>What the value of a call satisfies, if it gives one.\<close>

definition on_value :: "('a \<Rightarrow> bool) \<Rightarrow> 'a result \<Rightarrow> bool" where
  "on_value p r \<longleftrightarrow> (case r of Ok x \<Rightarrow> p x | _ \<Rightarrow> True)"

lemma on_value_simps [simp]: "on_value p (Ok x) \<longleftrightarrow> p x" "on_value p (Fail e)" "on_value p Panic"
  "on_value (\<lambda>_. True) r"
  by (simp_all add: on_value_def split: result.split)

lemma keeps_on_ok:
  "keeps I G (on_value p) t \<Longrightarrow> (\<And>x. p x \<Longrightarrow> keeps I G (on_value q) (k x)) \<Longrightarrow> keeps I G (on_value q) (on_ok_thread t k)"
  unfolding on_ok_thread_def by (rule keeps_bind [where p = "on_value p"]) (auto split: result.split)

lemma keeps_wrapping: "keeps I G (on_value p) t \<Longrightarrow> keeps I G (on_value p) (wrapping m t)"
  unfolding wrapping_def by (erule keeps_map) (auto simp: on_value_def split: result.splits)

lemma keeps_zoom:
  assumes "\<And>s. J s \<Longrightarrow> I (get s)" "\<And>s x. J s \<Longrightarrow> moves I G (get s) x \<Longrightarrow> moves J H s (put x s)"
  shows "keeps I G q t \<Longrightarrow> keeps J H q (zoom get put t)"
  by (induction t) (auto simp: assms)

subsection \<open>Who may win\<close>

text \<open>The thread cannot end with a value in \<open>won\<close> unless one of its steps makes \<open>P\<close> true. If \<open>P\<close>
  stays true once it is, at most one thread of a pool wins.\<close>

primrec earns :: "('s \<Rightarrow> bool) \<Rightarrow> ('r \<Rightarrow> bool) \<Rightarrow> ('r, 's) thread \<Rightarrow> bool" where
  "earns P won (Return r) \<longleftrightarrow> \<not> won r"
| "earns P won (Step f k) \<longleftrightarrow> (\<forall>s. earns P won (k s) \<or> \<not> P s \<and> P (f s))"

lemma earns_nothing: "earns P (\<lambda>_. False) t"
  by (induction t) auto

lemma earns_bind: "(\<And>x. earns P won (k x)) \<Longrightarrow> earns P won (bind_thread t k)"
  by (induction t) auto

lemma earns_atom_bind:
  "(\<And>s. \<not> P s \<and> P (snd (f s)) \<or> earns P won (k (fst (f s)))) \<Longrightarrow> earns P won (bind_thread (atom f) k)"
  by (auto simp: atom_def)

lemma earns_on_ok:
  "(\<And>x. earns P (\<lambda>r. r = Ok ()) (k x)) \<Longrightarrow> earns P (\<lambda>r. r = Ok ()) (on_ok_thread t k)"
  unfolding on_ok_thread_def by (rule earns_bind) (simp split: result.split)

lemma earns_map: "earns P won t \<Longrightarrow> (\<And>r. won' (h r) \<Longrightarrow> won r) \<Longrightarrow> earns P won' (map_thread_result h t)"
  unfolding map_thread_result_def by (induction t) auto

lemma earns_zoom: "(\<And>x s. get (put x s) = x) \<Longrightarrow> earns P won t \<Longrightarrow> earns (\<lambda>s. P (get s)) won (zoom get put t)"
  by (induction t) auto

abbreviation once_true :: "('s \<Rightarrow> bool) \<Rightarrow> 's \<Rightarrow> 's \<Rightarrow> bool" where
  "once_true P s s' \<equiv> P s \<longrightarrow> P s'"

definition one_earner :: "('s \<Rightarrow> bool) \<Rightarrow> (nat \<Rightarrow> 'r \<Rightarrow> bool) \<Rightarrow> bool \<Rightarrow> ('r, 's) pool \<Rightarrow> bool" where
  "one_earner P won start p \<longleftrightarrow> (start \<longrightarrow> P (fst p)) \<and>
     (\<exists>J. (J = {} \<or> (\<exists>j. J = {j}) \<and> \<not> start \<and> P (fst p)) \<and>
          (\<forall>i < length (snd p). keeps (\<lambda>_. True) (once_true P) (\<lambda>_. True) (snd p ! i) \<and>
             (i \<in> J \<or> earns P (won i) (snd p ! i))))"

lemma one_earner_turn:
  assumes "turn p q" "one_earner P won start p"
  shows "one_earner P won start q"
  using assms
proof (induction rule: turn.induct)
  case (1 i ts f k s)
  then obtain J where J: "J = {} \<or> (\<exists>j. J = {j}) \<and> \<not> start \<and> P s"
    and all: "\<And>j. j < length ts \<Longrightarrow> keeps (\<lambda>_. True) (once_true P) (\<lambda>_. True) (ts ! j) \<and> (j \<in> J \<or> earns P (won j) (ts ! j))"
    and start: "start \<longrightarrow> P s"
    by (auto simp: one_earner_def)
  have step: "P s \<longrightarrow> P (f s)" "keeps (\<lambda>_. True) (once_true P) (\<lambda>_. True) (k s)"
    using all [OF 1(1)] 1(2) by (auto simp: moves_def)
  have "i \<in> J \<or> earns P (won i) (k s) \<or> \<not> P s \<and> P (f s)" using all [OF 1(1)] 1(2) by auto
  then consider "i \<in> J \<or> earns P (won i) (k s)" | "\<not> P s" "P (f s)" by blast
  then show ?case
  proof cases
    case 1
    then have "keeps (\<lambda>_. True) (once_true P) (\<lambda>_. True) (ts[i := k s] ! j) \<and> (j \<in> J \<or> earns P (won j) (ts[i := k s] ! j))"
      if "j < length ts" for j
      using all [OF that] step(2) that by (cases "j = i") auto
    with J step(1) start show ?thesis
      unfolding one_earner_def by (intro conjI exI [of _ J]) auto
  next
    case 2
    with J have "J = {}" by simp
    have "keeps (\<lambda>_. True) (once_true P) (\<lambda>_. True) (ts[i := k s] ! j) \<and> (j \<in> {i} \<or> earns P (won j) (ts[i := k s] ! j))"
      if "j < length ts" for j
      using all [OF that] step(2) that \<open>J = {}\<close> by (cases "j = i") auto
    with 2 start show ?thesis
      unfolding one_earner_def by (intro conjI exI [of _ "{i}"]) auto
  qed
qed

text \<open>A winner made \<open>P\<close> true, and there is only one.\<close>

lemma one_winner:
  assumes "turn\<^sup>*\<^sup>* (s, ts) (s', ts')"
    and "\<And>i. i < length ts \<Longrightarrow> keeps (\<lambda>_. True) (once_true P) (\<lambda>_. True) (ts ! i) \<and> earns P (won i) (ts ! i)"
    and "i < length ts'" "ts' ! i = Return r" "won i r"
  shows "\<not> P s" "P s'" "j < length ts' \<Longrightarrow> ts' ! j = Return r' \<Longrightarrow> won j r' \<Longrightarrow> j = i"
proof -
  have "one_earner P won (P s) (s, ts)" using assms(2) by (auto simp: one_earner_def)
  with assms(1) have "one_earner P won (P s) (s', ts')"
    by (induction rule: rtranclp_induct) (auto intro: one_earner_turn)
  then obtain J where J: "J = {} \<or> (\<exists>j. J = {j}) \<and> \<not> P s \<and> P s'"
    and all: "\<And>j. j < length ts' \<Longrightarrow> j \<in> J \<or> earns P (won j) (ts' ! j)" by (auto simp: one_earner_def)
  have "i \<in> J" using all [OF assms(3)] assms(4,5) by simp
  with J show "\<not> P s" "P s'" by auto
  show "j = i" if "j < length ts'" "ts' ! j = Return r'" "won j r'"
    using all [OF that(1)] that(2,3) J \<open>i \<in> J\<close> by auto
qed

subsection \<open>Rely and guarantee\<close>

text \<open>While the others change the state by \<open>R\<close> only, every step of the thread is a \<open>G\<close>, and the
  answer satisfies \<open>Q\<close> in the state the others leave.\<close>

primrec sat :: "('s \<Rightarrow> 's \<Rightarrow> bool) \<Rightarrow> ('s \<Rightarrow> 's \<Rightarrow> bool) \<Rightarrow> ('r \<Rightarrow> 's \<Rightarrow> bool) \<Rightarrow> ('r, 's) thread \<Rightarrow> 's \<Rightarrow> bool" where
  "sat R G Q (Return r) s \<longleftrightarrow> (\<forall>s'. R\<^sup>*\<^sup>* s s' \<longrightarrow> Q r s')"
| "sat R G Q (Step f k) s \<longleftrightarrow> (\<forall>s'. R\<^sup>*\<^sup>* s s' \<longrightarrow> G s' (f s') \<and> sat R G Q (k s') (f s'))"

definition others :: "(nat \<Rightarrow> 's \<Rightarrow> 's \<Rightarrow> bool) \<Rightarrow> nat \<Rightarrow> 's \<Rightarrow> 's \<Rightarrow> bool" where
  "others G i s s' \<longleftrightarrow> (\<exists>j. j \<noteq> i \<and> G j s s')"

lemma sat_stable: "sat R G Q t s \<Longrightarrow> R\<^sup>*\<^sup>* s s' \<Longrightarrow> sat R G Q t s'"
  by (cases t) (auto intro: rtranclp_trans)

lemma sat_now: "sat R G Q (Step f k) s \<Longrightarrow> G s (f s) \<and> sat R G Q (k s) (f s)"
  by auto

lemma sat_other_step:
  assumes "sat (others G i) (G i) P (Step f k) s" "i \<noteq> j" "sat (others G j) H Q t s"
  shows "sat (others G j) H Q t (f s)"
proof -
  have "G i s (f s)" using sat_now [OF assms(1)] by simp
  with assms(2) have "others G j s (f s)" by (auto simp: others_def)
  then have "(others G j)\<^sup>*\<^sup>* s (f s)" by (rule r_into_rtranclp)
  with assms(3) show ?thesis by (rule sat_stable)
qed

definition some_step :: "(nat \<Rightarrow> 's \<Rightarrow> 's \<Rightarrow> bool) \<Rightarrow> 's \<Rightarrow> 's \<Rightarrow> bool" where
  "some_step G s s' \<longleftrightarrow> (\<exists>i. G i s s')"

text \<open>Every state of the pool is reached from the first one by steps that the threads guarantee.\<close>

interpretation rely_guarantee:
  stepwise "\<lambda>i. sat (others G i) (G i) (Q i)" "(some_step G)\<^sup>*\<^sup>* s0" for G Q s0
proof (unfold_locales, goal_cases)
  case (1 s i f k)
  from sat_now [OF 1(2)] have "some_step G s (f s)" "sat (others G i) (G i) (Q i) (k s) (f s)"
    by (auto simp: some_step_def)
  with 1(1) show ?case by (simp add: rtranclp.rtrancl_into_rtrancl)
next
  case (2 s i f k j t)
  from sat_other_step [OF 2(2-4)] show ?case .
qed

lemma sat_weaken:
  assumes "sat R G Q t s" "\<And>s s'. R' s s' \<Longrightarrow> R s s'" "\<And>s s'. G s s' \<Longrightarrow> G' s s'" "\<And>r s. Q r s \<Longrightarrow> Q' r s"
  shows "sat R' G' Q' t s"
proof -
  have "R'\<^sup>*\<^sup>* s s' \<Longrightarrow> R\<^sup>*\<^sup>* s s'" for s s' using assms(2) by (rule mono_rtranclp [rule_format])
  with assms(1) show ?thesis by (induction t arbitrary: s) (auto simp: assms(3,4))
qed

lemma sat_bind:
  assumes "sat R G P t s" "\<And>x s. P x s \<Longrightarrow> sat R G Q (k x) s"
  shows "sat R G Q (bind_thread t k) s"
  using assms(1) by (induction t arbitrary: s) (auto intro: assms(2))

lemma sat_Return: "Q r s \<Longrightarrow> (\<And>s s'. Q r s \<Longrightarrow> R s s' \<Longrightarrow> Q r s') \<Longrightarrow> sat R G Q (Return r) s"
proof -
  assume q: "Q r s" and stable: "\<And>s s'. Q r s \<Longrightarrow> R s s' \<Longrightarrow> Q r s'"
  have "R\<^sup>*\<^sup>* s s' \<Longrightarrow> Q r s'" for s' by (induction rule: rtranclp_induct) (auto intro: q stable)
  then show ?thesis by simp
qed

lemma sat_atom:
  assumes "P s" "\<And>s s'. P s \<Longrightarrow> R s s' \<Longrightarrow> P s'"
    and "\<And>s. P s \<Longrightarrow> G s (snd (f s)) \<and> Q (fst (f s)) (snd (f s))"
    and "\<And>r s s'. Q r s \<Longrightarrow> R s s' \<Longrightarrow> Q r s'"
  shows "sat R G Q (atom f) s"
proof -
  have p: "R\<^sup>*\<^sup>* s s' \<Longrightarrow> P s'" for s' by (induction rule: rtranclp_induct) (auto intro: assms(1,2))
  have "sat R G Q (Return (fst (f s'))) (snd (f s'))" if "R\<^sup>*\<^sup>* s s'" for s'
    using assms(3) [OF p [OF that]] assms(4) by (intro sat_Return) auto
  with assms(3) [OF p] show ?thesis by (simp add: atom_def)
qed

lemma sat_map: "sat R G P t s \<Longrightarrow> (\<And>x s. P x s \<Longrightarrow> sat R G Q (Return (h x)) s) \<Longrightarrow> sat R G Q (map_thread_result h t) s"
  unfolding map_thread_result_def by (rule sat_bind)

lemma sat_map_any: "sat R G (\<lambda>_ _. True) t s \<Longrightarrow> sat R G (\<lambda>_ _. True) (map_thread_result h t) s"
  by (erule sat_map) simp

text \<open>A thread that keeps an invariant the others keep too.\<close>

lemma keeps_sat:
  assumes "keeps I G q t" "I s" "\<And>s s'. I s \<Longrightarrow> R s s' \<Longrightarrow> I s'"
    and "\<And>s s'. I s \<Longrightarrow> moves I G s s' \<Longrightarrow> H s s'"
  shows "sat R H (\<lambda>r s. I s \<and> q r) t s"
proof -
  have stable: "R\<^sup>*\<^sup>* s s' \<Longrightarrow> I s \<Longrightarrow> I s'" for s s'
    by (induction rule: rtranclp_induct) (auto intro: assms(3))
  from assms(1,2) show ?thesis
  proof (induction t arbitrary: s)
    case (Step f k)
    then show ?case using stable assms(4) by (auto simp: moves_def)
  qed (use stable in auto)
qed

lemma keeps_strengthen:
  assumes "\<And>s s'. A s \<Longrightarrow> G s s' \<Longrightarrow> A s'"
  shows "keeps I G q t \<Longrightarrow> keeps (\<lambda>s. I s \<and> A s) G q t"
  by (induction t) (auto simp: moves_def intro: assms)

lemma sat_zoom:
  assumes "sat R G Q t (get s)" "\<And>s s'. R' s s' \<Longrightarrow> R (get s) (get s')"
    "\<And>s x. G (get s) x \<Longrightarrow> G' s (put x s)" "\<And>x s. get (put x s) = x"
  shows "sat R' G' (\<lambda>r s. Q r (get s)) (zoom get put t) s"
proof -
  have sim: "R'\<^sup>*\<^sup>* s s' \<Longrightarrow> R\<^sup>*\<^sup>* (get s) (get s')" for s s'
    by (induction rule: rtranclp_induct) (auto intro: rtranclp.rtrancl_into_rtrancl assms(2))
  from assms(1) show ?thesis
  proof (induction t arbitrary: s)
    case (Step f k)
    then show ?case using sim assms(3,4) by auto
  qed (use sim in auto)
qed

end
