(* ===== verification/Locks.thy ===== *)
theory Locks
  imports Threads
begin

text \<open>
  Goroutines that share data behind one \<open>sync.RWMutex\<close>. The code of a goroutine is a tree of
  accesses to the guarded data, steps outside the guarded data and calls of the mutex, so that a
  missing \<open>Unlock\<close> and an access without the lock can be written down. Two facts hold for all code
  that is \<open>balanced\<close>: it never blocks for good, and what it does between \<open>Lock\<close> and \<open>Unlock\<close> is
  one step of the threads of \<open>Threads\<close>.
\<close>

section \<open>The mutex\<close>

text \<open>
  \<open>Lock\<close> first claims the mutex, which shuts out later readers and writers, and then waits for the
  readers to leave; \<open>RLock\<close> waits while the mutex is claimed. So a pending writer blocks new readers,
  as the documentation of \<open>RWMutex\<close> says, and a goroutine that locks twice may wait for itself.
  An \<open>Unlock\<close> of a mutex that is not locked is a fatal error of the runtime: no step.
\<close>

record rw_mutex =
  readers :: nat
  claimed :: bool

definition free_mutex :: rw_mutex where
  "free_mutex = \<lparr>readers = 0, claimed = False\<rparr>"

datatype ('r, 'p, 'q) code =
    Done 'r
  | Outside "'q \<Rightarrow> 'q" "'q \<Rightarrow> ('r, 'p, 'q) code"
  | Access "'p \<Rightarrow> 'p" "'p \<Rightarrow> ('r, 'p, 'q) code"
  | RLock "('r, 'p, 'q) code"
  | RUnlock "('r, 'p, 'q) code"
  | Claim "('r, 'p, 'q) code"
  | Await "('r, 'p, 'q) code"
  | Unlock "('r, 'p, 'q) code"

abbreviation Lock :: "('r, 'p, 'q) code \<Rightarrow> ('r, 'p, 'q) code" where
  "Lock c \<equiv> Claim (Await c)"

type_synonym ('p, 'q) memory = "rw_mutex \<times> 'p \<times> 'q"

fun advance :: "('r, 'p, 'q) code \<Rightarrow> ('p, 'q) memory \<Rightarrow> (('r, 'p, 'q) code \<times> ('p, 'q) memory) option" where
  "advance (Done r) (m, x, y) = None"
| "advance (Outside f k) (m, x, y) = Some (k y, m, x, f y)"
| "advance (Access f k) (m, x, y) = Some (k x, m, f x, y)"
| "advance (RLock c) (m, x, y) = (if claimed m then None else Some (c, m\<lparr>readers := Suc (readers m)\<rparr>, x, y))"
| "advance (RUnlock c) (m, x, y) = (if readers m = 0 then None else Some (c, m\<lparr>readers := readers m - 1\<rparr>, x, y))"
| "advance (Claim c) (m, x, y) = (if claimed m then None else Some (c, m\<lparr>claimed := True\<rparr>, x, y))"
| "advance (Await c) (m, x, y) = (if readers m = 0 then Some (c, m, x, y) else None)"
| "advance (Unlock c) (m, x, y) = (if claimed m then Some (c, m\<lparr>claimed := False\<rparr>, x, y) else None)"

inductive lturn ::
  "('p, 'q) memory \<times> ('r, 'p, 'q) code list \<Rightarrow> ('p, 'q) memory \<times> ('r, 'p, 'q) code list \<Rightarrow> bool" where
  "i < length cs \<Longrightarrow> advance (cs ! i) M = Some (c, M') \<Longrightarrow> lturn (M, cs) (M', cs[i := c])"

inductive_cases lturnE: "lturn (M, cs) p"

lemma done_rests: "\<nexists>q. lturn (M, map Done rs) q"
proof
  assume "\<exists>q. lturn (M, map Done rs) q"
  then obtain q where "lturn (M, map Done rs) q" ..
  then show False by (rule lturnE) (cases M, simp)
qed

section \<open>Every execution ends\<close>

definition next_code :: "(('r, 'p, 'q) code \<times> ('r, 'p, 'q) code) set" where
  "next_code = {(c', c). \<exists>M M'. advance c M = Some (c', M')}"

lemma wf_next_code: "wf next_code"
proof (rule wfUNIVI)
  fix P :: "('r, 'p, 'q) code \<Rightarrow> bool" and c
  assume "\<forall>c. (\<forall>c'. (c', c) \<in> next_code \<longrightarrow> P c') \<longrightarrow> P c"
  then have step: "P c" if "\<And>c' M M'. advance c M = Some (c', M') \<Longrightarrow> P c'" for c
    using that unfolding next_code_def by blast
  show "P c"
    by (induction c) (rule step, auto split: if_splits)+
qed

lemma lturn_next: "lturn p q \<Longrightarrow> (snd q, snd p) \<in> listrel1 next_code"
proof (induction rule: lturn.induct)
  case (1 i cs M c M')
  then have "(c, cs ! i) \<in> next_code" unfolding next_code_def by blast
  with 1(1) show ?case unfolding listrel1_iff_update by (intro exI [of _ "cs ! i"] exI [of _ i]) simp
qed

lemma no_endless_execution: "\<not> (\<exists>f. \<forall>n. lturn (f n) (f (Suc n)))"
proof
  assume "\<exists>f :: nat \<Rightarrow> ('a, 'b) memory \<times> ('c, 'a, 'b) code list. \<forall>n. lturn (f n) (f (Suc n))"
  then obtain f :: "nat \<Rightarrow> ('a, 'b) memory \<times> ('c, 'a, 'b) code list" where "\<forall>n. lturn (f n) (f (Suc n))" by blast
  then have chain: "(snd (f (Suc n)), snd (f n)) \<in> listrel1 next_code" for n using lturn_next by blast
  have "wf (listrel1 (next_code :: (('c, 'a, 'b) code \<times> ('c, 'a, 'b) code) set))"
    by (simp add: wf_listrel1_iff wf_next_code)
  then have "\<not> (\<forall>n. ((\<lambda>n. snd (f n)) (Suc n), (\<lambda>n. snd (f n)) n) \<in> listrel1 next_code)"
    unfolding wf_iff_no_infinite_down_chain by meson
  with chain show False by simp
qed

lemma lturns_length: "lturn\<^sup>*\<^sup>* (M, cs) (M', cs') \<Longrightarrow> length cs' = length cs"
  by (induction rule: rtranclp_induct2) (auto elim: lturnE)

lemma reaches_rest: "\<exists>q. lturn\<^sup>*\<^sup>* p q \<and> (\<nexists>r. lturn q r)"
proof (rule ccontr)
  assume *: "\<not> ?thesis"
  define f where "f = rec_nat p (\<lambda>_ q. SOME r. lturn q r)"
  have f: "f 0 = p" "f (Suc n) = (SOME r. lturn (f n) r)" for n by (simp_all add: f_def)
  have "lturn\<^sup>*\<^sup>* p (f n) \<and> lturn (f n) (f (Suc n))" for n
  proof (induction n)
    case 0
    have "\<exists>r. lturn p r" using * by blast
    then show ?case by (simp add: f someI_ex)
  next
    case (Suc n)
    then have "lturn\<^sup>*\<^sup>* p (f (Suc n))" by (blast intro: rtranclp.rtrancl_into_rtrancl)
    moreover from this have "\<exists>r. lturn (f (Suc n)) r" using * by blast
    ultimately show ?case unfolding f(2) [of "Suc n"] by (blast intro: someI_ex)
  qed
  then show False using no_endless_execution by blast
qed

section \<open>Balanced code\<close>

datatype mode = Free | Reading | Waiting | Writing

text \<open>No lock is taken while one is held, none is kept, the guarded data are accessed only under the
  lock and written only under \<open>Lock\<close>, and nothing else happens under it.\<close>

primrec balanced :: "('r, 'p, 'q) code \<Rightarrow> mode \<Rightarrow> bool" where
  "balanced (Done r) m \<longleftrightarrow> m = Free"
| "balanced (Outside f k) m \<longleftrightarrow> m = Free \<and> (\<forall>y. balanced (k y) Free)"
| "balanced (Access f k) m \<longleftrightarrow> (m = Writing \<or> m = Reading \<and> (\<forall>x. f x = x)) \<and> (\<forall>x. balanced (k x) m)"
| "balanced (RLock c) m \<longleftrightarrow> m = Free \<and> balanced c Reading"
| "balanced (RUnlock c) m \<longleftrightarrow> m = Reading \<and> balanced c Free"
| "balanced (Claim c) m \<longleftrightarrow> m = Free \<and> balanced c Waiting"
| "balanced (Await c) m \<longleftrightarrow> m = Waiting \<and> balanced c Writing"
| "balanced (Unlock c) m \<longleftrightarrow> m = Writing \<and> balanced c Free"

primrec mode_after :: "('r, 'p, 'q) code \<Rightarrow> mode \<Rightarrow> mode" where
  "mode_after (Done r) m = m"
| "mode_after (Outside f k) m = m"
| "mode_after (Access f k) m = m"
| "mode_after (RLock c) m = Reading"
| "mode_after (RUnlock c) m = Free"
| "mode_after (Claim c) m = Waiting"
| "mode_after (Await c) m = Writing"
| "mode_after (Unlock c) m = Free"

definition guarded :: "rw_mutex \<Rightarrow> mode list \<Rightarrow> ('r, 'p, 'q) code list \<Rightarrow> bool" where
  "guarded m ms cs \<longleftrightarrow> length ms = length cs \<and> (\<forall>i < length cs. balanced (cs ! i) (ms ! i)) \<and>
     readers m = count_list ms Reading \<and>
     count_list ms Waiting + count_list ms Writing = (if claimed m then 1 else 0) \<and>
     (count_list ms Writing = 0 \<or> readers m = 0)"

lemma count_list_swap:
  "i < length xs \<Longrightarrow> count_list (xs[i := x]) y + (if xs ! i = y then 1 else 0) = count_list xs y + (if x = y then 1 else 0)"
proof (induction xs arbitrary: i)
  case (Cons a xs)
  then show ?case by (cases i) (auto, fastforce+)
qed simp

lemma count_pos: "i < length xs \<Longrightarrow> 0 < count_list xs (xs ! i)"
  by (metis count_list_0_iff nth_mem neq0_conv)

lemma in_set_count: "x \<in> set xs \<longleftrightarrow> count_list xs x \<noteq> 0"
  by (simp add: count_list_0_iff)

lemma guarded_modes:
  assumes "guarded m ms cs"
  shows "readers m = count_list ms Reading" "claimed m \<longleftrightarrow> Waiting \<in> set ms \<or> Writing \<in> set ms"
    "Writing \<in> set ms \<Longrightarrow> readers m = 0"
  using assms by (auto simp: guarded_def in_set_count split: if_splits)

text \<open>Who is in a critical section with whom.\<close>

lemma guarded_alone:
  assumes "guarded m ms cs" "i < length ms"
  shows "ms ! i = Reading \<Longrightarrow> Writing \<notin> set ms" "ms ! i = Waiting \<Longrightarrow> Writing \<notin> set ms"
    "ms ! i = Writing \<Longrightarrow> j < length ms \<Longrightarrow> j \<noteq> i \<Longrightarrow> ms ! j \<in> {Free, Waiting}"
proof -
  note modes = guarded_modes [OF assms(1)]
  have in_ms: "ms ! i \<in> set ms" using assms(2) by simp
  show "ms ! i = Reading \<Longrightarrow> Writing \<notin> set ms" using modes in_ms by (auto simp: in_set_count)
  have one: "count_list ms Waiting + count_list ms Writing \<le> 1" using assms(1) by (simp add: guarded_def)
  show "ms ! i = Waiting \<Longrightarrow> Writing \<notin> set ms" using one in_ms by (auto simp: in_set_count)
  show "ms ! j \<in> {Free, Waiting}" if w: "ms ! i = Writing" "j < length ms" "j \<noteq> i"
  proof -
    have "ms ! j \<noteq> Reading" using modes(1,3) in_ms w nth_mem [of j ms] by (auto simp: in_set_count)
    moreover have "count_list (ms[i := Free]) Writing = 0"
      using count_list_swap [OF assms(2), of Free Writing] one w(1) by simp
    then have "ms[i := Free] ! j \<noteq> Writing" using w(2) by (metis count_list_0_iff length_list_update nth_mem)
    ultimately show ?thesis using w(2,3) by (cases "ms ! j") auto
  qed
qed

lemma guarded_start:
  assumes "\<And>c. c \<in> set cs \<Longrightarrow> balanced c Free"
  shows "guarded free_mutex (replicate (length cs) Free) cs"
proof -
  have "count_list (replicate n Free) m = 0" if "m \<noteq> Free" for m n using that by (induction n) auto
  then show ?thesis using assms by (auto simp: guarded_def free_mutex_def)
qed

lemma advance_balanced: "advance c (m, x, y) = Some (c', M') \<Longrightarrow> balanced c b \<Longrightarrow> balanced c' (mode_after c b)"
  by (cases c) (auto split: if_splits)

lemma guarded_advance:
  assumes "guarded m ms cs" "i < length cs" "advance (cs ! i) (m, x, y) = Some (c, m', x', y')"
  shows "guarded m' (ms[i := mode_after (cs ! i) (ms ! i)]) (cs[i := c])"
proof -
  have i: "i < length ms" and bal: "balanced (cs ! i) (ms ! i)" using assms(1,2) by (auto simp: guarded_def)
  have "balanced c (mode_after (cs ! i) (ms ! i))" by (rule advance_balanced [OF assms(3) bal])
  with assms(1,2) have all: "\<forall>j < length (cs[i := c]). balanced (cs[i := c] ! j) (ms[i := mode_after (cs ! i) (ms ! i)] ! j)"
    by (auto simp: guarded_def nth_list_update)
  note counts = count_list_swap [OF i, of "mode_after (cs ! i) (ms ! i)"]
  note old = assms(1) [unfolded guarded_def]
  show ?thesis
  proof (cases "cs ! i")
    case (Outside f k)
    with bal have "ms[i := mode_after (cs ! i) (ms ! i)] = ms" by (metis list_update_id mode_after.simps(2))
    with Outside assms(3) old all show ?thesis by (auto simp: guarded_def)
  next
    case (Access f k)
    with assms(3) old bal all show ?thesis by (auto simp: guarded_def)
  next
    case (RLock c1)
    with assms(3) old bal all counts [of Reading] counts [of Waiting] counts [of Writing] show ?thesis
      by (auto simp: guarded_def split: if_splits)
  next
    case (RUnlock c1)
    with assms(3) old bal all counts [of Reading] counts [of Waiting] counts [of Writing] show ?thesis
      by (auto simp: guarded_def split: if_splits)
  next
    case (Claim c1)
    with assms(3) old bal all counts [of Reading] counts [of Waiting] counts [of Writing] show ?thesis
      by (auto simp: guarded_def split: if_splits)
  next
    case (Await c1)
    with assms(3) old bal all counts [of Reading] counts [of Waiting] counts [of Writing] show ?thesis
      by (auto simp: guarded_def split: if_splits)
  next
    case (Unlock c1)
    with assms(3) old bal all counts [of Reading] counts [of Waiting] counts [of Writing] show ?thesis
      by (auto simp: guarded_def split: if_splits)
  qed (use assms(3) in simp)
qed

section \<open>Nobody blocks for good\<close>

text \<open>What code in a given mode needs for its next step.\<close>

lemma may_advance:
  "balanced c Writing \<Longrightarrow> claimed m \<Longrightarrow> advance c (m, x, y) \<noteq> None"
  "balanced c Reading \<Longrightarrow> readers m \<noteq> 0 \<Longrightarrow> advance c (m, x, y) \<noteq> None"
  "balanced c Waiting \<Longrightarrow> readers m = 0 \<Longrightarrow> advance c (m, x, y) \<noteq> None"
  "balanced c Free \<Longrightarrow> \<not> claimed m \<Longrightarrow> (\<nexists>r. c = Done r) \<Longrightarrow> advance c (m, x, y) \<noteq> None"
  by (cases c; simp)+

lemma guarded_progress:
  assumes "guarded m ms cs" "i < length cs" "\<nexists>r. cs ! i = Done r"
  shows "\<exists>q. lturn ((m, x, y), cs) q"
proof -
  have bal: "balanced (cs ! j) (ms ! j)" if "j < length cs" for j using assms(1) that by (auto simp: guarded_def)
  have turn: "\<exists>q. lturn ((m, x, y), cs) q" if "j < length cs" "advance (cs ! j) (m, x, y) \<noteq> None" for j
  proof -
    from that(2) obtain c M' where "advance (cs ! j) (m, x, y) = Some (c, M')" by (metis not_None_eq surj_pair)
    from lturn.intros [OF that(1) this] show ?thesis ..
  qed
  have len: "length ms = length cs" using assms(1) by (simp add: guarded_def)
  note counts = guarded_modes [OF assms(1)]
  have find: "\<exists>j < length cs. ms ! j = d \<and> balanced (cs ! j) d" if "d \<in> set ms" for d
    using that bal len by (metis in_set_conv_nth)
  consider (writing) "Writing \<in> set ms" | (reading) "Reading \<in> set ms"
    | (waiting) "Waiting \<in> set ms" "Reading \<notin> set ms" | (free) "set ms \<subseteq> {Free}"
  proof -
    have "d = Free" if "d \<in> set ms" "Writing \<notin> set ms" "Reading \<notin> set ms" "Waiting \<notin> set ms" for d
      by (rule mode.exhaust [of d]) (use that in auto)
    then show thesis using writing reading waiting free by blast
  qed
  then show ?thesis
  proof cases
    case writing
    then obtain j where "j < length cs" "balanced (cs ! j) Writing" using find by blast
    moreover from writing counts(2) have "claimed m" by simp
    ultimately show ?thesis by (intro turn [of j] may_advance)
  next
    case reading
    then obtain j where "j < length cs" "balanced (cs ! j) Reading" using find by blast
    moreover from reading counts(1) have "readers m \<noteq> 0" by (simp add: in_set_count)
    ultimately show ?thesis by (intro turn [of j] may_advance)
  next
    case waiting
    then obtain j where "j < length cs" "balanced (cs ! j) Waiting" using find by blast
    moreover from waiting counts(1) have "readers m = 0" by (simp add: count_list_0_iff)
    ultimately show ?thesis by (intro turn [of j] may_advance)
  next
    case free
    then have "\<not> claimed m" using counts(2) by auto
    moreover have "ms ! i \<in> set ms" using assms(2) len by simp
    then have "balanced (cs ! i) Free" using free bal [OF assms(2)] by auto
    ultimately show ?thesis using assms(2,3) by (intro turn [of i] may_advance)
  qed
qed

section \<open>A critical section is one step\<close>

text \<open>\<open>outside\<close> is the thread of code that holds no lock, \<open>inside\<close> what is left of a critical section:
  the guarded data at its end and the thread after it.\<close>

definition section_step :: "('p \<Rightarrow> 'p \<times> ('r, 'p \<times> 'q) thread) \<Rightarrow> ('r, 'p \<times> 'q) thread" where
  "section_step g = Step (\<lambda>(x, y). (fst (g x), y)) (\<lambda>(x, y). snd (g x))"

primrec cut :: "('r, 'p, 'q) code \<Rightarrow> ('r, 'p \<times> 'q) thread \<times> ('p \<Rightarrow> 'p \<times> ('r, 'p \<times> 'q) thread)" where
  "cut (Done r) = (Return r, \<lambda>x. (x, Return r))"
| "cut (Outside f k) =
     (Step (\<lambda>(x, y). (x, f y)) (\<lambda>(x, y). fst (cut (k y))),
      \<lambda>x. (x, Step (\<lambda>(x, y). (x, f y)) (\<lambda>(x, y). fst (cut (k y)))))"
| "cut (Access f k) =
     (Step (\<lambda>(x, y). (f x, y)) (\<lambda>(x, y). fst (cut (k x))), \<lambda>x. snd (cut (k x)) (f x))"
| "cut (RLock c) = (section_step (snd (cut c)), \<lambda>x. (x, section_step (snd (cut c))))"
| "cut (RUnlock c) = (fst (cut c), \<lambda>x. (x, fst (cut c)))"
| "cut (Claim c) = (section_step (snd (cut c)), \<lambda>x. (x, section_step (snd (cut c))))"
| "cut (Await c) = (section_step (snd (cut c)), snd (cut c))"
| "cut (Unlock c) = (fst (cut c), \<lambda>x. (x, fst (cut c)))"

abbreviation outside :: "('r, 'p, 'q) code \<Rightarrow> ('r, 'p \<times> 'q) thread" where
  "outside c \<equiv> fst (cut c)"

abbreviation inside :: "('r, 'p, 'q) code \<Rightarrow> 'p \<Rightarrow> 'p \<times> ('r, 'p \<times> 'q) thread" where
  "inside c \<equiv> snd (cut c)"

text \<open>The thread still stands before its critical section while the code is in it.\<close>

fun stands :: "mode \<Rightarrow> ('r, 'p, 'q) code \<Rightarrow> 'p \<Rightarrow> 'p \<Rightarrow> ('r, 'p \<times> 'q) thread \<Rightarrow> bool" where
  "stands Free c x a t \<longleftrightarrow> t = outside c"
| "stands Waiting c x a t \<longleftrightarrow> t = section_step (inside c)"
| "stands _ c x a t \<longleftrightarrow> (\<exists>c0 :: ('r, 'p, 'q) code. t = section_step (inside c0) \<and> inside c x = inside c0 a)"

definition simulates ::
  "mode list \<Rightarrow> ('p, 'q) memory \<Rightarrow> ('r, 'p, 'q) code list \<Rightarrow> 'p \<times> 'q \<Rightarrow> ('r, 'p \<times> 'q) thread list \<Rightarrow> bool" where
  "simulates ms M cs A ts \<longleftrightarrow> (case (M, A) of ((m, x, y), (a, b)) \<Rightarrow>
     guarded m ms cs \<and> b = y \<and> (a = x \<or> Writing \<in> set ms) \<and> length ts = length cs \<and>
     (\<forall>i < length cs. stands (ms ! i) (cs ! i) x a (ts ! i)))"

lemma simulates_update:
  assumes "simulates ms (m, x, y) cs (a, b) ts" "guarded m' (ms[i := d]) (cs[i := c])" "i < length cs"
    and "stands d c x' a' t" "a' = x' \<or> Writing \<in> set (ms[i := d])"
    and "\<And>j. j < length cs \<Longrightarrow> j \<noteq> i \<Longrightarrow> x' = x \<and> a' = a \<or> ms ! j \<in> {Free, Waiting}"
  shows "simulates (ms[i := d]) (m', x', y') (cs[i := c]) (a', y') (ts[i := t])"
proof -
  have "stands (ms[i := d] ! j) (cs[i := c] ! j) x' a' (ts[i := t] ! j)" if "j < length cs" for j
  proof (cases "j = i")
    case True
    with assms that show ?thesis by (simp add: simulates_def guarded_def)
  next
    case False
    from assms(1) that have "stands (ms ! j) (cs ! j) x a (ts ! j)" by (simp add: simulates_def)
    with assms(6) [OF that False] False show ?thesis by auto
  qed
  with assms show ?thesis by (simp add: simulates_def)
qed

lemma stays: "\<exists>A' us'. turn\<^sup>*\<^sup>* (A, us) (A', us') \<and> P A' us'" if "P A us"
  using that by blast

lemma simulates_turn:
  assumes "simulates ms M cs A ts" "lturn (M, cs) (M', cs')"
  shows "\<exists>A' ts'. turn\<^sup>*\<^sup>* (A, ts) (A', ts') \<and> (\<exists>ms'. simulates ms' M' cs' A' ts')"
proof -
  obtain m x y where M: "M = (m, x, y)" by (cases M)
  obtain a where A: "A = (a, y)" using assms(1) by (cases A) (auto simp: simulates_def M)
  from assms(2) obtain i c m' x' y' where i: "i < length cs" "advance (cs ! i) (m, x, y) = Some (c, m', x', y')"
    and next_: "M' = (m', x', y')" "cs' = cs[i := c]"
    by (auto elim!: lturnE simp: M)
  let ?d = "mode_after (cs ! i) (ms ! i)"
  note sim = assms(1) [unfolded M A]
  have g: "guarded m ms cs" and len: "length ms = length cs" "length ts = length cs"
    and here: "stands (ms ! i) (cs ! i) x a (ts ! i)" and same: "Writing \<notin> set ms \<Longrightarrow> a = x"
    using sim i(1) by (auto simp: simulates_def guarded_def)
  have bal: "balanced (cs ! i) (ms ! i)" using g i(1) by (simp add: guarded_def)
  have g': "guarded m' (ms[i := ?d]) (cs[i := c])" by (rule guarded_advance [OF g i])
  note alone = guarded_alone [OF g, of i, unfolded len, OF i(1)]
  have step: "turn\<^sup>*\<^sup>* ((a, y), ts) (f (a, y), ts[i := k (a, y)])" if "ts ! i = Step f k" for f k
    using turn.intros [of i ts f k "(a, y)"] that i(1) len by auto
  have writes: "Writing \<in> set (ms[i := Writing])" using i(1) len by (simp add: set_update_memI)
  note update = simulates_update [OF sim g' i(1)]
  have stutter: ?thesis
    if "stands ?d c x' a (ts ! i)" "a = x' \<or> Writing \<in> set (ms[i := ?d])" "y' = y"
      "\<And>j. j < length cs \<Longrightarrow> j \<noteq> i \<Longrightarrow> x' = x \<or> ms ! j \<in> {Free, Waiting}"
    using update [of x' a "ts ! i" y] that unfolding next_ A by auto
  have leave: ?thesis
    if "ts ! i = section_step (inside c0)" "inside c0 a = (x', outside c)" "?d = Free" "y' = y"
      "\<And>j. j < length cs \<Longrightarrow> j \<noteq> i \<Longrightarrow> x' = x \<and> a = x \<or> ms ! j \<in> {Free, Waiting}" for c0 :: "('c, 'a, 'b) code"
  proof -
    have "simulates (ms[i := ?d]) M' cs' (x', y') (ts[i := outside c])"
      unfolding next_ using that(3,5) by (intro update) auto
    moreover have "turn\<^sup>*\<^sup>* (A, ts) ((x', y'), ts[i := outside c])"
      using step [OF that(1) [unfolded section_step_def]] that(2,4) by (simp add: A)
    ultimately show ?thesis by blast
  qed
  show ?thesis
  proof (cases "cs ! i")
    case (Outside f k)
    then have unmoved: "ms[i := Free] = ms" using bal by (metis balanced.simps(2) list_update_id)
    from Outside have "ts ! i = Step (\<lambda>(x, y). (x, f y)) (\<lambda>(x, y). outside (k y))" using here bal by simp
    then have "turn\<^sup>*\<^sup>* (A, ts) ((a, y'), ts[i := outside c])" using step Outside i(2) by (auto simp: A)
    moreover have "simulates (ms[i := ?d]) M' cs' (a, y') (ts[i := outside c])"
      unfolding next_ using Outside i(2) bal sim
      by (intro update) (auto simp: simulates_def unmoved)
    ultimately show ?thesis by blast
  next
    case (Access f k)
    show ?thesis
    proof (cases "ms ! i")
      case Writing
      with Access here i(2) alone(3) writes show ?thesis by (intro stutter) auto
    next
      case Reading
      with Access here i(2) bal alone(1) same show ?thesis by (intro stutter) auto
    qed (use bal Access in auto)
  next
    case (RLock c1)
    then have "\<not> claimed m" using i(2) by (auto split: if_splits)
    then have "a = x" using guarded_modes(2) [OF g] same by blast
    with RLock here bal i(2) show ?thesis by (intro stutter) (auto split: if_splits)
  next
    case (RUnlock c1)
    then have "ms ! i = Reading" using bal by simp
    with alone(1) same have "a = x" by simp
    from here RUnlock \<open>ms ! i = Reading\<close> obtain c0 :: "('c, 'a, 'b) code"
      where "ts ! i = section_step (inside c0)" "inside c0 a = (x, outside c1)" by auto
    with RUnlock i(2) \<open>a = x\<close> show ?thesis by (intro leave [of c0]) (auto split: if_splits)
  next
    case (Claim c1)
    then have "\<not> claimed m" using i(2) by (auto split: if_splits)
    then have "a = x" using guarded_modes(2) [OF g] same by blast
    with Claim here bal i(2) show ?thesis by (intro stutter) (auto split: if_splits)
  next
    case (Await c1)
    then have "a = x" using bal alone(2) same by simp
    with Await here bal i(2) show ?thesis by (intro stutter) (auto split: if_splits)
  next
    case (Unlock c1)
    then have w: "ms ! i = Writing" using bal by simp
    from here Unlock w obtain c0 :: "('c, 'a, 'b) code"
      where "ts ! i = section_step (inside c0)" "inside c0 a = (x, outside c1)" by auto
    with Unlock i(2) alone(3) [OF w] show ?thesis by (intro leave [of c0]) (auto split: if_splits)
  qed (use i(2) in simp)
qed

lemma simulates_turns:
  assumes "lturn\<^sup>*\<^sup>* (M, cs) (M', cs')" "simulates ms M cs A ts"
  shows "\<exists>ms' A' ts'. turn\<^sup>*\<^sup>* (A, ts) (A', ts') \<and> simulates ms' M' cs' A' ts'"
  using assms(1)
proof (induction rule: rtranclp_induct2)
  case refl
  show ?case using assms(2) by blast
next
  case (step M1 cs1 M2 cs2)
  then obtain ms1 A1 ts1 where "turn\<^sup>*\<^sup>* (A, ts) (A1, ts1)" "simulates ms1 M1 cs1 A1 ts1" by blast
  with simulates_turn [OF this(2) step(2)] show ?case by (meson rtranclp_trans)
qed

lemma simulates_start:
  assumes "\<And>c. c \<in> set cs \<Longrightarrow> balanced c Free"
  shows "simulates (replicate (length cs) Free) (free_mutex, x, y) cs (x, y) (map outside cs)"
  using guarded_start [OF assms] by (simp add: simulates_def)

section \<open>The two facts\<close>

lemma rest_is_done:
  assumes "\<And>c. c \<in> set cs \<Longrightarrow> balanced c Free" "lturn\<^sup>*\<^sup>* ((free_mutex, x, y), cs) ((m, x', y'), cs')"
    and "\<nexists>q. lturn ((m, x', y'), cs') q"
  shows "m = free_mutex \<and> (\<exists>rs. cs' = map Done rs \<and> turn\<^sup>*\<^sup>* ((x, y), map outside cs) ((x', y'), map Return rs))"
proof -
  obtain ms a ts where turns: "turn\<^sup>*\<^sup>* ((x, y), map outside cs) ((a, y'), ts)"
    and sim: "simulates ms (m, x', y') cs' (a, y') ts"
    using simulates_turns [OF assms(2) simulates_start [OF assms(1)]] by (auto simp: simulates_def)
  have g: "guarded m ms cs'" and len: "length ms = length cs'" "length ts = length cs'" using sim by (auto simp: simulates_def guarded_def)
  have "\<exists>r. c = Done r" if "c \<in> set cs'" for c
    using that guarded_progress [OF g] assms(3) by (metis in_set_conv_nth)
  then obtain rs where rs: "cs' = map Done rs" by (metis ex_map_conv)
  have "ms ! i = Free" if "i < length rs" for i using g that by (auto simp: guarded_def rs)
  then have modes: "set ms \<subseteq> {Free}" using len by (auto simp: rs in_set_conv_nth)
  with guarded_modes [OF g] have "m = free_mutex" by (cases m) (auto simp: free_mutex_def count_list_0_iff)
  moreover have "ts = map Return rs"
    using sim modes len by (auto simp: simulates_def rs intro!: nth_equalityI) (metis nth_mem singletonD stands.simps(1) subsetD fst_conv cut.simps(1) nth_map)
  moreover have "a = x'" using sim modes by (auto simp: simulates_def)
  ultimately show ?thesis using turns rs by blast
qed

end
