(* ===== verification/RequestThreads.thy ===== *)
theory RequestThreads
  imports Threads Handlers
begin

text \<open>
  The requests as threads: every operation of the service once more, cut into the steps between
  which the scheduler may put the steps of other requests. A critical section of the resource
  manager (one step by \<open>LockedOperations\<close>), a statement or transaction of a database, a Redis command, an HTTP call and an access
  to the last subnet is one step each. Run on its own, each thread is the operation of
  \<open>VmService\<close>, \<open>ControlContext\<close> or \<open>Handlers\<close> it is named after.
\<close>

section \<open>The service\<close>

type_synonym 'a task = "('a result, control_context) thread"

text \<open>The lookup of the cache, the query and the update of the cache lock separately.\<close>

definition cache_step :: "uuid \<Rightarrow> int \<Rightarrow> control_context \<Rightarrow> nat option \<times> control_context" where
  "cache_step u k w =
     (if k < 0 \<or> int (length (Cores (Resources w))) \<le> k then (None, w)
      else (Some (nat k), on_resources (cache_location u (nat k)) w))"

definition find_core_thread :: "tx_env \<Rightarrow> uuid \<Rightarrow> (nat option, control_context) thread" where
  "find_core_thread e u =
     bind_thread (look (\<lambda>w. VMLocation (Resources w) u)) (\<lambda>cached.
       case cached of
         Some i \<Rightarrow> Return (Some i)
       | None \<Rightarrow>
           bind_thread (look (\<lambda>w. get_instance_location e u (MainDB w))) (\<lambda>r.
             case r of
               Ok k \<Rightarrow> atom (cache_step u k)
             | _ \<Rightarrow> Return None))"

definition with_core_thread :: "error \<Rightarrow> tx_env \<Rightarrow> uuid \<Rightarrow> nat task" where
  "with_core_thread err e u =
     map_thread_result (\<lambda>found. case found of None \<Rightarrow> Fail err | Some i \<Rightarrow> Ok i) (find_core_thread e u)"

definition add_cms_subnet_thread :: "subnet_env \<Rightarrow> uuid \<Rightarrow> cms_new_instance_response task" where
  "add_cms_subnet_thread e u =
     on_ok_thread (wrapping ''AddCmsSubnet: failed to get VM IP'' (look (get_vm_ip_by_uuid u))) (\<lambda>ip.
     on_ok_thread (wrapping ''AddCmsSubnet: failed to get subnet'' (Return (get_subnet_from_ip ip))) (\<lambda>subnet.
       wrapping ''AddCmsSubnet: CMS request failed'' (atom (cms_new_instance e subnet))))"

definition request_reserved_thread :: "subnet_env \<Rightarrow> string \<Rightarrow> string \<Rightarrow> cms_new_instance_response task" where
  "request_reserved_thread e old nxt =
     bind_thread (effect (\<lambda>w. w\<lparr>Last_subnet := nxt\<rparr>)) (\<lambda>_.
     bind_thread (atom (cms_new_instance e nxt)) (\<lambda>r.
       case r of
         Fail err \<Rightarrow>
           bind_thread (atom (update_subnet_row (ns_rollback e) old)) (\<lambda>q.
             case q of
               Fail rb \<Rightarrow>
                 Return (Fail (''NewCmsSubnet: CMS request failed: '' @ err @ '', rollback also failed: '' @ rb))
             | _ \<Rightarrow>
                 bind_thread (effect (\<lambda>w. w\<lparr>Last_subnet := old\<rparr>)) (\<lambda>_.
                   Return (Fail (wrap ''NewCmsSubnet: CMS request failed'' err))))
       | _ \<Rightarrow> Return r))"

definition new_cms_subnet_thread :: "subnet_env \<Rightarrow> cms_new_instance_response task" where
  "new_cms_subnet_thread e =
     bind_thread (look Last_subnet) (\<lambda>old.
     on_ok_thread (Return (find_subnet old)) (\<lambda>nxt.
     on_ok_thread (wrapping ''NewCmsSubnet: failed to update last_subnet in DB''
              (atom (update_subnet_row (ns_reserve e) nxt))) (\<lambda>_.
       request_reserved_thread e old nxt)))"

definition delete_cms_subnet_thread :: "string \<Rightarrow> http_outcome \<Rightarrow> uuid \<Rightarrow> unit task" where
  "delete_cms_subnet_thread host answer u =
     on_ok_thread (wrapping ''DeleteCmsSubnet: failed to get VM IP'' (look (get_vm_ip_by_uuid u))) (\<lambda>ip.
       case request_delete_instance (cms_host host) ip answer of
         (rq, r) \<Rightarrow>
           on_ok_thread (wrapping ''DeleteCmsSubnet: CMS request failed'' (atom (\<lambda>w. (r, record_http answer rq w))))
             (\<lambda>_. Return (Ok ())))"

definition allocate_cms_subnet_thread ::
  "subnet_env \<Rightarrow> string \<Rightarrow> uuid \<Rightarrow> (cms_new_instance_response \<times> bool) task" where
  "allocate_cms_subnet_thread e subnetType u =
     (if subnetType = ''Add''
      then on_ok_thread (wrapping ''CreateVM: failed to configure cms'' (add_cms_subnet_thread e u))
             (\<lambda>r. Return (Ok (r, False)))
      else on_ok_thread (wrapping ''CreateVM: failed to configure cms'' (new_cms_subnet_thread e))
             (\<lambda>r. Return (Ok (r, True))))"

text \<open>The registered functions run one by one, each with its own lock or transaction.\<close>

primrec undo_thread :: "('s \<Rightarrow> 's) list \<Rightarrow> nat \<Rightarrow> (unit, 's) thread" where
  "undo_thread fs 0 = Return ()"
| "undo_thread fs (Suc i) = bind_thread (effect (fs ! i)) (\<lambda>_. undo_thread fs i)"

definition abort_thread :: "control_context cleanup_chain \<Rightarrow> error \<Rightarrow> unit task" where
  "abort_thread chain err =
     bind_thread (undo_thread (steps chain) (length (steps chain))) (\<lambda>_. Return (Fail err))"

definition launch_vm_thread ::
  "create_env \<Rightarrow> create_vm_input \<Rightarrow> nat \<Rightarrow> cms_new_instance_response \<Rightarrow> bool \<Rightarrow> string \<Rightarrow> vm_info \<Rightarrow>
   control_context cleanup_chain \<Rightarrow> unit task" where
  "launch_vm_thread e inp i cms isNew key vm chain =
     bind_thread (atom (redis_store (ce_redis e) (initial_status inp cms) (ce_now e))) (\<lambda>_.
     bind_thread (atom (\<lambda>w. case core_create (ce_core e) i (build_core_create_vm_request inp cms key) w of
                          (r, w') \<Rightarrow> ((r, core_IP (Cores (Resources w') ! i)), w'))) (\<lambda>(r, ip).
       case r of
         Panic \<Rightarrow> Return Panic
       | Fail err \<Rightarrow> abort_thread chain (''CreateVM: failed to create VM on core '' @ wrap ip err)
       | Ok _ \<Rightarrow>
           bind_thread (atom (repo_add (ce_insert e) vm i)) (\<lambda>q.
             case q of
               Panic \<Rightarrow> Return Panic
             | Fail err \<Rightarrow> abort_thread chain (wrap ''CreateVM: failed to persist instance'' err)
             | Ok _ \<Rightarrow>
                 bind_thread
                   (if isNew then map_thread_result (\<lambda>_. ()) (atom (update_subnet_row (ce_last_subnet e) (cms_IP cms)))
                    else Return ()) (\<lambda>_.
                 bind_thread (effect (on_resources (register_vm (in_UUID inp) i vm))) (\<lambda>_.
                   Return (Ok ()))))))"

definition place_vm_thread ::
  "create_env \<Rightarrow> create_vm_input \<Rightarrow> nat \<Rightarrow> cms_new_instance_response \<Rightarrow> bool \<Rightarrow> string \<Rightarrow> string \<Rightarrow> unit task" where
  "place_vm_thread e inp i cms isNew priv pub =
     bind_thread (atom (guac_configure (ce_guac e) (us_Name (hd (in_Users inp))) (in_UUID inp) (cms_IP cms) priv)) (\<lambda>r.
       case r of
         Panic \<Rightarrow> Return Panic
       | Fail err \<Rightarrow> Return (Fail err)
       | Ok pass \<Rightarrow>
           if pass = [] then abort_thread empty_chain ''CreateVM: failed to configure Guacamole''
           else (let vm = new_vm inp cms pass; req = requirement_of inp;
                     chain = chain_push (undo_guac e (in_UUID inp)) empty_chain;
                     chain' = chain_push (undo_resources i (in_UUID inp) req) chain
                 in bind_thread (effect (on_resources (allocate_resources i (in_UUID inp) vm req))) (\<lambda>_.
                      launch_vm_thread e inp i cms isNew pub vm chain')))"

definition create_vm_thread :: "create_env \<Rightarrow> create_vm_input \<Rightarrow> unit task" where
  "create_vm_thread e inp =
     on_ok_thread (look (select_core_or_fail (requirement_of inp))) (\<lambda>i.
     on_ok_thread (wrapping ''CreateVM: failed to generate SSH key'' (Return (ce_ssh e))) (\<lambda>keys.
       if in_Users inp = [] then abort_thread empty_chain ''CreateVM: at least one user is required''
       else
     on_ok_thread (wrapping ''CreateVM: failed to allocate CMS subnet''
              (allocate_cms_subnet_thread (ce_subnet e) (in_SubnetType inp) (in_UUID inp))) (\<lambda>cms.
       place_vm_thread e inp i (fst cms) (snd cms) (fst keys) (snd keys))))"

text \<open>A call to the core a VM is on; the address of a core never changes.\<close>

definition call_core_thread ::
  "(core \<Rightarrow> string) \<Rightarrow> (core \<Rightarrow> uuid \<Rightarrow> http_outcome \<Rightarrow> http_request \<times> 'a result) \<Rightarrow> nat \<Rightarrow> uuid \<Rightarrow>
   http_outcome \<Rightarrow> 'a task" where
  "call_core_thread msg call i u answer =
     atom (\<lambda>w. let c = Cores (Resources w) ! i in
       case call c u answer of (rq, r) \<Rightarrow> wrapped (msg c) (r, record_http answer rq w))"

definition delete_vm_thread :: "delete_env \<Rightarrow> uuid \<Rightarrow> unit task" where
  "delete_vm_thread e u =
     on_ok_thread (with_core_thread (not_found u) (de_find e) u) (\<lambda>i.
     on_ok_thread (call_core_thread (\<lambda>c. ''DeleteVM: failed to delete VM '' @ u @ on_core c)
              (\<lambda>c u. core_delete_vm c u HardDelete) i u (de_core e)) (\<lambda>_.
     bind_thread (delete_cms_subnet_thread (de_cms_host e) (de_cms e) u) (\<lambda>_.
     on_ok_thread (wrapping (''DeleteVM: failed to delete instance '' @ u) (atom (repo_delete (de_delete e) u))) (\<lambda>_.
     bind_thread (atom (guac_cleanup (de_guac e) u)) (\<lambda>_.
     bind_thread (atom (redis_remove (de_redis e) u)) (\<lambda>_.
       Return (Ok ())))))))"

definition start_vm_thread :: "tx_env \<Rightarrow> http_outcome \<Rightarrow> uuid \<Rightarrow> unit task" where
  "start_vm_thread e answer u =
     on_ok_thread (with_core_thread (not_found u) e u) (\<lambda>i.
     on_ok_thread (call_core_thread (\<lambda>c. ''StartVM: failed to start VM '' @ u) core_start_vm i u answer) (\<lambda>_.
       Return (Ok ())))"

text \<open>The status in Redis is read by one command and written by another; the argument says whether
  the trace has the call.\<close>

definition update_status_thread ::
  "(control_context \<Rightarrow> control_context) \<Rightarrow> redis_env \<Rightarrow> uuid \<Rightarrow> string \<Rightarrow> int64 \<Rightarrow> unit task" where
  "update_status_thread note_call e u status t =
     bind_thread (atom (\<lambda>w.
       case load_vm_info e u (Redis w) of
         Ok r \<Rightarrow> (Ok r, w)
       | Fail err \<Rightarrow> (Fail (wrap ''failed to get existing vm info from redis'' err), note_call w)
       | Panic \<Rightarrow> (Panic, note_call w))) (\<lambda>r.
       on_ok_thread (Return r) (\<lambda>old.
         atom (\<lambda>w.
           case wrapped ''failed to update vm status in redis''
                  (redis_set e u (marshal_redis_vm_info (old\<lparr>r_status := status, r_time := t\<rparr>)) (Redis w)) of
             (q, db) \<Rightarrow> (q, note_call (w\<lparr>Redis := db\<rparr>)))))"

definition shutdown_vm_thread :: "tx_env \<Rightarrow> http_outcome \<Rightarrow> redis_env \<Rightarrow> int64 \<Rightarrow> uuid \<Rightarrow> unit task" where
  "shutdown_vm_thread e answer re t u =
     on_ok_thread (with_core_thread (not_found u) e u) (\<lambda>i.
     on_ok_thread (call_core_thread (\<lambda>c. ''ShutdownVM: failed to shutdown VM '' @ u) core_force_shutdown_vm i u answer) (\<lambda>_.
     bind_thread (effect (on_resources (\<lambda>rm. snd (unregister_alive u rm)))) (\<lambda>_.
     bind_thread (update_status_thread (record_event (RedisSet u)) re u VMStatusStopped t) (\<lambda>_.
       Return (Ok ())))))"

definition get_vm_status_thread ::
  "string \<Rightarrow> string \<Rightarrow> (core \<Rightarrow> uuid \<Rightarrow> http_outcome \<Rightarrow> http_request \<times> 'a result) \<Rightarrow>
   tx_env \<Rightarrow> http_outcome \<Rightarrow> uuid \<Rightarrow> 'a task" where
  "get_vm_status_thread who what call e answer u =
     on_ok_thread (with_core_thread (who @ '': '' @ not_found u) e u) (\<lambda>i.
       call_core_thread (\<lambda>c. who @ '': error getting '' @ what @ '' info for VM '' @ u @ on_core c) call i u answer)"

definition get_guacamole_token_thread :: "tx_env \<Rightarrow> http_outcome \<Rightarrow> uuid \<Rightarrow> string task" where
  "get_guacamole_token_thread e answer u =
     on_ok_thread (with_core_thread (''core not found for vm uuid: '' @ u) e u) (\<lambda>i.
     bind_thread (look (\<lambda>w. vms_of (Cores (Resources w) ! i) u)) (\<lambda>vm.
       case vm of
         None \<Rightarrow> Return (Fail (''vm not found of uuid: '' @ u))
       | Some vm \<Rightarrow>
           wrapping ''GetGuacamoleToken: failed to authenticate''
             (atom (\<lambda>w. case authenticate (GuacBaseURL w) u (GuacPassword vm) answer of
                         (rq, r) \<Rightarrow> (r, record_http answer rq w)))))"

section \<open>Run alone, the threads are the operations\<close>

lemma run_find_core [simp]: "run (find_core_thread e u) w = find_core_by_vm_uuid e u w"
  by (auto simp: find_core_thread_def cache_step_def find_core_by_vm_uuid_def split: option.split result.split)

lemma run_with_core [simp]: "run (with_core_thread err e u) w = with_core err e u w"
  by (auto simp: with_core_thread_def with_core_def split: option.split prod.split)

lemma run_add_cms_subnet [simp]: "run (add_cms_subnet_thread e u) w = add_cms_subnet e u w"
  by (simp add: add_cms_subnet_thread_def add_cms_subnet_def)

lemma run_request_reserved [simp]: "run (request_reserved_thread e old nxt) w = request_reserved e old nxt w"
  by (auto simp: request_reserved_thread_def request_reserved_def split: result.split prod.split)

lemma run_new_cms_subnet [simp]: "run (new_cms_subnet_thread e) w = new_cms_subnet e w"
  by (simp add: new_cms_subnet_thread_def new_cms_subnet_def)

lemma run_delete_cms_subnet [simp]: "run (delete_cms_subnet_thread host a u) w = delete_cms_subnet host a u w"
  by (auto simp: delete_cms_subnet_thread_def delete_cms_subnet_def split: prod.split intro!: arg_cong2 [where f = and_then])

lemma run_allocate_cms_subnet [simp]:
  "run (allocate_cms_subnet_thread e ty u) w = allocate_cms_subnet e ty u w"
  by (simp add: allocate_cms_subnet_thread_def allocate_cms_subnet_def)

lemma run_undo: "run (undo_thread fs i) s = ((), run_from fs i s)"
  by (induction i arbitrary: s) simp_all

lemma run_abort [simp]: "run (abort_thread chain err) w = abort_with chain err w"
  by (simp add: abort_thread_def abort_with_def run_undo chain_run_def)

lemma run_launch_vm [simp]:
  "run (launch_vm_thread e inp i cms isNew key vm chain) w = launch_vm e inp i cms isNew key vm chain w"
  by (auto simp: launch_vm_thread_def launch_vm_def Let_def split: result.split prod.split)

lemma run_place_vm [simp]:
  "run (place_vm_thread e inp i cms isNew priv pub) w = place_vm e inp i cms isNew priv pub w"
  by (auto simp: place_vm_thread_def place_vm_def Let_def split: result.split prod.split)

lemma run_create_vm [simp]: "run (create_vm_thread e inp) w = create_vm e inp w"
  unfolding create_vm_thread_def create_vm_def
  by (simp, intro arg_cong2 [where f = and_then] refl ext) simp

lemma run_call_core [simp]:
  "run (call_core_thread msg call i u a) w =
     (let c = Cores (Resources w) ! i; (rq, r) = call c u a in wrapped (msg c) (r, record_http a rq w))"
  by (simp add: call_core_thread_def Let_def)

lemma run_delete_vm [simp]: "run (delete_vm_thread e u) w = delete_vm e u w"
  by (simp add: delete_vm_thread_def delete_vm_def Let_def split_beta)

lemma run_start_vm [simp]: "run (start_vm_thread e a u) w = start_vm e a u w"
  by (simp add: start_vm_thread_def start_vm_def Let_def split_beta)

lemma run_update_status:
  "run (update_status_thread note_call e u st t) w =
     (case update_vm_status e u st t (Redis w) of (r, db) \<Rightarrow> (r, note_call (w\<lparr>Redis := db\<rparr>)))"
  by (auto simp: update_status_thread_def update_vm_status_def redis_set_def split: result.split prod.split)

lemma run_shutdown_vm [simp]: "run (shutdown_vm_thread e a re t u) w = shutdown_vm e a re t u w"
  by (simp add: shutdown_vm_thread_def shutdown_vm_def Let_def split_beta run_update_status redis_update_def)

lemma run_get_vm_status [simp]:
  "run (get_vm_status_thread who what call e a u) w = get_vm_status who what call e a u w"
  by (simp add: get_vm_status_thread_def get_vm_status_def Let_def split_beta)

lemma run_get_guacamole_token [simp]: "run (get_guacamole_token_thread e a u) w = get_guacamole_token e a u w"
  by (auto simp: get_guacamole_token_thread_def get_guacamole_token_def Let_def split_beta
      split: option.split intro!: arg_cong2 [where f = and_then] ext)

section \<open>The handlers\<close>

type_synonym handler_thread = "api_env \<Rightarrow> api_request \<Rightarrow> (http_reply option, server) thread"

definition context_thread :: "('r, control_context) thread \<Rightarrow> ('r, server) thread" where
  "context_thread = zoom sv_context (\<lambda>w s. s\<lparr>sv_context := w\<rparr>)"

text \<open>\<open>sync.Once\<close> holds back the other callers until the first has created the client.\<close>

definition once_thread :: "(rustfs_once \<Rightarrow> 'r \<times> rustfs_once) \<Rightarrow> ('r, server) thread" where
  "once_thread f = atom (\<lambda>s. case f (sv_rustfs s) of (r, once) \<Rightarrow> (r, s\<lparr>sv_rustfs := once\<rparr>))"

definition take_snapshot_thread ::
  "tx_env \<Rightarrow> (string \<Rightarrow> string) \<Rightarrow> s3_api \<Rightarrow> uuid \<Rightarrow> string \<Rightarrow> (unit result, server) thread" where
  "take_snapshot_thread e env s3 u name =
     bind_thread (context_thread (find_core_thread e u)) (\<lambda>found.
       case found of
         None \<Rightarrow> Return (Fail (''TakeSnapshot: VM '' @ u @ '' not found''))
       | Some _ \<Rightarrow>
           on_ok_thread (wrapping ''TakeSnapshot: RustFS unavailable'' (once_thread (get_rustfs_client env s3))) (\<lambda>_.
             Return (case presign_put_object s3 u name of
                       Fail err \<Rightarrow> Fail (''TakeSnapshot '' @ u @ wrap '': failed to generate presigned URL'' err)
                     | Panic \<Rightarrow> Panic
                     | Ok _ \<Rightarrow> Ok ())))"

definition reply_thread ::
  "int \<Rightarrow> ('a \<Rightarrow> http_reply) \<Rightarrow> ('a result, server) thread \<Rightarrow> (http_reply option, server) thread" where
  "reply_thread status done =
     map_thread_result (\<lambda>r. case r of Ok x \<Rightarrow> Some (done x) | Fail e \<Rightarrow> Some (respond_error status e) | Panic \<Rightarrow> None)"

definition bad_request_thread :: "string \<Rightarrow> (http_reply option, server) thread" where
  "bad_request_thread msg = Return (Some (respond_error 400 msg))"

definition with_body_thread ::
  "'r field list \<Rightarrow> 'r \<Rightarrow> string \<Rightarrow> api_request \<Rightarrow> ('r \<Rightarrow> (http_reply option, server) thread) \<Rightarrow>
   (http_reply option, server) thread" where
  "with_body_thread fs zero msg rq k =
     (case unmarshal fs zero (rq_body rq) of Ok r \<Rightarrow> k r | _ \<Rightarrow> bad_request_thread msg)"

definition create_vm_handler_thread :: handler_thread where
  "create_vm_handler_thread e rq =
     with_body_thread api_create_fields zero_api_create (create_parse_error e (rq_body rq)) rq (\<lambda>r.
       if ah_Memory (ac_HWInfo r) = 0 \<or> ah_CPU (ac_HWInfo r) = 0 \<or> ah_Disk (ac_HWInfo r) = 0
       then bad_request_thread ''Memory, CPU, and Disk must be non-zero''
       else reply_thread 500 (\<lambda>_. respond_json 201 (JObj [(''message'', JStr ''VM created successfully'')]))
              (context_thread (create_vm_thread (ae_create e) (to_service_input r))))"

definition delete_vm_handler_thread :: handler_thread where
  "delete_vm_handler_thread e rq =
     with_body_thread uuid_fields [] ''Invalid request body'' rq (\<lambda>u.
       reply_thread 500 (\<lambda>_. write_header 200) (context_thread (delete_vm_thread (ae_delete e) u)))"

definition start_vm_handler_thread :: handler_thread where
  "start_vm_handler_thread e rq =
     with_body_thread uuid_fields [] ''Invalid request body'' rq (\<lambda>u.
       reply_thread 500 (\<lambda>_. write_header 200) (context_thread (start_vm_thread (ae_find e) (ae_http e) u)))"

definition shutdown_vm_handler_thread :: handler_thread where
  "shutdown_vm_handler_thread e rq =
     with_body_thread uuid_fields [] ''Invalid request body'' rq (\<lambda>u.
       reply_thread 500 (\<lambda>_. write_header 200)
         (context_thread (shutdown_vm_thread (ae_find e) (ae_http e) (ae_redis e) (ae_now e) u)))"

definition vm_status_handler_thread :: handler_thread where
  "vm_status_handler_thread e rq =
     with_body_thread (uuid_and ''type'') ([], []) ''Invalid request body'' rq (\<lambda>(u, t).
       if t = ''cpu'' then
         reply_thread 500 (\<lambda>x. respond_json 200 (json_of_cpu_status x))
           (context_thread (get_vm_status_thread ''GetVMCpuInfo'' ''CPU'' (converted to_cpu_status core_vm_cpu_info)
             (ae_find e) (ae_http e) u))
       else if t = ''memory'' then
         reply_thread 500 (\<lambda>x. respond_json 200 (json_of_memory_status x))
           (context_thread (get_vm_status_thread ''GetVMMemoryInfo'' ''memory'' (converted to_memory_status core_vm_memory_info)
             (ae_find e) (ae_http e) u))
       else if t = ''disk'' then
         reply_thread 500 (\<lambda>x. respond_json 200 (json_of_disk_status x))
           (context_thread (get_vm_status_thread ''GetVMDiskInfo'' ''disk'' (converted to_disk_status core_vm_disk_info)
             (ae_find e) (ae_http e) u))
       else bad_request_thread (''Invalid status type. Must be '' @ CHR 0x27 # ''cpu'' @ CHR 0x27 # '', '' @
              CHR 0x27 # ''memory'' @ CHR 0x27 # '', or '' @ CHR 0x27 # ''disk'' @ [CHR 0x27]))"

definition vm_connect_handler_thread :: handler_thread where
  "vm_connect_handler_thread e rq =
     (if rq_uuid rq = []
      then bad_request_thread (''Missing '' @ CHR 0x27 # ''uuid'' @ CHR 0x27 # '' query parameter'')
      else reply_thread 500 (\<lambda>token. respond_json 200 (JObj [(''authToken'', JStr token)]))
             (context_thread (get_guacamole_token_thread (ae_find e) (ae_http e) (rq_uuid rq))))"

definition redis_handler_thread :: handler_thread where
  "redis_handler_thread e rq =
     with_body_thread redis_status_fields ([], []) ''Invalid request body'' rq (\<lambda>(u, status).
       bind_thread (context_thread
           (update_status_thread id (ae_redis e) u (validate_and_normalize_status status) (ae_now e))) (\<lambda>r.
         case r of
           Panic \<Rightarrow> Return None
         | Fail _ \<Rightarrow> Return (Some (respond_error 500 ''Failed to update VM status in Redis''))
         | Ok _ \<Rightarrow>
             look (\<lambda>s. Some
               (if re_get (ae_check e) \<noteq> None \<or> Redis (sv_context s) u = None
                then respond_error 500 ''Failed to get value from Redis''
                else \<lparr>rp_status = 200, rp_headers = [], rp_body = TextReply ''VM status updated in Redis''\<rparr>))))"

definition vm_info_handler_thread :: handler_thread where
  "vm_info_handler_thread e rq =
     with_body_thread uuid_fields [] ''invalid request body'' rq (\<lambda>u.
       reply_thread 404 (\<lambda>i. respond_json 200 (json_of_vm_info i))
         (look (\<lambda>s. get_vm_info (ae_redis e) u (Redis (sv_context s)))))"

definition take_snapshot_handler_thread :: handler_thread where
  "take_snapshot_handler_thread e rq =
     with_body_thread (uuid_and ''snapName'') ([], []) ''invalid request body'' rq (\<lambda>(u, name).
       if u = [] \<or> name = [] then bad_request_thread ''uuid and snapName are required''
       else reply_thread 500 (\<lambda>_. respond_json 200 (JObj [(''message'', JStr ''snapshot taken'')]))
              (take_snapshot_thread (ae_find e) (ae_env e) (ae_s3 e) u name))"

definition list_snapshots_handler_thread :: handler_thread where
  "list_snapshots_handler_thread e rq =
     (if rq_uuid rq = [] then bad_request_thread ''uuid query parameter is required''
      else reply_thread 500 (\<lambda>keys. respond_json 200 (JObj [(''snapshots'', JArr (map JStr keys))]))
             (once_thread (list_snapshots (ae_env e) (ae_s3 e) (rq_uuid rq))))"

definition delete_snapshot_handler_thread :: handler_thread where
  "delete_snapshot_handler_thread e rq =
     with_body_thread (uuid_and ''snapKey'') ([], []) ''invalid request body'' rq (\<lambda>(u, key).
       if u = [] \<or> key = [] then bad_request_thread ''uuid and snapKey are required''
       else reply_thread 500 (\<lambda>_. write_header 200)
              (once_thread (delete_snapshot (ae_env e) (ae_s3 e) u key)))"

section \<open>The server\<close>

definition route_threads :: "(string \<times> string \<times> handler_thread) list" where
  "route_threads =
     [(''POST'', ''/vm'', create_vm_handler_thread),
      (''DELETE'', ''/vm'', delete_vm_handler_thread),
      (''POST'', ''/vm/shutdown'', shutdown_vm_handler_thread),
      (''GET'', ''/vm/status'', vm_status_handler_thread),
      (''GET'', ''/vm/connect'', vm_connect_handler_thread),
      (''POST'', ''/vm/redis'', redis_handler_thread),
      (''GET'', ''/vm/info'', vm_info_handler_thread),
      (''POST'', ''/vm/start'', start_vm_handler_thread),
      (''POST'', ''/vm/snapshot'', take_snapshot_handler_thread),
      (''GET'', ''/vm/snapshot'', list_snapshots_handler_thread),
      (''DELETE'', ''/vm/snapshot'', delete_snapshot_handler_thread)]"

definition serve_thread :: handler_thread where
  "serve_thread e rq =
     (case find (\<lambda>(m, p, h). p = rq_path rq \<and> method_matches m (rq_method rq)) route_threads of
        Some (m, p, h) \<Rightarrow>
          map_thread_result
            (map_option (\<lambda>r. r\<lparr>rp_headers := (''X-Content-Type-Options'', ''nosniff'') # rp_headers r\<rparr>)) (h e rq)
      | None \<Rightarrow>
          Return (Some \<lparr>rp_status = (if \<exists>(m, p, h) \<in> set route_threads. p = rq_path rq then 405 else 404),
                        rp_headers = [], rp_body = TextReply []\<rparr>))"

definition serve_pool :: "(api_env \<times> api_request) list \<Rightarrow> (http_reply option, server) thread list" where
  "serve_pool = map (\<lambda>(e, rq). serve_thread e rq)"

lemma run_context [simp]: "run (context_thread t) s = on_context (run t) s"
  unfolding context_thread_def on_context_def by (rule run_zoom) simp_all

lemma run_once [simp]:
  "run (once_thread f) s = (case f (sv_rustfs s) of (r, once) \<Rightarrow> (r, s\<lparr>sv_rustfs := once\<rparr>))"
  by (simp add: once_thread_def)

lemma run_reply [simp]: "run (reply_thread status done t) s = reply_with status done (run t s)"
  by (auto simp: reply_thread_def reply_with_def split: prod.split result.split)

lemma run_bad_request [simp]: "run (bad_request_thread msg) s = bad_request msg s"
  by (simp add: bad_request_thread_def bad_request_def)

lemma run_with_body:
  "(\<And>r. run (k r) s = k' r) \<Longrightarrow> run (with_body_thread fs zero msg rq k) s = with_body fs zero msg rq s k'"
  by (simp add: with_body_thread_def with_body_def split: result.split)


lemma run_take_snapshot:
  "run (take_snapshot_thread e env s3 u name) s =
     (case take_snapshot e env s3 u name (sv_context s, sv_rustfs s) of
        (r, w, once) \<Rightarrow> (r, s\<lparr>sv_context := w, sv_rustfs := once\<rparr>))"
  by (auto simp: take_snapshot_thread_def take_snapshot_def on_context_def
      split: prod.split option.split result.split)

lemma update_vm_status_returns: "update_vm_status e u st t db \<noteq> (Panic, db')"
proof
  have "load_vm_info e u db \<noteq> Panic"
    using unmarshal_not_Panic [of redis_vm_info_fields zero_redis_vm_info]
    by (auto simp: load_vm_info_def split: option.splits result.splits)
  moreover assume "update_vm_status e u st t db = (Panic, db')"
  ultimately show False
    by (cases "load_vm_info e u db"; cases "re_set e") (auto simp: update_vm_status_def redis_set_def)
qed

lemma run_redis_handler: "run (redis_handler_thread e rq) s = redis_handler e rq s"
  unfolding redis_handler_thread_def redis_handler_def
  by (rule run_with_body)
    (auto simp: run_update_status on_context_def update_vm_status_returns split: prod.split result.split)

lemma run_handlers:
  "run (create_vm_handler_thread e rq) s = create_vm_handler e rq s"
  "run (delete_vm_handler_thread e rq) s = delete_vm_handler e rq s"
  "run (start_vm_handler_thread e rq) s = start_vm_handler e rq s"
  "run (shutdown_vm_handler_thread e rq) s = shutdown_vm_handler e rq s"
  "run (vm_status_handler_thread e rq) s = vm_status_handler e rq s"
  "run (vm_connect_handler_thread e rq) s = vm_connect_handler e rq s"
  "run (vm_info_handler_thread e rq) s = vm_info_handler e rq s"
  "run (take_snapshot_handler_thread e rq) s = take_snapshot_handler e rq s"
  "run (list_snapshots_handler_thread e rq) s = list_snapshots_handler e rq s"
  "run (delete_snapshot_handler_thread e rq) s = delete_snapshot_handler e rq s"
proof -
  show "run (create_vm_handler_thread e rq) s = create_vm_handler e rq s"
    unfolding create_vm_handler_thread_def create_vm_handler_def
    by (rule run_with_body) (simp add: on_context_def)
  show "run (delete_vm_handler_thread e rq) s = delete_vm_handler e rq s"
    unfolding delete_vm_handler_thread_def delete_vm_handler_def
    by (rule run_with_body) (simp add: on_context_def)
  show "run (start_vm_handler_thread e rq) s = start_vm_handler e rq s"
    unfolding start_vm_handler_thread_def start_vm_handler_def
    by (rule run_with_body) (simp add: on_context_def)
  show "run (shutdown_vm_handler_thread e rq) s = shutdown_vm_handler e rq s"
    unfolding shutdown_vm_handler_thread_def shutdown_vm_handler_def
    by (rule run_with_body) (simp add: on_context_def)
  show "run (vm_status_handler_thread e rq) s = vm_status_handler e rq s"
    unfolding vm_status_handler_thread_def vm_status_handler_def
    by (rule run_with_body)
      (auto simp: on_context_def get_vm_cpu_info_def get_vm_memory_info_def get_vm_disk_info_def)
  show "run (vm_connect_handler_thread e rq) s = vm_connect_handler e rq s"
    by (simp add: vm_connect_handler_thread_def vm_connect_handler_def on_context_def)
  show "run (vm_info_handler_thread e rq) s = vm_info_handler e rq s"
    unfolding vm_info_handler_thread_def vm_info_handler_def by (rule run_with_body) simp
  show "run (take_snapshot_handler_thread e rq) s = take_snapshot_handler e rq s"
    unfolding take_snapshot_handler_thread_def take_snapshot_handler_def
    by (rule run_with_body) (auto simp: run_take_snapshot split: prod.split)
  show "run (list_snapshots_handler_thread e rq) s = list_snapshots_handler e rq s"
    by (auto simp: list_snapshots_handler_thread_def list_snapshots_handler_def split: prod.split)
  show "run (delete_snapshot_handler_thread e rq) s = delete_snapshot_handler e rq s"
    unfolding delete_snapshot_handler_thread_def delete_snapshot_handler_def
    by (rule run_with_body) (auto split: prod.split)
qed

lemma route_threads_run:
  "list_all2 (\<lambda>(m, p, h) (m', p', h'). m' = m \<and> p' = p \<and> (\<forall>e rq s. run (h' e rq) s = h e rq s)) routes route_threads"
  by (simp add: routes_def route_threads_def run_handlers run_redis_handler)

lemma find_list_all2:
  assumes "list_all2 R xs ys" "\<And>x y. R x y \<Longrightarrow> P x = Q y"
  shows "rel_option R (find P xs) (find Q ys)"
  using assms(1) by (induction rule: list_all2_induct) (simp_all add: assms(2))

lemma route_thread_paths: "(\<exists>(m, p, h) \<in> set route_threads. p = path) \<longleftrightarrow> (\<exists>(m, p, h) \<in> set routes. p = path)"
  by (simp add: routes_def route_threads_def)

lemma run_serve_thread: "run (serve_thread e rq) s = serve e rq s"
proof -
  let ?R = "\<lambda>(m, p, h) (m', p', h'). m' = m \<and> p' = p \<and> (\<forall>e rq s. run (h' e rq) s = h e rq s)"
  have "rel_option ?R (find (\<lambda>(m, p, h). p = rq_path rq \<and> method_matches m (rq_method rq)) routes)
      (find (\<lambda>(m, p, h). p = rq_path rq \<and> method_matches m (rq_method rq)) route_threads)"
    by (rule find_list_all2 [OF route_threads_run]) auto
  then show ?thesis
    unfolding serve_thread_def serve_def route_thread_paths
    by (cases rule: option.rel_cases) (auto simp: with_security_headers_def split: prod.split)
qed

lemma serve_thread_cases:
  obtains (routed) m p h where "(m, p, h) \<in> set route_threads" "p = rq_path rq" "method_matches m (rq_method rq)"
      "serve_thread e rq = map_thread_result
         (map_option (\<lambda>r. r\<lparr>rp_headers := (''X-Content-Type-Options'', ''nosniff'') # rp_headers r\<rparr>)) (h e rq)"
  | (unrouted) rp where "serve_thread e rq = Return (Some rp)"
proof (cases "find (\<lambda>(m, p, h). p = rq_path rq \<and> method_matches m (rq_method rq)) route_threads")
  case None
  then show thesis by (intro unrouted) (simp add: serve_thread_def)
next
  case (Some r)
  obtain m p h where r: "r = (m, p, h)" by (cases r)
  from Some have "(m, p, h) \<in> set route_threads" "p = rq_path rq" "method_matches m (rq_method rq)"
    by (auto simp: find_Some_iff r in_set_conv_nth)
  with Some show thesis by (intro routed) (simp_all add: serve_thread_def r)
qed

end
