(* ===== verification/LockedOperations.thy ===== *)
theory LockedOperations
  imports Locks RequestThreads
begin

text \<open>
  Every critical section of the program, access by access, with the calls of the mutex where the
  code has them: the methods of \<open>structure/resource_manager.go\<close>, the three ways through
  \<open>FindCoreByVmUUID\<close> (\<open>structure/control_infra.go\<close>), \<open>GetVMIPByUUID\<close> (\<open>service/network.go\<close>), the read of
  the password in \<open>GetGuacamoleToken\<close> and the diagnostics of \<open>selectCoreOrFail\<close>. The guarded data
  are the resource manager; the rest a goroutine works on is the database. Two accesses to different fields
  are two steps, and so are the load and the store of a compound assignment.
\<close>

section \<open>The critical sections\<close>

type_synonym 'r guarded_code = "('r, resource_manager, main_db) code"

definition load :: "(resource_manager \<Rightarrow> 'a) \<Rightarrow> ('a \<Rightarrow> 'r guarded_code) \<Rightarrow> 'r guarded_code" where
  "load h k = Access (\<lambda>rm. rm) (\<lambda>rm. k (h rm))"

definition store :: "(resource_manager \<Rightarrow> resource_manager) \<Rightarrow> 'r guarded_code \<Rightarrow> 'r guarded_code" where
  "store f c = Access f (\<lambda>_. c)"

definition on_core_at :: "nat \<Rightarrow> (core \<Rightarrow> core) \<Rightarrow> resource_manager \<Rightarrow> resource_manager" where
  "on_core_at i f rm = rm\<lparr>Cores := (Cores rm)[i := f (Cores rm ! i)]\<rparr>"

primrec select_scan ::
  "hardware_requirement \<Rightarrow> nat list \<Rightarrow> core_selection_result \<Rightarrow> (core_selection_result \<Rightarrow> 'r guarded_code) \<Rightarrow>
   'r guarded_code" where
  "select_scan req [] r k = k r"
| "select_scan req (i # is) r k =
     load (\<lambda>rm. IsAlive (Cores rm ! i)) (\<lambda>alive.
       if \<not> alive then select_scan req is r k
       else (let r' = r\<lparr>AliveCount := AliveCount r + 1\<rparr> in
         load (\<lambda>rm. FreeMemory (Cores rm ! i)) (\<lambda>memory.
           if \<not> memory \<ge> req_Memory req then select_scan req is r' k
           else load (\<lambda>rm. FreeCPU (Cores rm ! i)) (\<lambda>cpu.
             if \<not> cpu \<ge> req_CPU req then select_scan req is r' k
             else load (\<lambda>rm. FreeDisk (Cores rm ! i)) (\<lambda>disk.
               if \<not> disk \<ge> req_Disk req then select_scan req is r' k
               else k (r'\<lparr>sel_Core := Some i, sel_Index := int i\<rparr>))))))"

definition select_core_code ::
  "hardware_requirement \<Rightarrow> (core_selection_result \<Rightarrow> 'r guarded_code) \<Rightarrow> 'r guarded_code" where
  "select_core_code req k =
     RLock (load (\<lambda>rm. length (Cores rm)) (\<lambda>n.
       select_scan req [0..<n] \<lparr>sel_Core = None, sel_Index = -1, AliveCount = 0, TotalCores = n\<rparr> (\<lambda>r.
         RUnlock (k r))))"

text \<open>The diagnostics read the fields they print.\<close>

primrec alive_scan :: "nat list \<Rightarrow> 'r guarded_code \<Rightarrow> 'r guarded_code" where
  "alive_scan [] c = c"
| "alive_scan (i # is) c =
     load (\<lambda>rm. IsAlive (Cores rm ! i)) (\<lambda>alive.
       if alive
       then load (\<lambda>rm. FreeMemory (Cores rm ! i)) (\<lambda>_. load (\<lambda>rm. FreeCPU (Cores rm ! i)) (\<lambda>_.
              load (\<lambda>rm. FreeDisk (Cores rm ! i)) (\<lambda>_. alive_scan is c)))
       else alive_scan is c)"

definition select_core_or_fail_code ::
  "hardware_requirement \<Rightarrow> (nat result \<Rightarrow> 'r guarded_code) \<Rightarrow> 'r guarded_code" where
  "select_core_or_fail_code req k =
     select_core_code req (\<lambda>r.
       case sel_Core r of
         Some i \<Rightarrow> k (Ok i)
       | None \<Rightarrow>
           (if AliveCount r > 0
            then RLock (load (\<lambda>rm. length (Cores rm)) (\<lambda>n.
                   alive_scan [0..<n] (RUnlock (k (Fail ''CreateVM: no suitable core found'')))))
            else k (Fail ''CreateVM: no suitable core found'')))"

definition allocate_code ::
  "nat \<Rightarrow> uuid \<Rightarrow> vm_info \<Rightarrow> hardware_requirement \<Rightarrow> 'r guarded_code \<Rightarrow> 'r guarded_code" where
  "allocate_code i u vm req c =
     Lock (load (\<lambda>rm. VMInfoIdx (Cores rm ! i)) (\<lambda>idx.
       let rest = store (on_core_at i (\<lambda>c. c\<lparr>VMInfoIdx := map_option (\<lambda>m. m(u \<mapsto> vm)) (VMInfoIdx c)\<rparr>))
         (load (\<lambda>rm. FreeMemory (Cores rm ! i)) (\<lambda>memory. store (on_core_at i (\<lambda>c. c\<lparr>FreeMemory := memory - req_Memory req\<rparr>))
         (load (\<lambda>rm. FreeCPU (Cores rm ! i)) (\<lambda>cpu. store (on_core_at i (\<lambda>c. c\<lparr>FreeCPU := cpu - req_CPU req\<rparr>))
         (load (\<lambda>rm. FreeDisk (Cores rm ! i)) (\<lambda>disk. store (on_core_at i (\<lambda>c. c\<lparr>FreeDisk := disk - req_Disk req\<rparr>))
         (Unlock c)))))))
       in if idx = None then store (on_core_at i (\<lambda>c. c\<lparr>VMInfoIdx := Some Map.empty\<rparr>)) rest else rest))"

definition deallocate_code :: "nat \<Rightarrow> uuid \<Rightarrow> hardware_requirement \<Rightarrow> 'r guarded_code \<Rightarrow> 'r guarded_code" where
  "deallocate_code i u req c =
     Lock (store (on_core_at i (\<lambda>c. c\<lparr>VMInfoIdx := map_option (\<lambda>m. m(u := None)) (VMInfoIdx c)\<rparr>))
       (load (\<lambda>rm. FreeMemory (Cores rm ! i)) (\<lambda>memory. store (on_core_at i (\<lambda>c. c\<lparr>FreeMemory := memory + req_Memory req\<rparr>))
       (load (\<lambda>rm. FreeCPU (Cores rm ! i)) (\<lambda>cpu. store (on_core_at i (\<lambda>c. c\<lparr>FreeCPU := cpu + req_CPU req\<rparr>))
       (load (\<lambda>rm. FreeDisk (Cores rm ! i)) (\<lambda>disk. store (on_core_at i (\<lambda>c. c\<lparr>FreeDisk := disk + req_Disk req\<rparr>))
       (Unlock c))))))))"

definition register_code :: "uuid \<Rightarrow> nat \<Rightarrow> vm_info \<Rightarrow> 'r guarded_code \<Rightarrow> 'r guarded_code" where
  "register_code u i vm c =
     Lock (store (\<lambda>rm. rm\<lparr>VMLocation := (VMLocation rm)(u \<mapsto> i)\<rparr>)
       (load AliveVM (\<lambda>vms. store (\<lambda>rm. rm\<lparr>AliveVM := vms @ [vm]\<rparr>) (Unlock c))))"

primrec unregister_scan :: "uuid \<Rightarrow> nat list \<Rightarrow> (bool \<Rightarrow> 'r guarded_code) \<Rightarrow> 'r guarded_code" where
  "unregister_scan u [] k = k False"
| "unregister_scan u (i # is) k =
     load (\<lambda>rm. VM_UUID (AliveVM rm ! i)) (\<lambda>v.
       if v = u
       then store (\<lambda>rm. rm\<lparr>AliveVM := take i (AliveVM rm) @ drop (Suc i) (AliveVM rm)\<rparr>) (k True)
       else unregister_scan u is k)"

definition unregister_code :: "uuid \<Rightarrow> (bool \<Rightarrow> 'r guarded_code) \<Rightarrow> 'r guarded_code" where
  "unregister_code u k =
     Lock (load (\<lambda>rm. length (AliveVM rm)) (\<lambda>n. unregister_scan u [0..<n] (\<lambda>found. Unlock (k found))))"

text \<open>A hit in the cache leaves by an \<open>RUnlock\<close> of its own; the query runs without the lock.\<close>

definition find_core_code :: "tx_env \<Rightarrow> uuid \<Rightarrow> (nat option \<Rightarrow> 'r guarded_code) \<Rightarrow> 'r guarded_code" where
  "find_core_code e u k =
     RLock (load (\<lambda>rm. VMLocation rm u) (\<lambda>cached.
       case cached of
         Some i \<Rightarrow> RUnlock (k (Some i))
       | None \<Rightarrow>
           RUnlock (Outside (\<lambda>db. db) (\<lambda>db.
             case get_instance_location e u db of
               Ok j \<Rightarrow>
                 Lock (load (\<lambda>rm. length (Cores rm)) (\<lambda>n.
                   if j < 0 \<or> int n \<le> j then Unlock (k None)
                   else store (cache_location u (nat j)) (Unlock (k (Some (nat j))))))
             | _ \<Rightarrow> k None))))"

definition get_vm_ip_code :: "uuid \<Rightarrow> (string result \<Rightarrow> 'r guarded_code) \<Rightarrow> 'r guarded_code" where
  "get_vm_ip_code u k =
     RLock (load (\<lambda>rm. VMLocation rm u) (\<lambda>loc.
       case loc of
         None \<Rightarrow> RUnlock (k (Fail (''UUID '' @ u @ '' not found in VMLocation'')))
       | Some i \<Rightarrow>
           load (\<lambda>rm. vms_of (Cores rm ! i) u) (\<lambda>entry.
             case entry of
               None \<Rightarrow> RUnlock (k (Fail (''VMInfo for UUID '' @ u @ '' not found in Core'')))
             | Some vm \<Rightarrow> RUnlock (k (Ok (IP_VM vm))))))"

definition read_entry_code :: "nat \<Rightarrow> uuid \<Rightarrow> (vm_info option \<Rightarrow> 'r guarded_code) \<Rightarrow> 'r guarded_code" where
  "read_entry_code i u k = RLock (load (\<lambda>rm. vms_of (Cores rm ! i) u) (\<lambda>entry. RUnlock (k entry)))"

section \<open>Goroutines\<close>

text \<open>A goroutine calls these operations in any order and any number of times, with arguments that
  depend on the answers, and does other work, which holds no lock, in between.\<close>

datatype rm_call =
    CallSelect hardware_requirement
  | CallAllocate nat uuid vm_info hardware_requirement
  | CallDeallocate nat uuid hardware_requirement
  | CallRegister uuid nat vm_info
  | CallUnregister uuid
  | CallFind tx_env uuid
  | CallVmIP uuid
  | CallEntry nat uuid

datatype answer =
    Chosen "nat result"
  | Finished
  | Unregistered bool
  | Located "nat option"
  | VmIP "string result"
  | Entry "vm_info option"

datatype 'r goroutine =
    Exit 'r
  | Call rm_call "answer \<Rightarrow> 'r goroutine"
  | Work "main_db \<Rightarrow> main_db" "main_db \<Rightarrow> 'r goroutine"

fun call_code :: "rm_call \<Rightarrow> (answer \<Rightarrow> 'r guarded_code) \<Rightarrow> 'r guarded_code" where
  "call_code (CallSelect req) k = select_core_or_fail_code req (\<lambda>r. k (Chosen r))"
| "call_code (CallAllocate i u vm req) k = allocate_code i u vm req (k Finished)"
| "call_code (CallDeallocate i u req) k = deallocate_code i u req (k Finished)"
| "call_code (CallRegister u i vm) k = register_code u i vm (k Finished)"
| "call_code (CallUnregister u) k = unregister_code u (\<lambda>b. k (Unregistered b))"
| "call_code (CallFind e u) k = find_core_code e u (\<lambda>i. k (Located i))"
| "call_code (CallVmIP u) k = get_vm_ip_code u (\<lambda>r. k (VmIP r))"
| "call_code (CallEntry i u) k = read_entry_code i u (\<lambda>vm. k (Entry vm))"

primrec goroutine_code :: "'r goroutine \<Rightarrow> 'r guarded_code" where
  "goroutine_code (Exit r) = Done r"
| "goroutine_code (Call c k) = call_code c (\<lambda>a. goroutine_code (k a))"
| "goroutine_code (Work f k) = Outside f (\<lambda>db. goroutine_code (k db))"

lemma balanced_load [simp]: "balanced (load h k) m \<longleftrightarrow> m \<in> {Reading, Writing} \<and> (\<forall>rm. balanced (k (h rm)) m)"
  by (auto simp: load_def)

lemma balanced_store [simp]: "m = Writing \<Longrightarrow> balanced (store f c) m \<longleftrightarrow> balanced c m"
  by (simp add: store_def)

lemma balanced_scans:
  "(\<And>r. balanced (k r) Reading) \<Longrightarrow> balanced (select_scan req is r k) Reading"
  "balanced c Reading \<Longrightarrow> balanced (alive_scan is c) Reading"
  "(\<And>b. balanced (l b) Writing) \<Longrightarrow> balanced (unregister_scan u is l) Writing"
  by (induction "is" arbitrary: r) (auto simp: Let_def)

lemma balanced_call: "(\<And>a. balanced (k a) Free) \<Longrightarrow> balanced (call_code c k) Free"
  by (cases c)
    (auto simp: select_core_or_fail_code_def select_core_code_def allocate_code_def deallocate_code_def register_code_def
      unregister_code_def find_core_code_def get_vm_ip_code_def read_entry_code_def Let_def
      intro!: balanced_scans split: option.split result.split)

lemma balanced_goroutine: "balanced (goroutine_code g) Free"
  by (induction g) (auto intro: balanced_call)

section \<open>The same calls as atomic steps\<close>

fun call_thread :: "rm_call \<Rightarrow> (answer, resource_manager \<times> main_db) thread" where
  "call_thread (CallSelect req) =
     bind_thread (look (\<lambda>(rm, db). select_core req rm)) (\<lambda>r.
       case sel_Core r of
         Some i \<Rightarrow> Return (Chosen (Ok i))
       | None \<Rightarrow> bind_thread (if AliveCount r > 0 then look (\<lambda>_. ()) else Return ()) (\<lambda>_.
                   Return (Chosen (Fail ''CreateVM: no suitable core found''))))"
| "call_thread (CallAllocate i u vm req) = atom (\<lambda>(rm, db). (Finished, allocate_resources i u vm req rm, db))"
| "call_thread (CallDeallocate i u req) = atom (\<lambda>(rm, db). (Finished, deallocate_resources i u req rm, db))"
| "call_thread (CallRegister u i vm) = atom (\<lambda>(rm, db). (Finished, register_vm u i vm rm, db))"
| "call_thread (CallUnregister u) =
     atom (\<lambda>(rm, db). case unregister_alive u rm of (b, rm') \<Rightarrow> (Unregistered b, rm', db))"
| "call_thread (CallFind e u) =
     bind_thread (look (\<lambda>(rm, db). VMLocation rm u)) (\<lambda>cached.
       case cached of
         Some i \<Rightarrow> Return (Located (Some i))
       | None \<Rightarrow>
           bind_thread (look (\<lambda>(rm, db). get_instance_location e u db)) (\<lambda>r.
             case r of
               Ok k \<Rightarrow> atom (\<lambda>(rm, db).
                 if k < 0 \<or> int (length (Cores rm)) \<le> k then (Located None, rm, db)
                 else (Located (Some (nat k)), cache_location u (nat k) rm, db))
             | _ \<Rightarrow> Return (Located None)))"
| "call_thread (CallVmIP u) =
     look (\<lambda>(rm, db). VmIP (case VMLocation rm u of
        None \<Rightarrow> Fail (''UUID '' @ u @ '' not found in VMLocation'')
      | Some i \<Rightarrow>
          (case vms_of (Cores rm ! i) u of
             None \<Rightarrow> Fail (''VMInfo for UUID '' @ u @ '' not found in Core'')
           | Some vm \<Rightarrow> Ok (IP_VM vm))))"
| "call_thread (CallEntry i u) = look (\<lambda>(rm, db). Entry (vms_of (Cores rm ! i) u))"

primrec goroutine_thread :: "'r goroutine \<Rightarrow> ('r, resource_manager \<times> main_db) thread" where
  "goroutine_thread (Exit r) = Return r"
| "goroutine_thread (Call c k) = bind_thread (call_thread c) (\<lambda>a. goroutine_thread (k a))"
| "goroutine_thread (Work f k) = Step (\<lambda>(rm, db). (rm, f db)) (\<lambda>(rm, db). goroutine_thread (k db))"

section \<open>Each critical section does what the atomic operation does\<close>

lemma inside_load [simp]: "inside (load h k) rm = inside (k (h rm)) rm"
  by (simp add: load_def)

lemma inside_store [simp]: "inside (store f c) rm = inside c (f rm)"
  by (simp add: store_def)

lemma inside_select_scan:
  "n = length (Cores rm) \<Longrightarrow> i \<le> n \<Longrightarrow>
   inside (select_scan req [i..<n] r k) rm = inside (k (select_loop (drop i (Cores rm)) i req r)) rm"
proof (induction "n - i" arbitrary: i r)
  case (Suc d)
  then have i: "i < n" "drop i (Cores rm) = Cores rm ! i # drop (Suc i) (Cores rm)" "[i..<n] = i # [Suc i..<n]"
    by (simp_all add: Cons_nth_drop_Suc upt_rec)
  have IH: "inside (select_scan req [Suc i..<n] r k) rm = inside (k (select_loop (drop (Suc i) (Cores rm)) (Suc i) req r)) rm" for r
    using Suc i(1) by simp
  show ?case by (simp add: i(2,3) IH fits_def Let_def)
qed simp

lemma inside_alive_scan [simp]: "inside (alive_scan is c) rm = inside c rm"
  by (induction "is") simp_all

lemma inside_unregister_scan:
  "n = length (AliveVM rm) \<Longrightarrow> i \<le> n \<Longrightarrow>
   inside (unregister_scan u [i..<n] k) rm =
     (case unregister_loop u (drop i (AliveVM rm)) of (rest, found) \<Rightarrow>
        inside (k found) (rm\<lparr>AliveVM := take i (AliveVM rm) @ rest\<rparr>))"
proof (induction "n - i" arbitrary: i)
  case (Suc d)
  then have i: "i < n" "drop i (AliveVM rm) = AliveVM rm ! i # drop (Suc i) (AliveVM rm)" "[i..<n] = i # [Suc i..<n]"
    by (simp_all add: Cons_nth_drop_Suc upt_rec)
  have IH: "inside (unregister_scan u [Suc i..<n] k) rm =
      (case unregister_loop u (drop (Suc i) (AliveVM rm)) of (rest, found) \<Rightarrow>
         inside (k found) (rm\<lparr>AliveVM := take (Suc i) (AliveVM rm) @ rest\<rparr>))"
    using Suc i(1) by simp
  have "take (Suc i) (AliveVM rm) = take i (AliveVM rm) @ [AliveVM rm ! i]"
    using i(1) Suc(3) by (simp add: take_Suc_conv_app_nth)
  then show ?case by (simp add: i(2,3) IH split: prod.split)
qed simp

text \<open>A critical section that ends in \<open>g rm\<close> with the answer of \<open>g\<close>, and one that only reads.\<close>

lemma outside_lock:
  assumes "\<And>rm. inside c rm = (g rm, t (h rm))"
  shows "outside (Lock c) = bind_thread (atom (\<lambda>(rm, db). (h rm, g rm, db))) t"
  by (auto simp: section_step_def atom_def assms fun_eq_iff split_beta)

lemma outside_rlock:
  assumes "\<And>rm. inside c rm = (rm, t (h rm))"
  shows "outside (RLock c) = bind_thread (look (\<lambda>(rm, db). h rm)) t"
  by (auto simp: section_step_def look_def atom_def assms fun_eq_iff split_beta)

lemma outside_select:
  "outside (select_core_or_fail_code req k) =
     bind_thread (look (\<lambda>(rm, db). select_core req rm)) (\<lambda>r.
       case sel_Core r of
         Some i \<Rightarrow> outside (k (Ok i))
       | None \<Rightarrow> bind_thread (if AliveCount r > 0 then look (\<lambda>_. ()) else Return ()) (\<lambda>_.
                   outside (k (Fail ''CreateVM: no suitable core found''))))"
  (is "_ = bind_thread _ ?t")
proof -
  have diagnose: "outside (RLock (load (\<lambda>rm. length (Cores rm)) (\<lambda>n. alive_scan [0..<n] (RUnlock c)))) =
      bind_thread (look (\<lambda>_. ())) (\<lambda>_. outside c)" for c :: "'a guarded_code"
    by (auto simp: section_step_def look_def atom_def fun_eq_iff)
  show ?thesis
    unfolding select_core_or_fail_code_def select_core_code_def
    by (rule outside_rlock) (simp add: inside_select_scan select_core_def [symmetric] diagnose del: cut.simps(4) split: option.split)
qed

text \<open>The stores of one core after the other, through a pointer that stays in the slice.\<close>

lemma core_after [simp]:
  "on_core_at i f (on_core_at i g rm) = on_core_at i (\<lambda>c. f (g c)) rm"
  "h (Cores (on_core_at i g rm) ! i) = (if i < length (Cores rm) then h (g (Cores rm ! i)) else h (Cores rm ! i))"
  "\<not> i < length (Cores rm) \<Longrightarrow> on_core_at i f rm = rm"
  by (cases "i < length (Cores rm)"; simp add: on_core_at_def list_update_beyond)+

lemma outside_allocate:
  "outside (allocate_code i u vm req c) =
     bind_thread (atom (\<lambda>(rm, db). (Finished, allocate_resources i u vm req rm, db))) (\<lambda>_. outside c)"
proof -
  have core: "allocate_resources i u vm req rm = on_core_at i (alloc_core u vm req) rm" for rm
    by (simp add: allocate_resources_def on_core_at_def)
  show ?thesis
    unfolding allocate_code_def core
  proof (rule outside_lock, goal_cases)
    case (1 rm)
    show ?case
      by (cases "i < length (Cores rm)"; cases "VMInfoIdx (Cores rm ! i)")
        (simp_all add: Let_def, simp_all add: on_core_at_def alloc_core_def vms_of_def)
  qed
qed

lemma outside_deallocate:
  "outside (deallocate_code i u req c) =
     bind_thread (atom (\<lambda>(rm, db). (Finished, deallocate_resources i u req rm, db))) (\<lambda>_. outside c)"
proof -
  have core: "deallocate_resources i u req rm = on_core_at i (dealloc_core u req) rm" for rm
    by (simp add: deallocate_resources_def on_core_at_def)
  show ?thesis
    unfolding deallocate_code_def core
  proof (rule outside_lock, goal_cases)
    case (1 rm)
    show ?case
      by (cases "i < length (Cores rm)") (simp_all, simp_all add: on_core_at_def dealloc_core_def)
  qed
qed

lemma outside_register:
  "outside (register_code u i vm c) =
     bind_thread (atom (\<lambda>(rm, db). (Finished, register_vm u i vm rm, db))) (\<lambda>_. outside c)"
  unfolding register_code_def
  by (rule outside_lock) (simp add: register_vm_def)

lemma outside_unregister:
  "outside (unregister_code u k) =
     bind_thread (atom (\<lambda>(rm, db). case unregister_alive u rm of (b, rm') \<Rightarrow> (b, rm', db))) (\<lambda>b. outside (k b))"
proof -
  have "(\<lambda>(rm, db). case unregister_alive u rm of (b, rm') \<Rightarrow> (b, rm', db)) =
      (\<lambda>(rm, db :: main_db). (fst (unregister_alive u rm), snd (unregister_alive u rm), db))"
    by (simp add: fun_eq_iff split_beta)
  then show ?thesis
    unfolding unregister_code_def
    by (simp only:) (rule outside_lock, simp add: inside_unregister_scan unregister_alive_def split_beta)
qed

lemma outside_find:
  "outside (find_core_code e u k) =
     bind_thread (look (\<lambda>(rm, db). VMLocation rm u)) (\<lambda>cached.
       case cached of
         Some i \<Rightarrow> outside (k (Some i))
       | None \<Rightarrow>
           bind_thread (look (\<lambda>(rm, db). get_instance_location e u db)) (\<lambda>r.
             case r of
               Ok j \<Rightarrow> bind_thread (atom (\<lambda>(rm, db).
                 if j < 0 \<or> int (length (Cores rm)) \<le> j then (None, rm, db)
                 else (Some (nat j), cache_location u (nat j) rm, db))) (\<lambda>a. outside (k a))
             | _ \<Rightarrow> outside (k None)))"
proof -
  have update: "outside (Lock (load (\<lambda>rm. length (Cores rm)) (\<lambda>n.
        if j < 0 \<or> int n \<le> j then Unlock (k None) else store (cache_location u (nat j)) (Unlock (k (Some (nat j))))))) =
      bind_thread (atom (\<lambda>(rm, db). if j < 0 \<or> int (length (Cores rm)) \<le> j then (None, rm, db)
        else (Some (nat j), cache_location u (nat j) rm, db))) (\<lambda>a. outside (k a))" for j
    by (auto simp: section_step_def atom_def fun_eq_iff)
  have query: "outside (Outside (\<lambda>db. db) (\<lambda>db. case get_instance_location e u db of Ok j \<Rightarrow> c j | _ \<Rightarrow> c')) =
      bind_thread (look (\<lambda>(rm, db). get_instance_location e u db)) (\<lambda>r. case r of Ok j \<Rightarrow> outside (c j) | _ \<Rightarrow> outside c')"
    for c and c' :: "'a guarded_code"
    by (auto simp: look_def atom_def fun_eq_iff split: result.split)
  show ?thesis
    unfolding find_core_code_def
  proof (rule outside_rlock, goal_cases)
    case (1 rm)
    show ?case
      by (cases "VMLocation rm u") (simp_all only: inside_load option.case cut.simps(5) snd_conv query update)
  qed
qed

lemma outside_reads:
  "outside (get_vm_ip_code u k) =
     bind_thread (look (\<lambda>(rm, db). case VMLocation rm u of
        None \<Rightarrow> Fail (''UUID '' @ u @ '' not found in VMLocation'')
      | Some i \<Rightarrow>
          (case vms_of (Cores rm ! i) u of
             None \<Rightarrow> Fail (''VMInfo for UUID '' @ u @ '' not found in Core'')
           | Some vm \<Rightarrow> Ok (IP_VM vm)))) (\<lambda>r. outside (k r))"
  "outside (read_entry_code i u l) = bind_thread (look (\<lambda>(rm, db). vms_of (Cores rm ! i) u)) (\<lambda>vm. outside (l vm))"
  unfolding get_vm_ip_code_def read_entry_code_def
  by (rule outside_rlock, simp split: option.split)+

lemma bind_look_map: "bind_thread (look (\<lambda>(x, y). h (g x))) t = bind_thread (look (\<lambda>(x, y). g x)) (\<lambda>r. t (h r))"
  by (auto simp: look_def atom_def fun_eq_iff)

lemma outside_call: "outside (call_code c k) = bind_thread (call_thread c) (\<lambda>a. outside (k a))"
proof (cases c)
  case (CallSelect req)
  show ?thesis
    unfolding CallSelect call_code.simps call_thread.simps outside_select bind_thread_assoc
    by (intro arg_cong2 [where f = bind_thread] refl ext) (auto simp: bind_thread_assoc split: option.split)
next
  case (CallUnregister u)
  show ?thesis unfolding CallUnregister call_code.simps call_thread.simps outside_unregister
    by (auto simp: atom_def fun_eq_iff split: prod.split)
next
  case (CallFind e u)
  show ?thesis
    unfolding CallFind call_code.simps call_thread.simps outside_find bind_thread_assoc
    by (intro arg_cong2 [where f = bind_thread] refl ext)
      (auto simp: bind_thread_assoc atom_def fun_eq_iff split: option.split result.split intro!: arg_cong2 [where f = bind_thread])
next
  case (CallVmIP u)
  show ?thesis unfolding CallVmIP call_code.simps call_thread.simps outside_reads bind_look_map [where h = VmIP] ..
next
  case (CallEntry i u)
  show ?thesis unfolding CallEntry call_code.simps call_thread.simps outside_reads bind_look_map [where h = Entry] ..
qed (auto simp: outside_allocate outside_deallocate outside_register atom_def)

lemma outside_goroutine: "outside (goroutine_code g) = goroutine_thread g"
  by (induction g) (simp_all add: outside_call)

text \<open>The steps are those of the threads of requests.\<close>

abbreviation in_context :: "('r, resource_manager \<times> main_db) thread \<Rightarrow> ('r, control_context) thread" where
  "in_context \<equiv> zoom (\<lambda>w. (Resources w, MainDB w)) (\<lambda>(rm, db) w. w\<lparr>Resources := rm, MainDB := db\<rparr>)"

lemma request_steps:
  "in_context (call_thread (CallAllocate i u vm req)) =
     map_thread_result (\<lambda>_. Finished) (effect (on_resources (allocate_resources i u vm req)))"
  "in_context (call_thread (CallDeallocate i u req)) =
     map_thread_result (\<lambda>_. Finished) (effect (on_resources (deallocate_resources i u req)))"
  "in_context (call_thread (CallRegister u i vm)) =
     map_thread_result (\<lambda>_. Finished) (effect (on_resources (register_vm u i vm)))"
  "in_context (call_thread (CallFind e u)) = map_thread_result Located (find_core_thread e u)"
  "in_context (call_thread (CallVmIP u)) = map_thread_result VmIP (look (get_vm_ip_by_uuid u))"
  by (auto simp: atom_def look_def effect_def map_thread_result_def on_resources_def find_core_thread_def cache_step_def
      get_vm_ip_by_uuid_def fun_eq_iff split_beta split: option.split result.split)

lemma goroutines_rest:
  assumes "lturn\<^sup>*\<^sup>* ((free_mutex, rm, db), map goroutine_code gs) ((m, rm', db'), cs)"
    and "\<nexists>q. lturn ((m, rm', db'), cs) q"
  obtains rs where "m = free_mutex" "cs = map Done rs"
    "turn\<^sup>*\<^sup>* ((rm, db), map goroutine_thread gs) ((rm', db'), map Return rs)"
proof -
  have "m = free_mutex \<and> (\<exists>rs. cs = map Done rs \<and>
      turn\<^sup>*\<^sup>* ((rm, db), map outside (map goroutine_code gs)) ((rm', db'), map Return rs))"
    by (rule rest_is_done [OF _ assms]) (auto simp: balanced_goroutine)
  then show thesis using that by (auto simp: outside_goroutine comp_def)
qed

section \<open>Properties\<close>

text \<open>C37: the locking of the program cannot deadlock and forgets no lock. Whatever goroutines run the
  operations on the resource manager, in any order and number and with any other work between
  them, and however their accesses and their calls of the mutex interleave: at every moment either all have returned
  and the mutex is free, with no reader counted and no writer pending, or one of them can go on;
  and no execution goes on for ever. So every goroutine returns, whichever way it leaves
  \<open>FindCoreByVmUUID\<close>, and even though a pending writer keeps new readers out.\<close>

theorem goroutines_finish:
  assumes "lturn\<^sup>*\<^sup>* ((free_mutex, rm, db), map goroutine_code gs) ((m, rm', db'), cs)"
  shows "((\<exists>rs. cs = map Done rs \<and> m = free_mutex) \<or> (\<exists>q. lturn ((m, rm', db'), cs) q)) \<and>
    \<not> (\<exists>f. f 0 = ((m, rm', db'), cs) \<and> (\<forall>n. lturn (f n) (f (Suc n))))"
proof -
  have "(\<exists>rs. cs = map Done rs \<and> m = free_mutex) \<or> (\<exists>q. lturn ((m, rm', db'), cs) q)"
  proof (cases "\<exists>q. lturn ((m, rm', db'), cs) q")
    case False
    then show ?thesis by (rule goroutines_rest [OF assms]) blast
  qed simp
  moreover have "\<not> (\<forall>n. lturn (f n) (f (Suc n)))" for f :: "nat \<Rightarrow> _ \<times> 'a guarded_code list"
    by (rule no_endless_execution [unfolded not_ex, THEN spec])
  ultimately show ?thesis by simp
qed

text \<open>C11: the critical sections make the operations atomic. Where goroutines interleave access by access,
  with the load and the store of \<open>FreeMemory -= req.Memory\<close> as two steps and readers overlapping
  freely, the answers and the final resource manager and database are those of an interleaving in
  which every \<open>SelectCore\<close>, \<open>AllocateResources\<close>, \<open>DeallocateResources\<close>, \<open>RegisterVM\<close>, \<open>UnregisterAlive\<close>, each of
  the two halves of \<open>FindCoreByVmUUID\<close> and every other read is one indivisible step: no update is lost and no half-written core
  is seen. The theorems about threads of requests, which take these steps as atomic, are about
  the locking code.\<close>

theorem locked_calls_are_atomic:
  assumes "lturn\<^sup>*\<^sup>* ((free_mutex, rm, db), map goroutine_code gs) ((m, rm', db'), map Done rs)"
  shows "turn\<^sup>*\<^sup>* ((rm, db), map goroutine_thread gs) ((rm', db'), map Return rs)"
proof (rule goroutines_rest [OF assms done_rests])
  fix rs' :: "'a list"
  assume same: "map Done rs = map Done rs'"
    and turns: "turn\<^sup>*\<^sup>* ((rm, db), map goroutine_thread gs) ((rm', db'), map Return rs')"
  from same have "rs = rs'" by (rule map_injective) (simp add: inj_def)
  with turns show ?thesis by simp
qed

section \<open>Witnesses\<close>

text \<open>A lookup, a creation with its rollback and a shutdown at the same time.\<close>

definition demo_goroutines :: "answer goroutine list" where
  "demo_goroutines =
     [Call (CallFind no_faults ''vm-1'') Exit,
      Call (CallSelect demo_req) (\<lambda>a. Call (CallAllocate 1 ''vm-2'' demo_vm demo_req) (\<lambda>_.
        Call (CallDeallocate 1 ''vm-2'' demo_req) (\<lambda>_. Exit a))),
      Call (CallUnregister ''vm-1'') Exit]"

theorem goroutines_finish_witness:
  "\<exists>rm' db' rs. lturn\<^sup>*\<^sup>* ((free_mutex, demo_rm, empty_db), map goroutine_code demo_goroutines)
     ((free_mutex, rm', db'), map Done rs) \<and> length rs = 3"
proof -
  obtain m rm' db' cs where rest: "lturn\<^sup>*\<^sup>* ((free_mutex, demo_rm, empty_db), map goroutine_code demo_goroutines) ((m, rm', db'), cs)"
    "\<nexists>q. lturn ((m, rm', db'), cs) q"
    using reaches_rest by (metis prod.collapse)
  with goroutines_finish [OF rest(1)] obtain rs where "cs = map Done rs" "m = free_mutex" by blast
  moreover have "length cs = 3" using lturns_length [OF rest(1)] by (simp add: demo_goroutines_def)
  ultimately show ?thesis using rest(1) by auto
qed

theorem locked_calls_are_atomic_witness:
  "\<exists>rm' db' rs. lturn\<^sup>*\<^sup>* ((free_mutex, demo_rm, empty_db), map goroutine_code demo_goroutines)
       ((free_mutex, rm', db'), map Done rs) \<and>
     turn\<^sup>*\<^sup>* ((demo_rm, empty_db), map goroutine_thread demo_goroutines) ((rm', db'), map Return rs)"
proof -
  obtain m rm' db' cs where rest: "lturn\<^sup>*\<^sup>* ((free_mutex, demo_rm, empty_db), map goroutine_code demo_goroutines) ((m, rm', db'), cs)"
    "\<nexists>q. lturn ((m, rm', db'), cs) q"
    using reaches_rest by (metis prod.collapse)
  then obtain rs where rs: "cs = map Done rs" "m = free_mutex" by (rule goroutines_rest) blast
  with rest(1) have "lturn\<^sup>*\<^sup>* ((free_mutex, demo_rm, empty_db), map goroutine_code demo_goroutines) ((free_mutex, rm', db'), map Done rs)"
    by simp
  with locked_calls_are_atomic [OF this] show ?thesis by blast
qed

end
