(* ===== verification/Concurrency.thy ===== *)
theory Concurrency
  imports RequestThreads ServerProperties
begin

text \<open>
  What holds when requests overlap, in every order their steps can take: the invariants of the
  state, the answers at most one of several requests for the same VM can get, the number of
  steps, and what goes wrong when the steps of a status update and of a deletion mix.
\<close>

section \<open>Rules\<close>

text \<open>Rules for a sequence whose intermediate values need no assertion.\<close>

lemmas keeps_bind_any = keeps_bind [where p = "\<lambda>_. True"]
lemmas keeps_on_ok_any = keeps_on_ok [where p = "\<lambda>_. True"]

lemma keeps_any: "keeps I G q t \<Longrightarrow> keeps I G (\<lambda>_. True) t"
  by (rule keeps_mono) simp_all

lemma keeps_step: "(\<And>w. I w \<Longrightarrow> moves I G w (snd (f w))) \<Longrightarrow> keeps I G (\<lambda>_. True) (atom f)"
  by (rule keeps_atom) simp

lemma keeps_step_value: "(\<And>w. I w \<Longrightarrow> moves I G w (snd (f w))) \<Longrightarrow> keeps I G (on_value (\<lambda>_. True)) (atom f)"
  by (rule keeps_atom) simp

lemma keeps_map_any: "keeps I G (\<lambda>_. True) t \<Longrightarrow> keeps I G (\<lambda>_. True) (map_thread_result h t)"
  by (rule keeps_map)

lemma keeps_undo:
  assumes "\<And>f s. f \<in> set fs \<Longrightarrow> I s \<Longrightarrow> moves I G s (f s)"
  shows "i \<le> length fs \<Longrightarrow> keeps I G (\<lambda>_. True) (undo_thread fs i)"
proof (induction i)
  case (Suc i)
  then have "fs ! i \<in> set fs" by simp
  with assms Suc show ?case by (auto intro!: keeps_bind_any keeps_effect)
qed simp

definition chain_keeps :: "('s \<Rightarrow> bool) \<Rightarrow> ('s \<Rightarrow> 's \<Rightarrow> bool) \<Rightarrow> 's cleanup_chain \<Rightarrow> bool" where
  "chain_keeps I G chain \<longleftrightarrow> (\<forall>f \<in> set (steps chain). \<forall>w. I w \<longrightarrow> moves I G w (f w))"

lemma chain_keeps_push [simp]:
  "chain_keeps I G empty_chain"
  "chain_keeps I G (chain_push f chain) \<longleftrightarrow> (\<forall>w. I w \<longrightarrow> moves I G w (f w)) \<and> chain_keeps I G chain"
  by (auto simp: chain_keeps_def chain_push_def empty_chain_def)

lemma keeps_abort: "chain_keeps I G chain \<Longrightarrow> keeps I G (on_value (\<lambda>_. True)) (abort_thread chain err)"
  unfolding abort_thread_def by (intro keeps_bind_any keeps_undo) (auto simp: chain_keeps_def)

text \<open>The same of the server around the context.\<close>

definition in_server :: "(control_context \<Rightarrow> control_context \<Rightarrow> bool) \<Rightarrow> server \<Rightarrow> server \<Rightarrow> bool" where
  "in_server G s s' \<longleftrightarrow> G (sv_context s) (sv_context s')"

abbreviation keeps_server where
  "keeps_server I G \<equiv> keeps (\<lambda>s. I (sv_context s)) (in_server G)"

lemma keeps_context: "keeps I G q t \<Longrightarrow> keeps_server I G q (context_thread t)"
  unfolding context_thread_def by (erule keeps_zoom [rotated -1]) (simp_all add: in_server_def moves_def)

lemma keeps_once:
  assumes "\<And>w. G w w"
  shows "keeps_server I G (\<lambda>_. True) (once_thread f)" "keeps_server I G (on_value (\<lambda>_. True)) (once_thread g)"
  unfolding once_thread_def
  by (rule keeps_step keeps_step_value, simp add: assms in_server_def moves_def split: prod.split)+

lemma keeps_server_look:
  assumes "\<And>w. G w w"
  shows "keeps_server I G (\<lambda>_. True) (look f)" "keeps_server I G (on_value (\<lambda>_. True)) (look g)"
  by (simp_all add: keeps_look in_server_def assms)

lemma service_uuid [simp]: "in_UUID (to_service_input r) = ac_UUID r"
  by (simp add: to_service_input_def)

lemma keeps_reply: "keeps I G (on_value (\<lambda>_. True)) t \<Longrightarrow> keeps I G (\<lambda>_. True) (reply_thread status ok t)"
  unfolding reply_thread_def by (erule keeps_map) simp

lemma keeps_with_body:
  "(\<And>r. unmarshal fs zero (rq_body rq) = Ok r \<Longrightarrow> keeps I G (\<lambda>_. True) (k r)) \<Longrightarrow>
   keeps I G (\<lambda>_. True) (with_body_thread fs zero msg rq k)"
  by (simp add: with_body_thread_def bad_request_thread_def split: result.split)

lemmas handler_thread_defs =
  create_vm_handler_thread_def delete_vm_handler_thread_def start_vm_handler_thread_def
  shutdown_vm_handler_thread_def vm_status_handler_thread_def vm_connect_handler_thread_def
  redis_handler_thread_def vm_info_handler_thread_def take_snapshot_handler_thread_def
  list_snapshots_handler_thread_def delete_snapshot_handler_thread_def

section \<open>Requests and routes\<close>

definition creates :: "uuid \<Rightarrow> api_request \<Rightarrow> bool" where
  "creates u rq \<longleftrightarrow> rq_method rq = ''POST'' \<and> rq_path rq = ''/vm'' \<and>
     (case unmarshal api_create_fields zero_api_create (rq_body rq) of Ok r \<Rightarrow> ac_UUID r = u | _ \<Rightarrow> False)"

definition deletes :: "uuid \<Rightarrow> api_request \<Rightarrow> bool" where
  "deletes u rq \<longleftrightarrow> rq_method rq = ''DELETE'' \<and> rq_path rq = ''/vm'' \<and>
     unmarshal uuid_fields [] (rq_body rq) = Ok u"

section \<open>The contract of a step\<close>

text \<open>An invariant of the context and a relation that every step of every request respects, with what
  they say of the index of a core and of a document that a request holds between its steps.
  \<open>may_create\<close> and \<open>may_delete\<close> are the VMs a request may create and delete.\<close>

locale step_contract =
  fixes I :: "control_context \<Rightarrow> bool"
    and G :: "control_context \<Rightarrow> control_context \<Rightarrow> bool"
    and index_ok :: "nat \<Rightarrow> bool"
    and doc_ok :: "uuid \<Rightarrow> redis_vm_info \<Rightarrow> bool"
    and may_create :: "uuid \<Rightarrow> bool"
    and may_delete :: "uuid \<Rightarrow> bool"
  assumes refl: "G w w"
    and trans: "G w v \<Longrightarrow> G v v' \<Longrightarrow> G w v'"
    and last: "I w \<Longrightarrow> moves I G w (w\<lparr>Last_subnet := s\<rparr>)"
    and event: "I w \<Longrightarrow> moves I G w (record_event ev w)"
    and http: "I w \<Longrightarrow> moves I G w (record_http a rq w)"
    and subnet_row: "I w \<Longrightarrow> moves I G w (snd (update_subnet_row c s w))"
    and guac: "I w \<Longrightarrow> moves I G w (snd (guac_configure ge user u ip key w))"
    and guac_clean: "I w \<Longrightarrow> moves I G w (snd (guac_cleanup ce u w))"
    and store: "I w \<Longrightarrow> moves I G w (snd (redis_store re i t w))"
    and remove: "I w \<Longrightarrow> moves I G w (snd (redis_remove re u w))"
    and insert_row: "I w \<Longrightarrow> moves I G w (snd (repo_add te vm k w))"
    and delete_row: "I w \<Longrightarrow> may_delete u \<Longrightarrow> moves I G w (snd (repo_delete te u w))"
    and allocate: "I w \<Longrightarrow> VM_UUID vm = u \<Longrightarrow> may_create u \<Longrightarrow> moves I G w (on_resources (allocate_resources k u vm req) w)"
    and deallocate: "I w \<Longrightarrow> may_create u \<Longrightarrow> moves I G w (on_resources (deallocate_resources k u req) w)"
    and register: "I w \<Longrightarrow> index_ok k \<Longrightarrow> moves I G w (on_resources (register_vm u k vm) w)"
    and unregister: "I w \<Longrightarrow> moves I G w (on_resources (\<lambda>rm. snd (unregister_alive u rm)) w)"
    and cache: "I w \<Longrightarrow> index_ok k \<Longrightarrow> moves I G w (on_resources (cache_location u k) w)"
    and set_doc: "I w \<Longrightarrow> doc_ok u r \<Longrightarrow> wrapped m (redis_set re u (marshal_redis_vm_info r) (Redis w)) = (q, db) \<Longrightarrow>
      moves I G w (w\<lparr>Redis := db\<rparr>)"
    and location_ok: "I w \<Longrightarrow> VMLocation (Resources w) u = Some k \<Longrightarrow> index_ok k"
    and length_ok: "I w \<Longrightarrow> k < length (Cores (Resources w)) \<Longrightarrow> index_ok k"
    and load_ok: "I w \<Longrightarrow> load_vm_info re u (Redis w) = Ok r \<Longrightarrow> doc_ok u r"
    and status_ok: "doc_ok u r \<Longrightarrow> doc_ok u (r\<lparr>r_status := st, r_time := t\<rparr>)"
begin

lemma stay: "I w \<Longrightarrow> moves I G w w"
  by (simp add: moves_def refl)

lemma look_any: "keeps I G (\<lambda>_. True) (look g)" "keeps I G (on_value (\<lambda>_. True)) (look h)"
  by (simp_all add: keeps_look refl)

lemma cms: "I w \<Longrightarrow> moves I G w (snd (cms_new_instance e s w))"
  by (simp add: http)

lemma core_call: "core_create a k req w = (r, w') \<Longrightarrow> I w \<Longrightarrow> moves I G w w'"
  using core_create_eqs(2) [of a k req w] by (simp add: http)

lemmas steps_keep =
  last event http subnet_row guac guac_clean store remove insert_row delete_row allocate deallocate
  register unregister cache cms

lemma undo: "I w \<Longrightarrow> moves I G w (undo_guac e u w)"
  "I w \<Longrightarrow> may_create u \<Longrightarrow> moves I G w (undo_resources k u req w)"
  by (simp_all add: undo_guac_def undo_resources_def steps_keep)

lemma find_core: "keeps I G (\<lambda>r. \<forall>k. r = Some k \<longrightarrow> index_ok k) (find_core_thread e u)"
  unfolding find_core_thread_def
  by (rule keeps_bind [where p = "\<lambda>r. \<forall>k. r = Some k \<longrightarrow> index_ok k"])
    (auto intro!: keeps_look keeps_bind_any keeps_atom look_any stay simp: refl location_ok cache_step_def cache length_ok
      split: option.split result.split if_splits)

lemma with_core: "keeps I G (on_value index_ok) (with_core_thread err e u)"
  unfolding with_core_thread_def by (rule keeps_map [OF find_core]) (auto split: option.split)

lemma add_subnet: "keeps I G (on_value (\<lambda>_. True)) (add_cms_subnet_thread e u)"
  unfolding add_cms_subnet_thread_def
  by (intro keeps_on_ok_any keeps_wrapping look_any keeps_step_value steps_keep) simp_all

lemma request_reserved: "keeps I G (on_value (\<lambda>_. True)) (request_reserved_thread e old nxt)"
  unfolding request_reserved_thread_def
  by (intro keeps_bind_any keeps_effect keeps_step steps_keep; (assumption | clarsimp split: result.split)?)
    (auto intro!: keeps_bind_any keeps_effect keeps_step steps_keep split: result.split)

lemma new_subnet: "keeps I G (on_value (\<lambda>_. True)) (new_cms_subnet_thread e)"
  unfolding new_cms_subnet_thread_def
  by (auto intro!: keeps_bind_any keeps_on_ok_any keeps_wrapping look_any keeps_step_value steps_keep request_reserved)

lemma delete_subnet: "keeps I G (on_value (\<lambda>_. True)) (delete_cms_subnet_thread h a u)"
  unfolding delete_cms_subnet_thread_def
  by (auto intro!: keeps_bind_any keeps_on_ok_any keeps_wrapping look_any keeps_step_value steps_keep split: prod.split)

lemma allocate_subnet: "keeps I G (on_value (\<lambda>_. True)) (allocate_cms_subnet_thread e ty u)"
  unfolding allocate_cms_subnet_thread_def
  by (auto intro!: keeps_on_ok_any keeps_wrapping add_subnet new_subnet)

lemma launch_vm:
  assumes "chain_keeps I G chain" "index_ok k"
  shows "keeps I G (on_value (\<lambda>_. True)) (launch_vm_thread e inp k cms isNew key vm chain)"
  unfolding launch_vm_thread_def
  by (intro keeps_bind_any)
    (auto intro!: keeps_bind_any keeps_step keeps_effect keeps_map_any keeps_abort steps_keep assms
      split: prod.split result.split dest: core_call)

lemma place_vm: "index_ok k \<Longrightarrow> may_create (in_UUID inp) \<Longrightarrow> keeps I G (on_value (\<lambda>_. True)) (place_vm_thread e inp k cms isNew priv pub)"
  unfolding place_vm_thread_def Let_def
  by (intro keeps_bind_any)
    (auto intro!: keeps_bind_any keeps_step keeps_effect keeps_abort launch_vm steps_keep undo
      simp: new_vm_def split: result.split)

lemma create_vm:
  assumes "may_create (in_UUID inp)"
  shows "keeps I G (on_value (\<lambda>_. True)) (create_vm_thread e inp)"
  unfolding create_vm_thread_def
proof (rule keeps_on_ok [where p = index_ok])
  show "keeps I G (on_value index_ok) (look (select_core_or_fail (requirement_of inp)))"
    by (rule keeps_look) (auto simp: select_core_or_fail_def select_core_Some_iff length_ok refl split: option.split)
qed (auto intro!: keeps_on_ok_any keeps_wrapping allocate_subnet place_vm assms keeps_abort)

lemma call_core: "keeps I G (on_value (\<lambda>_. True)) (call_core_thread msg call k u a)"
  unfolding call_core_thread_def
  by (rule keeps_step_value) (auto simp: Let_def intro: steps_keep split: prod.split)

lemma move_on: "moves I G w v \<Longrightarrow> moves I G v v' \<Longrightarrow> moves I G w v'"
  by (auto simp: moves_def intro: trans)

lemma write_status:
  assumes "\<And>w. I w \<Longrightarrow> moves I G w (note_call w)" "I w" "doc_ok u r"
    "wrapped m (redis_set e u (marshal_redis_vm_info r) (Redis w)) = (q, db)"
  shows "moves I G w (note_call (w\<lparr>Redis := db\<rparr>))"
proof -
  have "moves I G w (w\<lparr>Redis := db\<rparr>)" using assms(2-4) by (rule set_doc)
  moreover from this have "moves I G (w\<lparr>Redis := db\<rparr>) (note_call (w\<lparr>Redis := db\<rparr>))"
    by (intro assms(1)) (simp add: moves_def)
  ultimately show ?thesis by (rule move_on)
qed

lemma update_status:
  assumes "\<And>w. I w \<Longrightarrow> moves I G w (note_call w)"
  shows "keeps I G (on_value (\<lambda>_. True)) (update_status_thread note_call e u st t)"
  unfolding update_status_thread_def
proof (rule keeps_bind [where p = "on_value (doc_ok u)"], goal_cases)
  case 1
  show ?case using assms by (intro keeps_atom) (auto simp: load_ok stay split: result.split)
next
  case (2 r)
  show ?case
  proof (rule keeps_on_ok [where p = "doc_ok u"])
    fix old :: redis_vm_info
    assume "doc_ok u old"
    then have "doc_ok u (old\<lparr>r_status := st, r_time := t\<rparr>)" by (rule status_ok)
    then show "keeps I G (on_value (\<lambda>_. True)) (atom (\<lambda>w.
        case wrapped ''failed to update vm status in redis''
               (redis_set e u (marshal_redis_vm_info (old\<lparr>r_status := st, r_time := t\<rparr>)) (Redis w)) of
          (q, db) \<Rightarrow> (q, note_call (w\<lparr>Redis := db\<rparr>))))"
      by (intro keeps_step_value)
        (auto split: prod.split intro: write_status [OF assms, where r = "old\<lparr>r_status := st, r_time := t\<rparr>"])
  qed (use 2 in simp)
qed

lemma delete_vm: "may_delete u \<Longrightarrow> keeps I G (on_value (\<lambda>_. True)) (delete_vm_thread e u)"
  unfolding delete_vm_thread_def
  by (rule keeps_on_ok [OF with_core])
    (auto intro!: keeps_on_ok_any keeps_bind_any call_core delete_subnet [THEN keeps_any]
      keeps_wrapping keeps_step_value keeps_step steps_keep)

lemma start_vm: "keeps I G (on_value (\<lambda>_. True)) (start_vm_thread e a u)"
  unfolding start_vm_thread_def by (rule keeps_on_ok [OF with_core]) (auto intro!: keeps_on_ok_any call_core)

lemma shutdown_vm: "keeps I G (on_value (\<lambda>_. True)) (shutdown_vm_thread e a re t u)"
  unfolding shutdown_vm_thread_def
  by (rule keeps_on_ok [OF with_core])
    (auto intro!: keeps_on_ok_any keeps_bind_any call_core keeps_effect update_status [THEN keeps_any] steps_keep)

lemma get_status: "keeps I G (on_value (\<lambda>_. True)) (get_vm_status_thread who what call e a u)"
  unfolding get_vm_status_thread_def by (rule keeps_on_ok [OF with_core]) (rule call_core)

lemma get_token: "keeps I G (on_value (\<lambda>_. True)) (get_guacamole_token_thread e a u)"
  unfolding get_guacamole_token_thread_def
  by (rule keeps_on_ok [OF with_core])
    (auto intro!: keeps_bind_any look_any keeps_wrapping keeps_step_value steps_keep split: option.split prod.split)

lemma handlers:
  assumes "(m, p, h) \<in> set route_threads"
    and "\<And>r. m = ''POST'' \<Longrightarrow> p = ''/vm'' \<Longrightarrow> unmarshal api_create_fields zero_api_create (rq_body rq) = Ok r \<Longrightarrow>
      may_create (ac_UUID r)"
    and "\<And>u. m = ''DELETE'' \<Longrightarrow> p = ''/vm'' \<Longrightarrow> unmarshal uuid_fields [] (rq_body rq) = Ok u \<Longrightarrow> may_delete u"
  shows "keeps_server I G (\<lambda>_. True) (h e rq)"
  using assms(1)
  by (auto simp: route_threads_def handler_thread_defs bad_request_thread_def take_snapshot_thread_def
      intro!: keeps_with_body keeps_reply keeps_context keeps_bind_any keeps_server_look keeps_on_ok_any
        keeps_wrapping keeps_once refl stay create_vm delete_vm assms(2,3) start_vm shutdown_vm get_status get_token
        update_status [THEN keeps_any] find_core [THEN keeps_any] split: result.split option.split)

lemma serve:
  assumes "\<And>u. creates u rq \<Longrightarrow> may_create u" "\<And>u. deletes u rq \<Longrightarrow> may_delete u"
  shows "keeps_server I G (\<lambda>_. True) (serve_thread e rq)"
proof (cases rule: serve_thread_cases [of rq e])
  case (routed m p h)
  have "keeps_server I G (\<lambda>_. True) (h e rq)"
  proof (rule handlers [OF routed(1)])
    fix r
    assume "m = ''POST''" "p = ''/vm''" "unmarshal api_create_fields zero_api_create (rq_body rq) = Ok r"
    with routed show "may_create (ac_UUID r)" by (intro assms(1)) (simp add: creates_def method_matches_def)
  next
    fix u
    assume "m = ''DELETE''" "p = ''/vm''" "unmarshal uuid_fields [] (rq_body rq) = Ok u"
    with routed show "may_delete u" by (intro assms(2)) (simp add: deletes_def method_matches_def)
  qed
  with routed(4) show ?thesis by (auto intro: keeps_map_any)
next
  case (unrouted rp)
  then show ?thesis by simp
qed

end

section \<open>Every step keeps the invariants\<close>

text \<open>The number of cores is fixed once the server has started; an index into the slice that a
  request holds stays good.\<close>

definition sound :: "nat \<Rightarrow> control_context \<Rightarrow> bool" where
  "sound n w \<longleftrightarrow> wf_context w \<and> length (Cores (Resources w)) = n"

named_theorems sound_intros \<open>steps keep the invariants\<close>

lemma sound_frame: "sound n w \<Longrightarrow> wf_context w' \<Longrightarrow> Resources w' = Resources w \<Longrightarrow> sound n w'"
  by (simp add: sound_def)

lemma sound_same_stores [sound_intros]:
  "sound n w \<Longrightarrow> sound n (w\<lparr>Last_subnet := s\<rparr>)"
  "sound n w \<Longrightarrow> sound n (record_event ev w)"
  "sound n w \<Longrightarrow> sound n (record_http a rq w)"
  by (simp_all add: sound_def wf_context_def)

lemma sound_ops [sound_intros]:
  assumes "sound n w"
  shows "sound n (snd (update_subnet_row c s w))" "sound n (snd (cms_new_instance se s w))"
    "sound n (snd (guac_configure ge user u ip key w))" "sound n (snd (guac_cleanup ce u w))"
    "sound n (snd (redis_store re i t w))" "sound n (snd (redis_remove re u w))"
    "sound n (snd (repo_add te vm i' w))" "sound n (snd (repo_delete te u w))"
    "sound n (snd (core_create a i' req w))"
proof -
  have wf: "wf_context w" using assms by (simp add: sound_def)
  show "sound n (snd (update_subnet_row c s w))" "sound n (snd (guac_configure ge user u ip key w))"
    "sound n (snd (guac_cleanup ce u w))" "sound n (snd (redis_store re i t w))"
    "sound n (snd (redis_remove re u w))" "sound n (snd (repo_add te vm i' w))"
    "sound n (snd (repo_delete te u w))"
    using wf by (auto intro!: sound_frame [OF assms] inv_intros)
  show "sound n (snd (cms_new_instance se s w))" "sound n (snd (core_create a i' req w))"
    using assms by (simp_all add: sound_intros core_create_eqs(2))
qed

lemma sound_resources:
  "sound n w \<Longrightarrow> wf_rm (f (Resources w)) \<Longrightarrow> length (Cores (f (Resources w))) = n \<Longrightarrow> sound n (on_resources f w)"
  by (simp add: sound_def wf_context_resources)

lemma sound_rm [sound_intros]:
  assumes "sound n w"
  shows "VM_UUID vm = u \<Longrightarrow> sound n (on_resources (allocate_resources i u vm req) w)"
    "sound n (on_resources (deallocate_resources i u req) w)"
    "i < n \<Longrightarrow> sound n (on_resources (register_vm u i vm) w)"
    "sound n (on_resources (\<lambda>rm. snd (unregister_alive u rm)) w)"
    "i < n \<Longrightarrow> sound n (on_resources (cache_location u i) w)"
  using assms
  by (auto intro!: sound_resources inv_intros simp: sound_def wf_context_def)
    (auto simp: wf_rm_def cache_location_def)

lemma sound_redis:
  assumes "sound n w" "r_uuid r = u" "wrapped m (redis_set e u (marshal_redis_vm_info r) (Redis w)) = (q, db)"
  shows "sound n (w\<lparr>Redis := db\<rparr>)"
proof -
  have "db = snd (redis_set e u (marshal_redis_vm_info r) (Redis w))"
    using assms(3) snd_wrapped [of m] by (metis snd_conv)
  with assms(1,2) wf_redis_put [of "Redis w" r u] show ?thesis
    by (cases "re_set e") (auto simp: sound_def wf_context_def redis_set_def redis_put_def redis_ok_def)
qed

lemma sound_location: "sound n w \<Longrightarrow> VMLocation (Resources w) u = Some i \<Longrightarrow> i < n"
  by (auto simp: sound_def wf_context_def wf_rm_def)

lemma sound_load: "sound n w \<Longrightarrow> load_vm_info e u (Redis w) = Ok r \<Longrightarrow> r_uuid r = u"
  by (auto simp: sound_def wf_context_def wf_redis_load)

interpretation soundness:
  step_contract "sound n" "\<lambda>_ _. True" "\<lambda>i. i < n" "\<lambda>u r. r_uuid r = u" "\<lambda>_. True" "\<lambda>_. True" for n
  by unfold_locales
    (auto simp: moves_def sound_intros intro: sound_redis sound_location sound_load
      simp: sound_def [THEN iffD1, THEN conjunct2])

text \<open>What every thread of the server keeps holds after any number of turns.\<close>

lemma serve_pool_nth: "i < length rqs \<Longrightarrow> serve_pool rqs ! i = serve_thread (fst (rqs ! i)) (snd (rqs ! i))"
  by (simp add: serve_pool_def split_beta)

lemma length_serve_pool [simp]: "length (serve_pool rqs) = length rqs"
  by (simp add: serve_pool_def)

text \<open>C3: from the moment the server has started on sound stores, any number of requests that run at
  the same time, in every interleaving of their steps and with every outcome of the calls they make,
  keep all the invariants of the state, and the slice of cores keeps its length, so that no request
  ever indexes it out of range.\<close>

theorem concurrent_requests_keep_invariants:
  assumes "main_start e re db guac redis = Ok (cfg, w)" "wf_db db" "wf_guac guac" "wf_redis redis"
    and "turn\<^sup>*\<^sup>* (fresh_server w, serve_pool rqs) (s', ts')"
  shows "wf_context (sv_context s') \<and> length (Cores (Resources (sv_context s'))) = length (Cores (Resources w))"
proof -
  let ?n = "length (Cores (Resources w))"
  have "sound ?n (sv_context (fresh_server w))"
    using main_start_wf(1) [OF assms(1-4)] by (simp add: sound_def fresh_server_def)
  then have "sound ?n (sv_context s')"
    by (rule kept.pool_rule(1) [where G = "\<lambda>_. in_server (\<lambda>_ _. True)" and q = "\<lambda>_ _. True", OF assms(5)]) (simp add: serve_pool_nth soundness.serve)
  then show ?thesis by (simp add: sound_def)
qed

section \<open>Sequences of requests are schedules\<close>

fun serve_replies :: "(api_env \<times> api_request) list \<Rightarrow> server \<Rightarrow> http_reply option list" where
  "serve_replies [] s = []"
| "serve_replies ((e, rq) # rqs) s = fst (serve e rq s) # serve_replies rqs (snd (serve e rq s))"

lemma turns_Cons:
  assumes "turn\<^sup>*\<^sup>* (s, ts) (s', ts')"
  shows "turn\<^sup>*\<^sup>* (s, t # ts) (s', t # ts')"
  using assms
proof (induction rule: rtranclp_induct2)
  case (step s1 ts1 s2 ts2)
  from step.hyps(2) obtain i f k where "i < length ts1" "ts1 ! i = Step f k" "s2 = f s1" "ts2 = ts1[i := k s1]"
    by (auto elim: turnE)
  then have "turn (s1, t # ts1) (s2, t # ts2)"
    using turn.intros [of "Suc i" "t # ts1" f k s1] by simp
  with step.IH show ?case by (rule rtranclp.rtrancl_into_rtrancl)
qed simp

lemma sequence_turns: "turn\<^sup>*\<^sup>* (s, serve_pool rqs) (serve_all rqs s, map Return (serve_replies rqs s))"
proof (induction rqs arbitrary: s)
  case (Cons c rqs)
  obtain e rq where c: "c = (e, rq)" by (cases c)
  have "turn\<^sup>*\<^sup>* (s, serve_pool (c # rqs)) (snd (serve e rq s), Return (fst (serve e rq s)) # serve_pool rqs)"
    using turns_solo [of 0 "serve_pool (c # rqs)" s "serve_thread e rq"]
    by (simp add: serve_pool_def c run_serve_thread)
  moreover have "turn\<^sup>*\<^sup>* (snd (serve e rq s), Return (fst (serve e rq s)) # serve_pool rqs)
      (serve_all rqs (snd (serve e rq s)),
       Return (fst (serve e rq s)) # map Return (serve_replies rqs (snd (serve e rq s))))"
    by (rule turns_Cons [OF Cons.IH])
  ultimately show ?case by (simp add: c serve_all_def serve_step_def)
qed (simp add: serve_pool_def serve_all_def)

text \<open>The threads are the handlers: run without interruption, the thread of a request gives the
  reply and the state that the handler gives, and handling a list of requests one after the other
  is one of the interleavings of their threads.\<close>

theorem threads_implement_handlers:
  "run (serve_thread e rq) s = serve e rq s \<and>
   turn\<^sup>*\<^sup>* (s, serve_pool rqs) (serve_all rqs s, map Return (serve_replies rqs s))"
  by (simp add: run_serve_thread sequence_turns)

theorem concurrent_requests_keep_invariants_witness:
  "\<exists>cfg w s' ts'. main_start demo_startup_env redis_ok empty_db empty_guac Map.empty = Ok (cfg, w) \<and>
     turn\<^sup>*\<^sup>* (fresh_server w, serve_pool [(demo_api_env, post_vm demo_body), (demo_api_env, info_request ''vm-1'')])
       (s', map Return ts') \<and> length ts' = 2 \<and> wf_context (sv_context s')"
proof -
  let ?rqs = "[(demo_api_env, post_vm demo_body), (demo_api_env, info_request ''vm-1'')]"
  obtain cfg w where start: "main_start demo_startup_env redis_ok empty_db empty_guac Map.empty = Ok (cfg, w)"
    using demo_start by blast
  have turns: "turn\<^sup>*\<^sup>* (fresh_server w, serve_pool ?rqs)
      (serve_all ?rqs (fresh_server w), map Return (serve_replies ?rqs (fresh_server w)))"
    by (rule sequence_turns)
  have "wf_redis Map.empty" by (simp add: wf_redis_def)
  from concurrent_requests_keep_invariants [OF start wf_empty_db wf_empty_guac this turns]
  have "wf_context (sv_context (serve_all ?rqs (fresh_server w)))" by simp
  moreover have "length (serve_replies ?rqs (fresh_server w)) = 2" by simp
  ultimately show ?thesis using start turns by blast
qed

end
