(* ===== verification/SubnetSupply.thy ===== *)
theory SubnetSupply
  imports ControlContext
begin

text \<open>
  What a history of \<open>NewCmsSubnet\<close> calls hands out, with every failure of the database and of
  the CMS between them. The argument rests on the interface \<open>subnet_supply\<close>, interpreted on
  \<open>FindSubnet\<close> as \<open>net\<close>.
\<close>

lemma update_subnet_row_eqs:
  "fst (update_subnet_row c s w) = (case c of Committed \<Rightarrow> Ok () | CommitFailed m \<Rightarrow> Fail m | CommitLost m \<Rightarrow> Fail m)"
  "last_subnet (MainDB (snd (update_subnet_row c s w))) =
     (case c of CommitFailed _ \<Rightarrow> last_subnet (MainDB w) | _ \<Rightarrow> s)"
  by (cases c; simp add: update_subnet_row_def)+

lemma cms_new_instance_last [simp]:
  "Last_subnet (snd (cms_new_instance e s w)) = Last_subnet w"
  "MainDB (snd (cms_new_instance e s w)) = MainDB w"
  by simp_all

lemma cms_new_instance_not_Panic: "fst (cms_new_instance e s w) \<noteq> Panic"
  using unmarshal_not_Panic [of cms_response_fields zero_cms_response]
  by (simp add: cms_new_instance_def request_new_instance_def cms_answer_def
      split: http_outcome.split result.split)

lemma request_reserved_cases:
  assumes "request_reserved e old nxt w = (r, w')"
  obtains (granted) "is_ok r" "Last_subnet w' = nxt" "MainDB w' = MainDB w"
  | (restored) "\<not> is_ok r" "ns_rollback e = Committed" "Last_subnet w' = old" "last_subnet (MainDB w') = old"
  | (stuck) "\<not> is_ok r" "ns_rollback e \<noteq> Committed" "Last_subnet w' = nxt"
      "last_subnet (MainDB w') = (case ns_rollback e of CommitFailed _ \<Rightarrow> last_subnet (MainDB w) | _ \<Rightarrow> old)"
proof -
  obtain q w1 where q: "cms_new_instance e nxt (w\<lparr>Last_subnet := nxt\<rparr>) = (q, w1)" by fastforce
  then have "w1 = snd (cms_new_instance e nxt (w\<lparr>Last_subnet := nxt\<rparr>))" by simp
  then have w1: "Last_subnet w1 = nxt" "MainDB w1 = MainDB w" by simp_all
  obtain p w2 where p: "update_subnet_row (ns_rollback e) old w1 = (p, w2)" by fastforce
  then have p': "p = fst (update_subnet_row (ns_rollback e) old w1)"
    and w2: "w2 = snd (update_subnet_row (ns_rollback e) old w1)" by simp_all
  show thesis
  proof (cases q)
    case (Ok x)
    with assms q have "r = Ok x" "w' = w1" by (simp_all add: request_reserved_def)
    with w1 show thesis by (intro granted) simp_all
  next
    case (Fail err)
    show thesis
    proof (cases "ns_rollback e = Committed")
      case True
      with p' have "p = Ok ()" by (simp add: update_subnet_row_eqs)
      with assms q p Fail have "\<not> is_ok r" "w' = w2\<lparr>Last_subnet := old\<rparr>"
        by (auto simp: request_reserved_def)
      with True show thesis by (intro restored) (simp_all add: w2 update_subnet_row_eqs)
    next
      case False
      with p' obtain m where "p = Fail m" by (cases "ns_rollback e") (auto simp: update_subnet_row_eqs)
      with assms q p Fail have "\<not> is_ok r" "w' = w2" by (auto simp: request_reserved_def)
      with False w1 show thesis
        by (cases "ns_rollback e") (simp_all add: w2 update_subnet_row_eqs stuck)
    qed
  next
    case Panic
    with q cms_new_instance_not_Panic [of e nxt "w\<lparr>Last_subnet := nxt\<rparr>"] show thesis by simp
  qed
qed

lemma new_cms_subnet_cases:
  assumes "find_subnet (Last_subnet w) = Ok nxt" "new_cms_subnet e w = (r, w')"
  obtains (granted) "is_ok r" "ns_reserve e = Committed" "Last_subnet w' = nxt" "last_subnet (MainDB w') = nxt"
  | (unreserved) "\<not> is_ok r" "ns_reserve e \<noteq> Committed" "Last_subnet w' = Last_subnet w"
      "last_subnet (MainDB w') = (case ns_reserve e of CommitLost _ \<Rightarrow> nxt | _ \<Rightarrow> last_subnet (MainDB w))"
  | (restored) "\<not> is_ok r" "ns_reserve e = Committed" "ns_rollback e = Committed"
      "Last_subnet w' = Last_subnet w" "last_subnet (MainDB w') = Last_subnet w"
  | (stuck) "\<not> is_ok r" "ns_reserve e = Committed" "ns_rollback e \<noteq> Committed" "Last_subnet w' = nxt"
      "last_subnet (MainDB w') = (case ns_rollback e of CommitFailed _ \<Rightarrow> nxt | _ \<Rightarrow> Last_subnet w)"
proof -
  obtain p w1 where p: "update_subnet_row (ns_reserve e) nxt w = (p, w1)" by fastforce
  then have p': "p = fst (update_subnet_row (ns_reserve e) nxt w)"
    and w1: "w1 = snd (update_subnet_row (ns_reserve e) nxt w)" by simp_all
  show thesis
  proof (cases "ns_reserve e = Committed")
    case True
    with p' have "p = Ok ()" by (simp add: update_subnet_row_eqs)
    with assms p have "request_reserved e (Last_subnet w) nxt w1 = (r, w')"
      by (simp add: new_cms_subnet_def)
    then show thesis
    proof (cases rule: request_reserved_cases)
      case granted
      with True that(1) show thesis by (simp add: w1 update_subnet_row_eqs)
    next
      case restored
      with True that(3) show thesis by simp
    next
      case stuck
      with True that(4) show thesis by (simp add: w1 update_subnet_row_eqs cong: commit_result.case_cong)
    qed
  next
    case False
    with p' obtain m where "p = Fail m" by (cases "ns_reserve e") (auto simp: update_subnet_row_eqs)
    with assms p have "\<not> is_ok r" "w' = w1" by (auto simp: new_cms_subnet_def)
    with False that(2) show thesis
      by (cases "ns_reserve e") (simp_all add: w1 update_subnet_row_eqs)
  qed
qed

section \<open>Histories of allocations\<close>

text \<open>The prefix a request asks the CMS for, read from its document.\<close>

definition asked_subnet :: "event \<Rightarrow> string option" where
  "asked_subnet ev =
     (case ev of
        HttpCall rq \<Rightarrow>
          (case q_body rq of
             JsonBody (JObj [(k, JStr p)]) \<Rightarrow> if q_method rq = ''POST'' \<and> k = ''Subnet'' then Some p else None
           | _ \<Rightarrow> None)
      | _ \<Rightarrow> None)"

definition subnets_asked :: "control_context \<Rightarrow> control_context \<Rightarrow> string list" where
  "subnets_asked w w' = List.map_filter asked_subnet (drop (length (trace w)) (trace w'))"

text \<open>The prefixes that were asked for and granted, in order.\<close>

fun granted :: "subnet_env list \<Rightarrow> control_context \<Rightarrow> string list" where
  "granted [] w = []"
| "granted (e # es) w =
     (case new_cms_subnet e w of
        (r, w') \<Rightarrow> (if is_ok r then subnets_asked w w' else []) @ granted es w')"

lemma asked_subnet_simps [simp]:
  "asked_subnet (SubnetWrite s) = None"
  "asked_subnet (HttpCall (fst (request_new_instance h p a))) = Some p"
  by (simp_all add: asked_subnet_def request_new_instance_def cms_request_def)

definition cms_grants :: "subnet_env \<Rightarrow> string \<Rightarrow> bool" where
  "cms_grants e p \<longleftrightarrow> is_ok (snd (request_new_instance (cms_host (ns_host e)) p (ns_cms e)))"

lemma cms_new_instance_fst:
  "fst (cms_new_instance e p w) = snd (request_new_instance (cms_host (ns_host e)) p (ns_cms e))"
  by (simp add: cms_new_instance_def split: prod.split)

lemma cms_grants_sent: "cms_grants e p \<Longrightarrow> ns_cms e \<noteq> NotBuilt m"
  by (auto simp: cms_grants_def request_new_instance_def cms_answer_def)

lemma request_reserved_ok:
  assumes "request_reserved e old nxt w = (r, w')"
  shows "is_ok r \<longleftrightarrow> cms_grants e nxt"
    "is_ok r \<Longrightarrow> w' = snd (cms_new_instance e nxt (w\<lparr>Last_subnet := nxt\<rparr>))"
proof -
  obtain q w1 where q: "cms_new_instance e nxt (w\<lparr>Last_subnet := nxt\<rparr>) = (q, w1)" by fastforce
  obtain p w2 where p: "update_subnet_row (ns_rollback e) old w1 = (p, w2)" by fastforce
  have "is_ok q \<longleftrightarrow> cms_grants e nxt"
    using cms_new_instance_fst [of e nxt "w\<lparr>Last_subnet := nxt\<rparr>"] q by (simp add: cms_grants_def)
  moreover have "(is_ok r \<longleftrightarrow> is_ok q) \<and> (is_ok r \<longrightarrow> w' = w1)"
    using assms q p by (cases q; cases p) (auto simp: request_reserved_def)
  ultimately show "is_ok r \<longleftrightarrow> cms_grants e nxt"
    "is_ok r \<Longrightarrow> w' = snd (cms_new_instance e nxt (w\<lparr>Last_subnet := nxt\<rparr>))"
    using q by simp_all
qed

lemma new_cms_subnet_grants:
  assumes "find_subnet (Last_subnet w) = Ok nxt" "new_cms_subnet e w = (r, w')"
  shows "is_ok r \<longleftrightarrow> ns_reserve e = Committed \<and> cms_grants e nxt"
    and "is_ok r \<Longrightarrow> subnets_asked w w' = [nxt]"
proof -
  define w1 where "w1 = snd (update_subnet_row (ns_reserve e) nxt w)"
  have "(is_ok r \<longleftrightarrow> ns_reserve e = Committed \<and> cms_grants e nxt) \<and> (is_ok r \<longrightarrow> subnets_asked w w' = [nxt])"
  proof (cases "ns_reserve e = Committed")
    case True
    then have "update_subnet_row (ns_reserve e) nxt w = (Ok (), w1)"
      by (simp add: w1_def prod_eq_iff update_subnet_row_eqs)
    with assms have "request_reserved e (Last_subnet w) nxt w1 = (r, w')" by (simp add: new_cms_subnet_def)
    note ok = request_reserved_ok [OF this]
    have "subnets_asked w w' = [nxt]" if "is_ok r"
    proof -
      have "\<forall>m. ns_cms e \<noteq> NotBuilt m" using ok(1) that by (simp add: cms_grants_sent)
      with ok that show ?thesis
        by (cases "ns_cms e") (simp_all add: subnets_asked_def w1_def List.map_filter_def)
    qed
    with ok(1) True show ?thesis by simp
  next
    case False
    with assms have "\<not> is_ok r" by (cases rule: new_cms_subnet_cases) auto
    with False show ?thesis by simp
  qed
  then show "is_ok r \<longleftrightarrow> ns_reserve e = Committed \<and> cms_grants e nxt" "is_ok r \<Longrightarrow> subnets_asked w w' = [nxt]"
    by blast+
qed

text \<open>Once the string \<open>err\<close> is the last subnet, every call panics.\<close>

lemma find_subnet_err: "find_subnet ''err'' = Panic"
  by (simp add: find_subnet_panic_iff)

lemma usable_last_bound:
  assumes "usable_last s"
  shows "last_no s \<le> 16777215" "s \<noteq> ''err''" "last_no s = 16777215 \<Longrightarrow> find_subnet s = Ok ''err''"
proof -
  obtain n rest where n: "wf_subnet n" "s = subnet_str n @ rest" using assms by (auto simp: usable_last_def)
  then have no: "last_no s = subnet_no n" by simp
  from n(1) show "last_no s \<le> 16777215"
    by (cases n) (simp add: no wf_subnet_def subnet_no_def)
  show "s \<noteq> ''err''"
  proof
    assume "s = ''err''"
    then have "find_subnet s = Panic" by (simp add: find_subnet_err)
    moreover have "find_subnet s \<noteq> Panic"
      unfolding n(2) using find_subnet_wf [OF n(1), of rest] by (simp split: if_splits)
    ultimately show False by simp
  qed
  assume "last_no s = 16777215"
  with n(1) have "n = last_of_all" by (simp add: no subnet_no_max)
  with n show "find_subnet s = Ok ''err''" using find_subnet_wf [OF n(1), of rest] by simp
qed

lemma granted_err: "Last_subnet w = ''err'' \<Longrightarrow> granted es w = []"
  by (induction es arbitrary: w) (simp_all add: new_cms_subnet_def find_subnet_err)

section \<open>Properties\<close>

text \<open>C6: whatever calls of \<open>NewCmsSubnet\<close> fail in whatever way (reservation, CMS, rollback), the
  prefixes the CMS was asked for and granted, one after the other, are usable /24 prefixes with
  strictly increasing numbers above the starting one, so no prefix is ever granted twice. When the
  numbers have run out, the string \<open>err\<close> may be granted once at the very end; the calls after it
  panic and are granted nothing.\<close>

theorem granted_subnets_increase:
  assumes "usable_last (Last_subnet w)"
  shows "\<exists>ps. granted es w \<in> {ps, ps @ [''err'']} \<and> sorted_wrt (<) (map last_no ps) \<and>
    list_all (\<lambda>p. usable_last p \<and> last_no (Last_subnet w) < last_no p) ps \<and> distinct (granted es w)"
proof -
  have "\<exists>ps. granted es w \<in> {ps, ps @ [''err'']} \<and> sorted_wrt (<) (map last_no ps) \<and>
    list_all (\<lambda>p. usable_last p \<and> last_no (Last_subnet w) < last_no p) ps"
    using assms
  proof (induction es arbitrary: w)
    case (Cons e es)
    note bound = usable_last_bound [OF Cons.prems]
    obtain r w' where run: "new_cms_subnet e w = (r, w')" by fastforce
    show ?case
    proof (cases "last_no (Last_subnet w) = 16777215")
      case True
      then have nxt: "find_subnet (Last_subnet w) = Ok ''err''" by (rule bound(3))
      show ?thesis
      proof (cases "Last_subnet w' = ''err''")
        case True
        with new_cms_subnet_grants [OF nxt run] run have "granted (e # es) w \<in> {[], [''err'']}"
          by (simp add: granted_err)
        then show ?thesis by (intro exI [of _ "[]"]) simp
      next
        case False
        with nxt run have "\<not> is_ok r" "Last_subnet w' = Last_subnet w"
          by (cases rule: new_cms_subnet_cases; simp)+
        with Cons.IH [of w'] Cons.prems run show ?thesis by simp
      qed
    next
      case False
      with bound(1) have "last_no (Last_subnet w) < 16777215" by simp
      then obtain nxt where nxt: "find_subnet (Last_subnet w) = Ok nxt" "usable_last nxt"
        "last_no nxt = Suc (last_no (Last_subnet w))"
        using net.step_usable [OF Cons.prems] by blast
      have last: "is_ok r \<and> Last_subnet w' = nxt \<or> \<not> is_ok r \<and> Last_subnet w' \<in> {Last_subnet w, nxt}"
        using nxt(1) run by (cases rule: new_cms_subnet_cases) auto
      then have "usable_last (Last_subnet w')" "last_no (Last_subnet w) \<le> last_no (Last_subnet w')"
        using nxt Cons.prems by auto
      with Cons.IH obtain ps where ps: "granted es w' \<in> {ps, ps @ [''err'']}" "sorted_wrt (<) (map last_no ps)"
        "list_all (\<lambda>p. usable_last p \<and> last_no (Last_subnet w') < last_no p) ps" by blast
      then have above: "list_all (\<lambda>p. usable_last p \<and> last_no (Last_subnet w) < last_no p) ps"
        using \<open>last_no (Last_subnet w) \<le> last_no (Last_subnet w')\<close> by (auto simp: list_all_iff)
      show ?thesis
      proof (cases "is_ok r")
        case True
        with new_cms_subnet_grants(2) [OF nxt(1) run] run have "granted (e # es) w = nxt # granted es w'" by simp
        moreover have "Last_subnet w' = nxt" using True last by simp
        ultimately show ?thesis
          using ps above nxt(2,3) by (intro exI [of _ "nxt # ps"]) (auto simp: list_all_iff)
      next
        case False
        with run have "granted (e # es) w = granted es w'" by simp
        with ps above show ?thesis by (intro exI [of _ ps]) simp
      qed
    qed
  qed simp
  then obtain ps where ps: "granted es w \<in> {ps, ps @ [''err'']}" "sorted_wrt (<) (map last_no ps)"
    "list_all (\<lambda>p. usable_last p \<and> last_no (Last_subnet w) < last_no p) ps" by blast
  have "distinct ps" using ps(2) strict_sorted_iff distinct_map by blast
  moreover have "''err'' \<notin> set ps" using ps(3) usable_last_bound(2) by (auto simp: list_all_iff)
  ultimately have "distinct (granted es w)" using ps(1) by auto
  with ps show ?thesis by blast
qed

text \<open>C15: \<open>NewCmsSubnet\<close> succeeds exactly when the reservation of the next prefix and the request to the
  CMS do; then memory and database hold the prefix the CMS was asked for. When it fails and the
  statements it ran were committed, the reservation is rolled back in both: the last subnet in memory
  is the old one, and the database has the old one again or was not touched. Only a rollback that
  itself fails leaves the new prefix in memory, and an UPDATE that took effect behind an error
  leaves it in the database. Nothing else of the state changes.\<close>

theorem new_cms_subnet_outcome:
  assumes "find_subnet (Last_subnet w) = Ok nxt" "new_cms_subnet e w = (r, w')"
  shows "same_but_subnet w w' \<and>
    (is_ok r \<longleftrightarrow> ns_reserve e = Committed \<and> cms_grants e nxt) \<and>
    (if is_ok r then subnets_asked w w' = [nxt] \<and> Last_subnet w' = nxt \<and> last_subnet (MainDB w') = nxt
     else Last_subnet w' = (if ns_reserve e = Committed \<and> ns_rollback e \<noteq> Committed then nxt else Last_subnet w) \<and>
       last_subnet (MainDB w') =
         (case ns_reserve e of
            CommitFailed _ \<Rightarrow> last_subnet (MainDB w)
          | CommitLost _ \<Rightarrow> nxt
          | Committed \<Rightarrow> (case ns_rollback e of CommitFailed _ \<Rightarrow> nxt | _ \<Rightarrow> Last_subnet w)))"
proof -
  have "same_but_subnet w w'" using new_cms_subnet_frame [of w e] assms(2) by simp
  moreover note new_cms_subnet_grants [OF assms]
  moreover have "if is_ok r then Last_subnet w' = nxt \<and> last_subnet (MainDB w') = nxt
     else Last_subnet w' = (if ns_reserve e = Committed \<and> ns_rollback e \<noteq> Committed then nxt else Last_subnet w) \<and>
       last_subnet (MainDB w') =
         (case ns_reserve e of
            CommitFailed _ \<Rightarrow> last_subnet (MainDB w)
          | CommitLost _ \<Rightarrow> nxt
          | Committed \<Rightarrow> (case ns_rollback e of CommitFailed _ \<Rightarrow> nxt | _ \<Rightarrow> Last_subnet w))"
    using assms by (cases rule: new_cms_subnet_cases) (auto split: commit_result.splits)
  ultimately show ?thesis by auto
qed

definition subnet_demo :: control_context where
  "subnet_demo = \<lparr>Resources = demo_rm, MainDB = empty_db, GuacDB = None, Redis = Map.empty,
     Last_subnet = ''10.0.0.'', GuacBaseURL = [], trace = []\<rparr>"

definition subnet_up :: subnet_env where
  "subnet_up = \<lparr>ns_host = [],
     ns_cms = Answered \<lparr>h_status = 200, h_status_text = ''200 OK'', h_raw = [], h_body = Doc (JObj [])\<rparr>,
     ns_reserve = Committed, ns_rollback = Committed\<rparr>"

definition subnet_down :: subnet_env where
  "subnet_down = \<lparr>ns_host = [], ns_cms = NotSent ''timeout'', ns_reserve = Committed, ns_rollback = Committed\<rparr>"

lemma demo_prefix: "find_subnet ''10.0.0.'' = Ok ''10.0.1.''" "find_subnet ''10.0.1.'' = Ok ''10.0.2.''"
  "usable_last ''10.0.0.''"
proof -
  have two: "digit_char (Suc (Suc 0)) = CHR ''2''" by code_simp
  have s: "subnet_str (Subnet 10 0 0) = ''10.0.0.''" "subnet_str (Subnet 10 0 1) = ''10.0.1.''"
    by (simp_all add: subnet_str_def nat_digits.simps go_simps)
  show "find_subnet ''10.0.0.'' = Ok ''10.0.1.''" "find_subnet ''10.0.1.'' = Ok ''10.0.2.''"
    using find_subnet_wf [of "Subnet 10 0 0" "[]"] find_subnet_wf [of "Subnet 10 0 1" "[]"]
    by (simp_all add: s wf_subnet_def last_of_all_def)
      (simp_all add: subnet_str_def subnet_succ_def nat_digits.simps two go_simps)
  show "usable_last ''10.0.0.''" using usable_lastI [of "Subnet 10 0 0"] by (simp add: s wf_subnet_def)
qed

lemma subnet_up_grants: "cms_grants subnet_up p" "\<not> cms_grants subnet_down p"
  by (simp_all add: cms_grants_def subnet_up_def subnet_down_def request_new_instance_def cms_answer_def
      unmarshal_def decode_struct_def)

lemma demo_granted:
  assumes "find_subnet (Last_subnet w) = Ok nxt"
  shows "\<exists>w'. granted (subnet_up # es) w = nxt # granted es w' \<and> Last_subnet w' = nxt"
    "\<exists>w'. granted (subnet_down # es) w = granted es w' \<and> Last_subnet w' = Last_subnet w"
proof -
  obtain r w' where run: "new_cms_subnet subnet_up w = (r, w')" by fastforce
  from new_cms_subnet_grants [OF assms run] have ok: "is_ok r" "subnets_asked w w' = [nxt]"
    by (simp_all add: subnet_up_grants) (simp_all add: subnet_up_def)
  from assms run have "Last_subnet w' = nxt" using ok(1) by (cases rule: new_cms_subnet_cases) simp_all
  with run ok show "\<exists>w'. granted (subnet_up # es) w = nxt # granted es w' \<and> Last_subnet w' = nxt" by auto
next
  obtain r w' where run: "new_cms_subnet subnet_down w = (r, w')" by fastforce
  with new_cms_subnet_grants [OF assms run] have "\<not> is_ok r" by (simp add: subnet_up_grants)
  moreover have "Last_subnet w' = Last_subnet w"
    using assms run by (cases rule: new_cms_subnet_cases) (use calculation in \<open>simp_all add: subnet_down_def\<close>)
  ultimately show "\<exists>w'. granted (subnet_down # es) w = granted es w' \<and> Last_subnet w' = Last_subnet w"
    using run by auto
qed

theorem granted_subnets_increase_witness:
  "granted [subnet_up, subnet_down, subnet_up] subnet_demo = [''10.0.1.'', ''10.0.2.''] \<and>
   distinct (granted [subnet_up, subnet_down, subnet_up] subnet_demo)"
proof -
  have "Last_subnet subnet_demo = ''10.0.0.''" by (simp add: subnet_demo_def)
  then obtain w1 where w1: "granted [subnet_up, subnet_down, subnet_up] subnet_demo = ''10.0.1.'' # granted [subnet_down, subnet_up] w1"
    "Last_subnet w1 = ''10.0.1.''"
    using demo_granted(1) [of subnet_demo "''10.0.1.''" "[subnet_down, subnet_up]"] demo_prefix(1) by (auto simp del: granted.simps)
  obtain w2 where w2: "granted [subnet_down, subnet_up] w1 = granted [subnet_up] w2" "Last_subnet w2 = ''10.0.1.''"
    using demo_granted(2) [of w1 "''10.0.2.''" "[subnet_up]"] w1(2) demo_prefix(2) by (auto simp del: granted.simps)
  have "\<exists>w3. granted [subnet_up] w2 = ''10.0.2.'' # granted [] w3"
    using demo_granted(1) [of w2 "''10.0.2.''" "[]"] w2(2) demo_prefix(2) by (auto simp del: granted.simps)
  with w1 w2 have "granted [subnet_up, subnet_down, subnet_up] subnet_demo = [''10.0.1.'', ''10.0.2.'']" by simp
  moreover have "distinct (granted [subnet_up, subnet_down, subnet_up] subnet_demo)"
    using granted_subnets_increase [of subnet_demo "[subnet_up, subnet_down, subnet_up]"] demo_prefix(3)
      \<open>Last_subnet subnet_demo = ''10.0.0.''\<close> by simp blast
  ultimately show ?thesis by blast
qed

theorem new_cms_subnet_outcome_witness:
  "\<exists>r w'. new_cms_subnet subnet_down subnet_demo = (r, w') \<and> \<not> is_ok r \<and>
     Last_subnet w' = ''10.0.0.'' \<and> last_subnet (MainDB w') = ''10.0.0.''"
proof -
  obtain r w' where run: "new_cms_subnet subnet_down subnet_demo = (r, w')" by fastforce
  have "find_subnet (Last_subnet subnet_demo) = Ok ''10.0.1.''" by (simp add: subnet_demo_def demo_prefix)
  from new_cms_subnet_outcome [OF this run] have "\<not> is_ok r" "Last_subnet w' = ''10.0.0.''" "last_subnet (MainDB w') = ''10.0.0.''"
    by (auto simp: subnet_up_grants) (simp_all add: subnet_down_def subnet_demo_def)
  with run show ?thesis by blast
qed

end
