(* ===== verification/Races.thy ===== *)
theory Races
  imports Concurrency SubnetSupply
begin

text \<open>
  Requests for the same VM that run at the same time: what the primary key of the table of
  instances still guarantees, and what nothing guarantees.
\<close>

section \<open>Several creations of the same VM\<close>

definition has_row :: "uuid \<Rightarrow> control_context \<Rightarrow> bool" where
  "has_row u w \<longleftrightarrow> u \<in> inst_uuid ` set (inst_info (MainDB w))"

lemma has_row_frame:
  "has_row u (w\<lparr>Last_subnet := x\<rparr>) = has_row u w" "has_row u (record_event ev w) = has_row u w"
  "has_row u (record_http a rq w) = has_row u w" "has_row u (snd (update_subnet_row c x w)) = has_row u w"
  "has_row u (snd (guac_configure ge user v ip key w)) = has_row u w"
  "has_row u (snd (guac_cleanup ce v w)) = has_row u w" "has_row u (snd (redis_store re i t w)) = has_row u w"
  "has_row u (snd (redis_remove re v w)) = has_row u w" "has_row u (on_resources f w) = has_row u w"
  "has_row u (w\<lparr>Redis := db\<rparr>) = has_row u w"
  by (simp_all add: has_row_def)

lemma repo_add_row:
  "has_row u w \<Longrightarrow> has_row u (snd (repo_add e vm i w))"
  "fst (repo_add e vm i w) = Ok () \<Longrightarrow> \<not> has_row (VM_UUID vm) w \<and> has_row (VM_UUID vm) (snd (repo_add e vm i w))"
proof -
  obtain r db where run: "add_instance e vm (int i) (MainDB w) = (r, db)" by fastforce
  then have eqs: "fst (add_instance e vm (int i) (MainDB w)) = r" "snd (add_instance e vm (int i) (MainDB w)) = db"
    by (simp_all add: repo_add_def)
  from run show "has_row u w \<Longrightarrow> has_row u (snd (repo_add e vm i w))"
    by (cases rule: add_instance_cases) (auto simp: has_row_def eqs)
  from run show "fst (repo_add e vm i w) = Ok () \<Longrightarrow>
      \<not> has_row (VM_UUID vm) w \<and> has_row (VM_UUID vm) (snd (repo_add e vm i w))"
    by (cases rule: add_instance_cases) (auto simp: has_row_def eqs row_of_info_def)
qed

lemma repo_delete_row:
  assumes "has_row u w" "v \<noteq> u"
  shows "has_row u (snd (repo_delete e v w))"
proof -
  obtain r db where run: "delete_instance e v (MainDB w) = (r, db)" by fastforce
  then have "inst_info db = inst_info (MainDB w) \<or> inst_info db = filter (\<lambda>r. inst_uuid r \<noteq> v) (inst_info (MainDB w))"
    by (cases "tx_commit e") (auto simp: delete_instance_def Let_def split: option.splits)
  with run assms show ?thesis by (auto simp: has_row_def repo_delete_def)
qed

interpretation rows:
  step_contract "\<lambda>_. True" "once_true (has_row u)" "\<lambda>_. True" "\<lambda>_ _. True" "\<lambda>_. True" "\<lambda>v. v \<noteq> u" for u
  by unfold_locales (auto simp: moves_def has_row_frame intro: repo_add_row repo_delete_row)

text \<open>A creation is answered with success only after a step that added the row.\<close>

lemma earns_launch_vm:
  assumes "VM_UUID vm = u"
  shows "earns (has_row u) (\<lambda>r. r = Ok ()) (launch_vm_thread e inp i cms isNew key vm chain)"
proof -
  have abort: "earns (has_row u) (\<lambda>r. r = Ok ()) (abort_thread chain err)" for err
    unfolding abort_thread_def by (rule earns_bind) simp
  have insert: "earns (has_row u) (\<lambda>r. r = Ok ()) (bind_thread (atom (repo_add (ce_insert e) vm i)) (\<lambda>q. case q of
        Panic \<Rightarrow> Return Panic
      | Fail err \<Rightarrow> abort_thread chain (wrap ''CreateVM: failed to persist instance'' err)
      | Ok _ \<Rightarrow> bind_thread
          (if isNew then map_thread_result (\<lambda>_. ()) (atom (update_subnet_row (ce_last_subnet e) (cms_IP cms))) else Return ())
          (\<lambda>_. bind_thread (effect (on_resources (register_vm (in_UUID inp) i vm))) (\<lambda>_. Return (Ok ())))))"
  proof (rule earns_atom_bind)
    fix w
    show "\<not> has_row u w \<and> has_row u (snd (repo_add (ce_insert e) vm i w)) \<or>
      earns (has_row u) (\<lambda>r. r = Ok ()) (case fst (repo_add (ce_insert e) vm i w) of
        Panic \<Rightarrow> Return Panic
      | Fail err \<Rightarrow> abort_thread chain (wrap ''CreateVM: failed to persist instance'' err)
      | Ok _ \<Rightarrow> bind_thread
          (if isNew then map_thread_result (\<lambda>_. ()) (atom (update_subnet_row (ce_last_subnet e) (cms_IP cms))) else Return ())
          (\<lambda>_. bind_thread (effect (on_resources (register_vm (in_UUID inp) i vm))) (\<lambda>_. Return (Ok ()))))"
      using repo_add_row(2) [of "ce_insert e" vm i w] assms
      by (cases "fst (repo_add (ce_insert e) vm i w)") (simp_all add: abort)
  qed
  show ?thesis
    unfolding launch_vm_thread_def
    by (intro earns_bind) (auto simp: abort insert split: prod.split result.split split del: if_split)
qed

lemma earns_create_vm: "earns (has_row (in_UUID inp)) (\<lambda>r. r = Ok ()) (create_vm_thread e inp)"
proof -
  have abort: "earns P (\<lambda>r. r = Ok ()) (abort_thread chain err)" for P err and chain :: "control_context cleanup_chain"
    unfolding abort_thread_def by (rule earns_bind) simp
  have "earns (has_row (in_UUID inp)) (\<lambda>r. r = Ok ()) (place_vm_thread e inp i cms isNew priv pub)"
    for i cms isNew priv pub
    unfolding place_vm_thread_def Let_def
    by (rule earns_bind) (auto intro!: earns_bind earns_launch_vm abort simp: new_vm_def split: result.split)
  then show ?thesis
    unfolding create_vm_thread_def by (auto intro!: earns_on_ok abort)
qed

definition answered_created :: "http_reply option \<Rightarrow> bool" where
  "answered_created r \<longleftrightarrow> (case r of Some rp \<Rightarrow> rp_status rp = 201 | None \<Rightarrow> False)"

lemma earns_serve:
  assumes "creates u rq"
  shows "earns (\<lambda>s. has_row u (sv_context s)) answered_created (serve_thread e rq)"
proof -
  obtain r where r: "unmarshal api_create_fields zero_api_create (rq_body rq) = Ok r" "ac_UUID r = u"
    using assms by (auto simp: creates_def split: result.splits)
  have "earns (\<lambda>s. has_row u (sv_context s)) (\<lambda>r. r = Ok ())
      (context_thread (create_vm_thread (ae_create e) (to_service_input r)))"
    unfolding context_thread_def using earns_create_vm [of "to_service_input r" "ae_create e"] r(2)
    by (intro earns_zoom) simp_all
  then have "earns (\<lambda>s. has_row u (sv_context s)) answered_created (create_vm_handler_thread e rq)"
    using r(1)
    by (auto simp: create_vm_handler_thread_def with_body_thread_def bad_request_thread_def reply_thread_def
        answered_created_def split: result.splits intro!: earns_map)
  moreover have "serve_thread e rq = map_thread_result
      (map_option (\<lambda>r. r\<lparr>rp_headers := (''X-Content-Type-Options'', ''nosniff'') # rp_headers r\<rparr>)) (create_vm_handler_thread e rq)"
    using assms by (simp add: serve_thread_def route_threads_def creates_def method_matches_def)
  ultimately show ?thesis
    by (auto intro!: earns_map simp: answered_created_def split: option.splits)
qed

text \<open>The positions of the requests to create \<open>u\<close> that have been answered with 201.\<close>

definition winners ::
  "uuid \<Rightarrow> (api_env \<times> api_request) list \<Rightarrow> (http_reply option, server) thread list \<Rightarrow> nat list" where
  "winners u rqs ts = filter (\<lambda>i. creates u (snd (rqs ! i)) \<and>
     (case returned (ts ! i) of Some r \<Rightarrow> answered_created r | None \<Rightarrow> False)) [0..<length rqs]"

lemma winner_nth:
  "i \<in> set (winners u rqs ts) \<longleftrightarrow> i < length rqs \<and> creates u (snd (rqs ! i)) \<and>
     (\<exists>r. ts ! i = Return r \<and> answered_created r)"
  by (cases "ts ! i") (auto simp: winners_def)

text \<open>C12: however many clients ask at the same time for a VM with the same UUID, as long as none
  of the requests deletes it, at most one of them is answered with 201, in any interleaving; and it
  is answered so only if the VM was not in the database at the beginning, and then it is there
  from then on.\<close>

theorem one_creation_wins:
  assumes "turn\<^sup>*\<^sup>* (s, serve_pool rqs) (s', ts')" "filter (\<lambda>(e, rq). deletes u rq) rqs = []"
  shows "winners u rqs ts' = [] \<or>
    (\<exists>i. winners u rqs ts' = [i] \<and> \<not> has_row u (sv_context s) \<and> has_row u (sv_context s'))"
proof -
  let ?P = "\<lambda>s. has_row u (sv_context s)"
  define won where "won i r \<longleftrightarrow> creates u (snd (rqs ! i)) \<and> answered_created r" for i r
  have "\<not> deletes u (snd (rqs ! i))" if "i < length rqs" for i
    using assms(2) that by (force simp: filter_empty_conv split_beta)
  then have "keeps (\<lambda>_. True) (once_true ?P) (\<lambda>_. True) (serve_pool rqs ! i)" if "i < length rqs" for i
    using rows.serve [of "snd (rqs ! i)" u "fst (rqs ! i)"] that by (auto simp: serve_pool_nth in_server_def [abs_def])
  moreover have "earns ?P (won i) (serve_pool rqs ! i)" if "i < length rqs" for i
  proof (cases "creates u (snd (rqs ! i))")
    case True
    then have "won i = answered_created" by (simp add: won_def fun_eq_iff)
    with earns_serve [OF True] that show ?thesis by (simp add: serve_pool_nth)
  next
    case False
    then have "won i = (\<lambda>_. False)" by (simp add: won_def fun_eq_iff)
    then show ?thesis by (simp add: earns_nothing)
  qed
  ultimately have one: "keeps (\<lambda>_. True) (once_true ?P) (\<lambda>_. True) (serve_pool rqs ! i) \<and> earns ?P (won i) (serve_pool rqs ! i)"
    if "i < length (serve_pool rqs)" for i using that by simp
  have len: "length ts' = length rqs"
    using turns_length [OF assms(1)] by simp
  note winner = one_winner [where P = ?P and won = won, OF assms(1) one]
  show ?thesis
  proof (cases "winners u rqs ts'")
    case (Cons i js)
    then have "i \<in> set (winners u rqs ts')" by simp
    then obtain r where i: "i < length ts'" "ts' ! i = Return r" "won i r"
      by (auto simp: winner_nth len won_def)
    have "j = i" if "j \<in> set (winners u rqs ts')" for j
      using that winner(3) [OF _ i] by (auto simp: winner_nth len won_def)
    moreover have "distinct (winners u rqs ts')" by (simp add: winners_def)
    ultimately have "winners u rqs ts' = [i]" using Cons by (cases js) auto
    with winner(1,2) [OF _ i] show ?thesis by blast
  qed simp
qed

section \<open>A status update around a deletion\<close>

definition status_update_request :: "uuid \<Rightarrow> string \<Rightarrow> api_request" where
  "status_update_request u st = \<lparr>rq_method = ''POST'', rq_path = ''/vm/redis'', rq_uuid = [],
     rq_body = Doc (JObj [(''UUID'', JStr u), (''status'', JStr st)])\<rparr>"

lemma decode_status_update: "unmarshal redis_status_fields ([], []) (rq_body (status_update_request u st)) = Ok (u, st)"
  by (simp add: status_update_request_def unmarshal_def decode_struct_def redis_status_fields_def find_field_def)

text \<open>The thread has read the document with its first step; the rest writes it back.\<close>

lemma status_update_thread:
  assumes "load_vm_info (ae_redis e) u (Redis (sv_context s)) = Ok r" "re_set (ae_redis e) = Committed"
    "re_get (ae_check e) = None"
  shows "\<exists>f k. serve_thread e (status_update_request u st) = Step f k \<and> f s = s \<and>
    (\<forall>s1. \<exists>rp. rp_status rp = 200 \<and> run (k s) s1 = (Some rp, s1\<lparr>sv_context := (sv_context s1)\<lparr>Redis :=
       (Redis (sv_context s1))(u \<mapsto> marshal_redis_vm_info (r\<lparr>r_status := validate_and_normalize_status st, r_time := ae_now e\<rparr>))\<rparr>\<rparr>))"
proof -
  have "serve_thread e (status_update_request u st) = map_thread_result
      (map_option (\<lambda>r. r\<lparr>rp_headers := (''X-Content-Type-Options'', ''nosniff'') # rp_headers r\<rparr>))
      (redis_handler_thread e (status_update_request u st))"
    by (simp add: serve_thread_def route_threads_def method_matches_def status_update_request_def)
  with assms show ?thesis
    by (simp add: redis_handler_thread_def with_body_thread_def decode_status_update update_status_thread_def
        map_thread_result_def context_thread_def atom_def look_def on_ok_thread_def redis_set_def)
qed

text \<open>C38: a status update that has read the document of a VM before a deletion and writes it back
  after it leaves the document of a VM that no longer exists: both requests are answered with 200,
  the row is gone from the database, and from then on the VM is reported with the new status.
  Redis has no transaction around the two commands of \<open>UpdateVMStatusInRedis\<close>.\<close>

theorem late_status_resurrects_document:
  assumes "wf_context (sv_context s)" "serve e2 (delete_vm_request u) s = (Some rp2, s1)" "rp_status rp2 = 200"
    "load_vm_info (ae_redis e1) u (Redis (sv_context s)) = Ok r" "re_set (ae_redis e1) = Committed"
    "re_get (ae_check e1) = None"
  shows "\<exists>s' rp1. turn\<^sup>*\<^sup>* (s, serve_pool [(e1, status_update_request u st), (e2, delete_vm_request u)])
        (s', [Return (Some rp1), Return (Some rp2)]) \<and> rp_status rp1 = 200 \<and> \<not> has_row u (sv_context s') \<and>
     get_vm_info redis_ok u (Redis (sv_context s')) = Ok ((to_service_dto r)\<lparr>s_Status := validate_and_normalize_status st\<rparr>)"
proof -
  obtain f k where t: "serve_thread e1 (status_update_request u st) = Step f k" "f s = s"
    and rest: "\<And>s1. \<exists>rp. rp_status rp = 200 \<and> run (k s) s1 = (Some rp, s1\<lparr>sv_context := (sv_context s1)\<lparr>Redis :=
       (Redis (sv_context s1))(u \<mapsto> marshal_redis_vm_info (r\<lparr>r_status := validate_and_normalize_status st, r_time := ae_now e1\<rparr>))\<rparr>\<rparr>)"
    using status_update_thread [OF assms(4-6), of st] by blast
  define s' where "s' = s1\<lparr>sv_context := (sv_context s1)\<lparr>Redis :=
       (Redis (sv_context s1))(u \<mapsto> marshal_redis_vm_info (r\<lparr>r_status := validate_and_normalize_status st, r_time := ae_now e1\<rparr>))\<rparr>\<rparr>"
  obtain rp1 where rp1: "rp_status rp1 = 200" "run (k s) s1 = (Some rp1, s')" using rest [of s1] by (auto simp: s'_def)
  have "run (serve_thread e2 (delete_vm_request u)) (f s) = (Some rp2, s1)" using assms(2) t(2) by (simp add: run_serve_thread)
  from turns_between [where f = f and s = s and k = k, OF this] rp1(2) t(1)
  have turns: "turn\<^sup>*\<^sup>* (s, serve_pool [(e1, status_update_request u st), (e2, delete_vm_request u)])
      (s', [Return (Some rp1), Return (Some rp2)])"
    by (simp add: serve_pool_def)
  obtain q w' where run: "delete_vm (ae_delete e2) u (sv_context s) = (q, w')" by fastforce
  with assms(2,3) have ok: "q = Ok ()" "s1 = s\<lparr>sv_context := w'\<rparr>"
    by (cases q; simp add: serve_requests with_security_headers_def delete_vm_handler_def with_body_def decode_uuid
      reply_with_def on_context_def; fastforce)+
  then have "db_view (MainDB w') u = None" "wf_db (MainDB w')"
    using delete_vm_deleted [OF assms(1), of "ae_delete e2" u w'] run wf_context_delete [OF assms(1), of "ae_delete e2" u]
    by (simp_all add: wf_context_def)
  then have "\<not> has_row u (sv_context s')"
    by (auto simp: has_row_def s'_def ok(2) db_view_def info_map_None_iff [symmetric] same_keys split: option.splits)
  moreover have "get_vm_info redis_ok u (Redis (sv_context s')) = Ok ((to_service_dto r)\<lparr>s_Status := validate_and_normalize_status st\<rparr>)"
    by (simp add: s'_def get_vm_info_def redis_ok_def)
  ultimately show ?thesis using turns rp1(1) by blast
qed

section \<open>Calls of \<open>NewCmsSubnet\<close> that overlap\<close>

text \<open>What a call has left to do once it has read the last subnet.\<close>

definition after_read :: "control_context \<Rightarrow> subnet_env \<Rightarrow> cms_new_instance_response task" where
  "after_read w e =
     on_ok_thread (Return (find_subnet (Last_subnet w))) (\<lambda>nxt.
     on_ok_thread (wrapping ''NewCmsSubnet: failed to update last_subnet in DB''
              (atom (update_subnet_row (ns_reserve e) nxt))) (\<lambda>_.
       request_reserved_thread e (Last_subnet w) nxt))"

lemma new_cms_subnet_reads: "\<exists>f k. new_cms_subnet_thread e = Step f k \<and> f w = w \<and> k w = after_read w e"
  by (simp add: new_cms_subnet_thread_def after_read_def look_def atom_def)

lemma all_read: "turn\<^sup>*\<^sup>* (w, map new_cms_subnet_thread es) (w, map (after_read w) es)"
proof -
  have "turn\<^sup>*\<^sup>* (w, ts @ map new_cms_subnet_thread es) (w, ts @ map (after_read w) es)" for ts
  proof (induction es arbitrary: ts)
    case (Cons e es)
    obtain f k where t: "new_cms_subnet_thread e = Step f k" "f w = w" "k w = after_read w e"
      using new_cms_subnet_reads by blast
    have "turn (w, ts @ map new_cms_subnet_thread (e # es)) (w, (ts @ [after_read w e]) @ map new_cms_subnet_thread es)"
      using turn.intros [of "length ts" "ts @ map new_cms_subnet_thread (e # es)" f k w] t by (simp add: nth_append)
    moreover have "turn\<^sup>*\<^sup>* (w, (ts @ [after_read w e]) @ map new_cms_subnet_thread es) (w, ts @ map (after_read w) (e # es))"
      using Cons.IH [of "ts @ [after_read w e]"] by simp
    ultimately show ?case by (rule converse_rtranclp_into_rtranclp)
  qed simp
  from this [of "[]"] show ?thesis by simp
qed

text \<open>The thread asks for \<open>n\<close> subnets, all of them \<open>p\<close>, and answers with a value.\<close>

primrec asks :: "string \<Rightarrow> nat \<Rightarrow> ('a result, control_context) thread \<Rightarrow> bool" where
  "asks p n (Return r) \<longleftrightarrow> n = 0 \<and> is_ok r"
| "asks p n (Step f k) \<longleftrightarrow> (\<forall>w. \<exists>m l. n = m + l \<and> asks p l (k w) \<and>
     List.map_filter asked_subnet (trace (f w)) = List.map_filter asked_subnet (trace w) @ replicate m p)"

lemma map_filter_snoc: "List.map_filter f (xs @ [x]) = List.map_filter f xs @ (case f x of None \<Rightarrow> [] | Some y \<Rightarrow> [y])"
  by (simp add: List.map_filter_def split: option.split)

lemma asks_after_read:
  assumes "find_subnet (Last_subnet w) = Ok nxt" "ns_reserve e = Committed" "cms_grants e nxt"
  shows "asks nxt 1 (after_read w e)"
proof -
  obtain r where r: "snd (request_new_instance (cms_host (ns_host e)) nxt (ns_cms e)) = Ok r"
    using assms(3) by (auto simp: cms_grants_def elim: is_okE)
  have sent: "\<forall>m. ns_cms e \<noteq> NotBuilt m" using assms(3) by (simp add: cms_grants_sent)
  have ask: "fst (cms_new_instance e nxt w1) = Ok r" for w1 by (simp add: cms_new_instance_fst r)
  have call: "(case ns_cms e of NotBuilt x \<Rightarrow> [] | _ \<Rightarrow> [ev]) = [ev]" for ev :: event
    using sent by (cases "ns_cms e") simp_all
  show ?thesis
    unfolding after_read_def request_reserved_thread_def
    by (simp add: assms on_ok_thread_def wrapping_def map_thread_result_def atom_def effect_def update_subnet_row_eqs ask call
        map_filter_snoc)
qed

text \<open>The prefixes the CMS has been asked for.\<close>

definition all_asked :: "control_context \<Rightarrow> string list" where
  "all_asked w = List.map_filter asked_subnet (trace w)"

definition will_ask :: "string list \<Rightarrow> string \<Rightarrow> ('a result, control_context) pool \<Rightarrow> bool" where
  "will_ask asked p q \<longleftrightarrow> (\<exists>ns. length ns = length (snd q) \<and> (\<forall>i < length ns. asks p (ns ! i) (snd q ! i)) \<and>
     all_asked (fst q) @ replicate (sum_list ns) p = asked)"

lemma will_ask_turn:
  assumes "turn q q'" "will_ask asked p q"
  shows "will_ask asked p q'"
  using assms
proof (induction rule: turn.induct)
  case (1 i ts f k s)
  then obtain ns where ns: "length ns = length ts" "\<And>j. j < length ts \<Longrightarrow> asks p (ns ! j) (ts ! j)"
    "all_asked s @ replicate (sum_list ns) p = asked" by (auto simp: will_ask_def)
  from ns(2) [OF 1(1)] 1(2) obtain m l where step: "ns ! i = m + l" "asks p l (k s)"
    "all_asked (f s) = all_asked s @ replicate m p" unfolding all_asked_def by simp metis
  have "sum_list ns = m + sum_list (ns[i := l])"
    using 1(1) ns(1) step(1) elem_le_sum_list [of i ns] by (simp add: sum_list_update)
  with ns step 1(1) show ?case
    by (auto simp: will_ask_def nth_list_update replicate_add intro!: exI [of _ "ns[i := l]"])
qed

text \<open>C30: calls of \<open>NewCmsSubnet\<close> that have all read the last subnet before one of them writes the new
  one are granted the same subnet: such a state is reached, whatever the number of the calls, since
  nothing holds a lock from the read to the write, and then, in whatever order the calls go on, if the database commits and the CMS
  grants what it is asked for, all of them succeed and the CMS has been asked once by each, always
  for the same prefix.\<close>

theorem concurrent_calls_share_a_subnet:
  assumes "find_subnet (Last_subnet w) = Ok nxt"
    and "list_all (\<lambda>e. ns_reserve e = Committed \<and> cms_grants e nxt) es"
    and "turn\<^sup>*\<^sup>* (w, map (after_read w) es) (w', map Return rs)"
  shows "turn\<^sup>*\<^sup>* (w, map new_cms_subnet_thread es) (w, map (after_read w) es) \<and>
    list_all is_ok rs \<and> all_asked w' = all_asked w @ replicate (length es) nxt"
proof -
  have "\<forall>i < length es. asks nxt 1 (after_read w (es ! i))"
    using asks_after_read [OF assms(1)] assms(2) by (simp add: list_all_length)
  then have "will_ask (all_asked w @ replicate (length es) nxt) nxt (w, map (after_read w) es)"
    by (auto simp: will_ask_def sum_list_replicate intro!: exI [of _ "replicate (length es) 1"])
  with assms(3) have "will_ask (all_asked w @ replicate (length es) nxt) nxt (w', map Return rs)"
    by (induction rule: rtranclp_induct) (auto intro: will_ask_turn)
  then obtain ns where ns: "length ns = length rs" "\<forall>i < length rs. ns ! i = 0 \<and> is_ok (rs ! i)"
    "all_asked w' @ replicate (sum_list ns) nxt = all_asked w @ replicate (length es) nxt"
    by (auto simp: will_ask_def)
  then have "sum_list ns = 0" by (auto simp: in_set_conv_nth)
  with ns show ?thesis by (simp add: all_read list_all_length)
qed

section \<open>Witnesses\<close>

theorem one_creation_wins_witness:
  "\<exists>s' ts'. turn\<^sup>*\<^sup>* (fresh_server demo_context, serve_pool [(demo_api_env, post_vm demo_body), (demo_api_env, post_vm demo_body)]) (s', ts') \<and>
     (\<exists>i. winners ''vm-1'' [(demo_api_env, post_vm demo_body), (demo_api_env, post_vm demo_body)] ts' = [i])"
proof -
  let ?rqs = "[(demo_api_env, post_vm demo_body), (demo_api_env, post_vm demo_body)]"
  let ?s = "fresh_server demo_context"
  obtain rp s1 where made: "serve demo_api_env (post_vm demo_body) ?s = (Some rp, s1)" "rp_status rp = 201"
    using demo_created by blast
  have creates: "creates ''vm-1'' (post_vm demo_body)"
    using demo_body_decodes by (simp add: creates_def post_vm_def demo_create_request_def)
  let ?ts = "map Return (serve_replies ?rqs ?s)"
  have turns: "turn\<^sup>*\<^sup>* (?s, serve_pool ?rqs) (serve_all ?rqs ?s, ?ts)" by (rule sequence_turns)
  have "filter (\<lambda>(e, rq). deletes ''vm-1'' rq) ?rqs = []" by (simp add: deletes_def post_vm_def)
  from one_creation_wins [OF turns this]
  have "winners ''vm-1'' ?rqs ?ts = [] \<or> (\<exists>i. winners ''vm-1'' ?rqs ?ts = [i])" by blast
  moreover have "0 \<in> set (winners ''vm-1'' ?rqs ?ts)"
    using made creates by (auto simp: winner_nth answered_created_def)
  ultimately show ?thesis using turns by (metis empty_iff empty_set)
qed

definition demo_reported :: control_context where
  "demo_reported = demo_placed\<lparr>Redis := [''vm-1'' \<mapsto> marshal_redis_vm_info (stored_form (demo_status\<lparr>s_UUID := ''vm-1''\<rparr>) 7)]\<rparr>"

theorem late_status_resurrects_document_witness:
  "\<exists>s' rp1 rp2. turn\<^sup>*\<^sup>* (fresh_server demo_reported,
       serve_pool [(demo_api_env, status_update_request ''vm-1'' ''stopped end''), (demo_api_env, delete_vm_request ''vm-1'')])
       (s', [Return (Some rp1), Return (Some rp2)]) \<and> rp_status rp1 = 200 \<and> rp_status rp2 = 200 \<and>
     \<not> has_row ''vm-1'' (sv_context s') \<and> is_ok (get_vm_info redis_ok ''vm-1'' (Redis (sv_context s')))"
proof -
  have "fst (delete_vm demo_delete_env ''vm-1'' demo_reported) = Ok ()"
    by (rule demo_delete_located) (simp add: demo_reported_def demo_placed_def)
  then obtain w' where "delete_vm demo_delete_env ''vm-1'' demo_reported = (Ok (), w')"
    by (metis prod.collapse)
  then obtain rp2 s1 where gone: "serve demo_api_env (delete_vm_request ''vm-1'') (fresh_server demo_reported) = (Some rp2, s1)"
    "rp_status rp2 = 200"
    by (auto simp: serve_requests with_security_headers_def delete_vm_handler_def with_body_def decode_uuid
        reply_with_def on_context_def fresh_server_def demo_api_env_def)
  have "wf_redis (Redis demo_reported)"
    by (auto simp: demo_reported_def wf_redis_def stored_form_def)
  then have wf: "wf_context (sv_context (fresh_server demo_reported))"
    using wf_demo_placed by (simp add: fresh_server_def wf_context_def demo_reported_def)
  have env: "re_set (ae_redis demo_api_env) = Committed" "re_get (ae_check demo_api_env) = None"
    by (simp_all add: demo_api_env_def redis_ok_def)
  have "load_vm_info (ae_redis demo_api_env) ''vm-1'' (Redis (sv_context (fresh_server demo_reported))) =
      Ok (stored_form (demo_status\<lparr>s_UUID := ''vm-1''\<rparr>) 7)"
    by (simp add: demo_api_env_def redis_ok_def fresh_server_def demo_reported_def)
  from late_status_resurrects_document [OF wf gone this env, of "''stopped end''"]
  show ?thesis using gone(2) is_ok_simps(1) by metis
qed

theorem concurrent_calls_share_a_subnet_witness:
  "\<exists>w' r1 r2. turn\<^sup>*\<^sup>* (subnet_demo, [new_cms_subnet_thread subnet_up, new_cms_subnet_thread subnet_up]) (w', [Return r1, Return r2]) \<and>
     is_ok r1 \<and> is_ok r2 \<and> all_asked w' = [''10.0.1.'', ''10.0.1.'']"
proof -
  let ?es = "[subnet_up, subnet_up]" and ?t = "after_read subnet_demo subnet_up"
  define w1 where "w1 = snd (run ?t subnet_demo)"
  define rs where "rs = [fst (run ?t subnet_demo), fst (run ?t w1)]"
  have "turn\<^sup>*\<^sup>* (subnet_demo, [?t, ?t]) (w1, [Return (fst (run ?t subnet_demo)), ?t])"
    using turns_solo [of 0 "[?t, ?t]" subnet_demo ?t] by (simp add: w1_def)
  also have "turn\<^sup>*\<^sup>* (w1, [Return (fst (run ?t subnet_demo)), ?t]) (snd (run ?t w1), map Return rs)"
    using turns_solo [of 1 "[Return (fst (run ?t subnet_demo)), ?t]" w1 ?t] by (simp add: rs_def)
  finally have turns: "turn\<^sup>*\<^sup>* (subnet_demo, map (after_read subnet_demo) ?es) (snd (run ?t w1), map Return rs)" by simp
  have "Last_subnet subnet_demo = ''10.0.0.''" "all_asked subnet_demo = []" by (simp_all add: subnet_demo_def all_asked_def)
  then have next_: "find_subnet (Last_subnet subnet_demo) = Ok ''10.0.1.''" by (simp add: demo_prefix(1))
  have "list_all (\<lambda>e. ns_reserve e = Committed \<and> cms_grants e ''10.0.1.'') ?es"
    by (simp add: subnet_up_grants(1)) (simp add: subnet_up_def)
  note shared = concurrent_calls_share_a_subnet [OF next_ this turns]
  have "turn\<^sup>*\<^sup>* (subnet_demo, map new_cms_subnet_thread ?es) (snd (run ?t w1), map Return rs)"
    using shared turns by (meson rtranclp_trans)
  with shared \<open>all_asked subnet_demo = []\<close> show ?thesis by (auto simp: rs_def)
qed

end
