(* ===== verification/Books.thy ===== *)
theory Books
  imports Concurrency
begin

text \<open>
  The books of the cores while requests overlap. Free and used resources of a core are added up
  as the 32-bit words they are; the sum is what no interleaving of requests for different new VMs
  can change, although single counters can wrap around. The argument is one of rely and
  guarantee: a creation changes the entries of its own VM only, and relies on nobody else doing so.
\<close>

section \<open>Books modulo the word size\<close>

definition word_used :: "(vm_info \<Rightarrow> uint32) \<Rightarrow> core \<Rightarrow> uint32" where
  "word_used f c = (\<Sum>u \<in> dom (vms_of c). f (the (vms_of c u)))"

definition word_ledger :: "core \<Rightarrow> uint32 \<times> uint32 \<times> uint32" where
  "word_ledger c = (FreeMemory c + word_used VM_Memory c, FreeCPU c + word_used VM_Cpu c,
     FreeDisk c + word_used VM_Disk c)"

definition books :: "control_context \<Rightarrow> (uint32 \<times> uint32 \<times> uint32) list" where
  "books w = map word_ledger (Cores (Resources w))"

definition entries_of :: "uuid \<Rightarrow> control_context \<Rightarrow> vm_info option list" where
  "entries_of u w = map (\<lambda>c. vms_of c u) (Cores (Resources w))"

lemma word_used_alloc:
  assumes "finite (dom (vms_of c))" "vms_of c u = None"
  shows "word_used f (alloc_core u vm req c) = word_used f c + f vm"
proof -
  have "u \<notin> dom (vms_of c)" using assms(2) by auto
  then have "(\<Sum>w \<in> dom (vms_of c). f (the (((vms_of c)(u \<mapsto> vm)) w))) = word_used f c"
    unfolding word_used_def by (intro sum.cong) auto
  with assms \<open>u \<notin> dom (vms_of c)\<close> show ?thesis by (simp add: word_used_def add.commute)
qed

lemma word_used_dealloc:
  assumes "finite (dom (vms_of c))" "vms_of c u = Some vm"
  shows "word_used f c = word_used f (dealloc_core u req c) + f vm"
proof -
  have "word_used f c = f vm + (\<Sum>w \<in> dom (vms_of c) - {u}. f (the (vms_of c w)))"
    unfolding word_used_def using assms sum.remove [of "dom (vms_of c)" u "\<lambda>w. f (the (vms_of c w))"] by auto
  moreover have "(\<Sum>w \<in> dom (vms_of c) - {u}. f (the (vms_of c w))) = word_used f (dealloc_core u req c)"
    unfolding word_used_def by (intro sum.cong) auto
  ultimately show ?thesis by (simp add: add.commute)
qed

lemma word_ledger_alloc:
  "finite (dom (vms_of c)) \<Longrightarrow> vms_of c u = None \<Longrightarrow> matches req vm \<Longrightarrow>
   word_ledger (alloc_core u vm req c) = word_ledger c"
  by (simp add: word_ledger_def word_used_alloc matches_def)

lemma word_ledger_dealloc:
  assumes "finite (dom (vms_of c))" "vms_of c u = Some vm" "matches req vm"
  shows "word_ledger (dealloc_core u req c) = word_ledger c"
  using word_used_dealloc [OF assms(1,2), where req = req] assms(3) by (simp add: word_ledger_def matches_def)

text \<open>A free counter is exact as long as the used resources stay within the books.\<close>

lemma word_used_used: "word_used f c = of_nat (used f c)"
  by (simp add: word_used_def used_def)

lemma free_exact:
  fixes f' f :: uint32
  assumes "f' + word_used g c' = f + word_used g c" "unat f + used g c < 2 ^ 32"
  shows "unat f' + used g c' = unat f + used g c \<longleftrightarrow> used g c' \<le> unat f + used g c"
proof
  assume le: "used g c' \<le> unat f + used g c"
  have "f' = f + of_nat (used g c) - of_nat (used g c')"
    using assms(1) by (simp add: word_used_used algebra_simps)
  also have "\<dots> = of_nat (unat f + used g c - used g c')" using le by (simp add: of_nat_diff)
  finally have "unat f' = (unat f + used g c - used g c') mod 2 ^ 32" by (simp add: unat_of_nat)
  with le assms(2) show "unat f' + used g c' = unat f + used g c" by simp
qed simp

section \<open>The guarantee of a creation\<close>

definition same_cores :: "control_context \<Rightarrow> control_context \<Rightarrow> bool" where
  "same_cores w w' \<longleftrightarrow> Cores (Resources w') = Cores (Resources w)"

definition only_entries :: "nat \<Rightarrow> uuid option \<Rightarrow> control_context \<Rightarrow> control_context \<Rightarrow> bool" where
  "only_entries n own w w' \<longleftrightarrow> (sound n w \<longrightarrow> sound n w') \<and> books w' = books w \<and>
     (\<forall>v. own \<noteq> Some v \<longrightarrow> entries_of v w' = entries_of v w)"

definition not_own :: "nat \<Rightarrow> uuid \<Rightarrow> control_context \<Rightarrow> control_context \<Rightarrow> bool" where
  "not_own n u w w' \<longleftrightarrow> (sound n w \<longrightarrow> sound n w') \<and> entries_of u w' = entries_of u w"

definition placed :: "nat \<Rightarrow> uuid \<Rightarrow> vm_info option list \<Rightarrow> control_context \<Rightarrow> bool" where
  "placed n u es w \<longleftrightarrow> sound n w \<and> entries_of u w = es"

lemma placed_not_own: "placed n u es w \<Longrightarrow> not_own n u w w' \<Longrightarrow> placed n u es w'"
  by (simp add: placed_def not_own_def)

lemma sound_core:
  "sound n w \<Longrightarrow> i < n \<Longrightarrow> finite (dom (vms_of (Cores (Resources w) ! i)))"
  "sound n w \<Longrightarrow> length (Cores (Resources w)) = n"
  using wf_rm_nth [of "Resources w" i] by (auto simp: sound_def wf_context_def wf_core_def)

lemma books_update:
  assumes "i < length cs" "word_ledger c = word_ledger (cs ! i)"
  shows "map word_ledger (cs[i := c]) = map word_ledger cs"
  using assms by (simp add: map_update list_update_same_conv)

lemma allocate_entries:
  assumes "placed n u (replicate n None) w" "i < n" "VM_UUID vm = u" "matches req vm"
  defines "w' \<equiv> on_resources (allocate_resources i u vm req) w"
  shows "only_entries n (Some u) w w'" "placed n u ((replicate n None)[i := Some vm]) w'"
proof -
  have s: "sound n w" and es: "entries_of u w = replicate n None" using assms(1) by (simp_all add: placed_def)
  have len: "i < length (Cores (Resources w))" using assms(2) sound_core(2) [OF s] by simp
  then have none: "vms_of (Cores (Resources w) ! i) u = None"
    using es assms(2) by (metis (no_types, lifting) entries_of_def nth_map nth_replicate)
  have "sound n w'" using sound_rm(1) [OF s assms(3)] by (simp add: w'_def)
  moreover have "books w' = books w"
    using len word_ledger_alloc [OF sound_core(1) [OF s assms(2)] none assms(4)]
    by (simp add: books_def w'_def allocate_resources_def books_update)
  moreover have "entries_of v w' = (if v = u then (replicate n None)[i := Some vm] else entries_of v w)" for v
    using len es by (auto simp: entries_of_def w'_def allocate_resources_def map_update list_update_same_conv)
  ultimately show "only_entries n (Some u) w w'" "placed n u ((replicate n None)[i := Some vm]) w'"
    by (auto simp: only_entries_def placed_def)
qed

lemma deallocate_entries:
  assumes "placed n u ((replicate n None)[i := Some vm]) w" "i < n" "matches req vm"
  shows "only_entries n (Some u) w (on_resources (deallocate_resources i u req) w)"
proof -
  let ?w = "on_resources (deallocate_resources i u req) w"
  have s: "sound n w" and es: "entries_of u w = (replicate n None)[i := Some vm]" using assms(1) by (simp_all add: placed_def)
  have len: "i < length (Cores (Resources w))" using assms(2) sound_core(2) [OF s] by simp
  have "entries_of u w ! i = Some vm" using es assms(2) by simp
  then have some: "vms_of (Cores (Resources w) ! i) u = Some vm" using len by (simp add: entries_of_def)
  have "sound n ?w" using sound_rm(2) [OF s] .
  moreover have "books ?w = books w"
    using len word_ledger_dealloc [OF sound_core(1) [OF s assms(2)] some assms(3)]
    by (simp add: books_def deallocate_resources_def books_update)
  moreover have "v \<noteq> u \<Longrightarrow> entries_of v ?w = entries_of v w" for v
    using len by (auto simp: entries_of_def deallocate_resources_def map_update list_update_same_conv)
  ultimately show ?thesis by (auto simp: only_entries_def)
qed

text \<open>Everything else leaves the cores alone.\<close>

interpretation idle:
  step_contract "sound n" same_cores "\<lambda>i. i < n" "\<lambda>u r. r_uuid r = u" "\<lambda>_. False" "\<lambda>_. True" for n
  by unfold_locales
    (auto simp: moves_def same_cores_def sound_intros cache_location_def intro: sound_redis sound_location sound_load
      simp: sound_def [THEN iffD1, THEN conjunct2])

lemma same_cores_entries: "same_cores w w' \<Longrightarrow> entries_of u w' = entries_of u w" "same_cores w w' \<Longrightarrow> books w' = books w"
  by (simp_all add: same_cores_def entries_of_def books_def)

lemma idle_only: "moves (sound n) same_cores w w' \<Longrightarrow> only_entries n own w w'"
  by (simp add: moves_def only_entries_def same_cores_entries)

section \<open>The threads of a creation\<close>

abbreviation creation_sat where
  "creation_sat n u \<equiv> sat (not_own n u) (only_entries n (Some u))"

lemma idle_sat:
  assumes "keeps (sound n) same_cores q t" "placed n u es w"
  shows "creation_sat n u (\<lambda>r w. placed n u es w \<and> q r) t w"
proof (rule keeps_sat)
  have "keeps (\<lambda>w. sound n w \<and> entries_of u w = es) same_cores q t"
    by (rule keeps_strengthen [OF _ assms(1)]) (simp add: same_cores_entries)
  then show "keeps (placed n u es) same_cores q t" by (simp add: placed_def [abs_def])
  show "only_entries n (Some u) w w'" if "moves (placed n u es) same_cores w w'" for w w'
    using that by (intro idle_only) (simp add: moves_def placed_def)
qed (use assms(2) placed_not_own in auto)

lemma idle_sat_any: "keeps (sound n) same_cores q t \<Longrightarrow> placed n u es w \<Longrightarrow> creation_sat n u (\<lambda>_ _. True) t w"
  by (rule sat_weaken [OF idle_sat]) simp_all

lemma sat_anything: "sat R G (\<lambda>_ _. True) (Return r) s"
  by simp

lemma idle_atom:
  assumes "placed n u es w" "\<And>w. sound n w \<Longrightarrow> moves (sound n) same_cores w (snd (f w))"
    "\<And>r w. placed n u es w \<Longrightarrow> creation_sat n u Q (k r) w"
  shows "creation_sat n u Q (bind_thread (atom f) k) w"
  by (rule sat_bind [OF idle_sat [where q = "\<lambda>_. True"]]) (use assms in \<open>auto intro: keeps_step\<close>)

lemma sat_abort:
  assumes "placed n u ((replicate n None)[i := Some vm]) w" "i < n" "matches req vm"
  shows "creation_sat n u (\<lambda>_ _. True)
    (abort_thread (chain_push (undo_resources i u req) (chain_push (undo_guac e u) empty_chain)) err) w"
proof -
  let ?es = "(replicate n None)[i := Some vm]"
  have giveback: "creation_sat n u (\<lambda>_ _. True) (effect (undo_resources i u req)) w"
    unfolding effect_def
  proof (rule sat_atom [where P = "placed n u ?es"])
    fix v
    assume "placed n u ?es v"
    from deallocate_entries [OF this assms(2,3)]
    show "only_entries n (Some u) v (snd ((), undo_resources i u req v)) \<and> True" by (simp add: undo_resources_def)
  qed (use assms(1) placed_not_own in auto)
  have "only_entries n (Some u) v (undo_guac e u v)" for v
    by (simp add: only_entries_def undo_guac_def sound_intros books_def entries_of_def)
  then have "creation_sat n u (\<lambda>_ _. True) (effect (undo_guac e u)) v" for v
    unfolding effect_def by (intro sat_atom [where P = "\<lambda>_. True"]) simp_all
  then have "creation_sat n u (\<lambda>_ _. True)
      (bind_thread (effect (undo_resources i u req)) (\<lambda>_. bind_thread (effect (undo_guac e u)) (\<lambda>_. Return ()))) w"
    by (intro sat_bind [OF giveback]) (rule sat_bind, simp_all)
  then show ?thesis
    unfolding abort_thread_def by (intro sat_bind) (simp_all add: chain_push_def empty_chain_def)
qed

lemma sat_launch_vm:
  assumes "placed n u ((replicate n None)[i := Some vm]) w" "i < n" "matches req vm"
  shows "creation_sat n u (\<lambda>_ _. True) (launch_vm_thread e inp i cms isNew key vm
    (chain_push (undo_resources i u req) (chain_push (undo_guac e u) empty_chain))) w"
proof -
  let ?es = "(replicate n None)[i := Some vm]"
  note abort = sat_abort [OF _ assms(2,3), of u]
  have finish: "keeps (sound n) same_cores (\<lambda>_. True) (bind_thread
      (if isNew then map_thread_result (\<lambda>_. ()) (atom (update_subnet_row (ce_last_subnet e) (cms_IP cms))) else Return ())
      (\<lambda>_. bind_thread (effect (on_resources (register_vm (in_UUID inp) i vm))) (\<lambda>_. Return (Ok ()))))"
    using assms(2) by (auto intro!: keeps_bind_any keeps_map_any keeps_step keeps_effect idle.steps_keep)
  have row: "creation_sat n u (\<lambda>_ _. True) (bind_thread (atom (repo_add (ce_insert e) vm i)) (\<lambda>q. case q of
        Panic \<Rightarrow> Return Panic
      | Fail err \<Rightarrow> abort_thread (chain_push (undo_resources i u req) (chain_push (undo_guac e u) empty_chain))
          (wrap ''CreateVM: failed to persist instance'' err)
      | Ok _ \<Rightarrow> bind_thread
          (if isNew then map_thread_result (\<lambda>_. ()) (atom (update_subnet_row (ce_last_subnet e) (cms_IP cms))) else Return ())
          (\<lambda>_. bind_thread (effect (on_resources (register_vm (in_UUID inp) i vm))) (\<lambda>_. Return (Ok ()))))) v"
    if "placed n u ?es v" for v
    by (rule idle_atom [OF that])
      (auto intro: idle.insert_row abort idle_sat_any [OF finish] sat_anything split: result.split split del: if_split)
  show ?thesis
    unfolding launch_vm_thread_def
  proof (rule idle_atom [OF assms(1)], erule idle.store)
    fix r v
    assume "placed n u ?es v"
    then show "creation_sat n u (\<lambda>_ _. True)
        (bind_thread (atom (\<lambda>w. case core_create (ce_core e) i (build_core_create_vm_request inp cms key) w of
             (r, w') \<Rightarrow> ((r, core_IP (Cores (Resources w') ! i)), w'))) (\<lambda>(r, ip).
           case r of
             Panic \<Rightarrow> Return Panic
           | Fail err \<Rightarrow> abort_thread (chain_push (undo_resources i u req) (chain_push (undo_guac e u) empty_chain))
               (''CreateVM: failed to create VM on core '' @ wrap ip err)
           | Ok _ \<Rightarrow> bind_thread (atom (repo_add (ce_insert e) vm i)) (\<lambda>q. case q of
               Panic \<Rightarrow> Return Panic
             | Fail err \<Rightarrow> abort_thread (chain_push (undo_resources i u req) (chain_push (undo_guac e u) empty_chain))
                 (wrap ''CreateVM: failed to persist instance'' err)
             | Ok _ \<Rightarrow> bind_thread
                 (if isNew then map_thread_result (\<lambda>_. ()) (atom (update_subnet_row (ce_last_subnet e) (cms_IP cms))) else Return ())
                 (\<lambda>_. bind_thread (effect (on_resources (register_vm (in_UUID inp) i vm))) (\<lambda>_. Return (Ok ())))))) v"
      by (rule idle_atom)
        (auto intro: abort row sat_anything split: prod.split result.split dest: idle.core_call split del: if_split)
  qed
qed

lemma new_vm_matches: "VM_UUID (new_vm inp cms pass) = in_UUID inp" "matches (requirement_of inp) (new_vm inp cms pass)"
  by (simp_all add: new_vm_def matches_def requirement_of_def)

lemma sat_place_vm:
  assumes "placed n (in_UUID inp) (replicate n None) w" "i < n"
  shows "creation_sat n (in_UUID inp) (\<lambda>_ _. True) (place_vm_thread e inp i cms isNew priv pub) w"
proof -
  let ?u = "in_UUID inp" and ?req = "requirement_of inp"
  have take: "creation_sat n ?u (\<lambda>_. placed n ?u ((replicate n None)[i := Some (new_vm inp cms pass)]))
      (effect (on_resources (allocate_resources i ?u (new_vm inp cms pass) ?req))) v"
    if "placed n ?u (replicate n None) v" for v pass
    unfolding effect_def
  proof (rule sat_atom [where P = "placed n ?u (replicate n None)"])
    fix v
    assume "placed n ?u (replicate n None) v"
    from allocate_entries [OF this assms(2) new_vm_matches]
    show "only_entries n (Some ?u) v (snd ((), on_resources (allocate_resources i ?u (new_vm inp cms pass) ?req) v)) \<and>
      placed n ?u ((replicate n None)[i := Some (new_vm inp cms pass)])
        (snd ((), on_resources (allocate_resources i ?u (new_vm inp cms pass) ?req) v))" by simp
  qed (use that placed_not_own in auto)
  have refuse: "creation_sat n ?u (\<lambda>_ _. True) (abort_thread empty_chain err) v" for err v
    by (simp add: abort_thread_def empty_chain_def)
  show ?thesis
    unfolding place_vm_thread_def Let_def
    by (rule idle_atom [OF assms(1)])
      (auto intro!: idle.guac sat_anything refuse sat_bind [OF take] sat_launch_vm assms(2) new_vm_matches
        split: result.split)
qed

lemma sat_create_vm:
  assumes "placed n (in_UUID inp) (replicate n None) w"
  shows "creation_sat n (in_UUID inp) (\<lambda>_ _. True) (create_vm_thread e inp) w"
proof -
  let ?u = "in_UUID inp" and ?es = "replicate n None"
  have refuse: "creation_sat n ?u (\<lambda>_ _. True) (abort_thread empty_chain err) v" for err v
    by (simp add: abort_thread_def empty_chain_def)
  have place: "creation_sat n ?u (\<lambda>_ _. True) (on_ok_thread (wrapping ''CreateVM: failed to allocate CMS subnet''
        (allocate_cms_subnet_thread (ce_subnet e) (in_SubnetType inp) ?u)) (\<lambda>cms.
      place_vm_thread e inp i (fst cms) (snd cms) (fst keys) (snd keys))) v"
    if "placed n ?u ?es v" "i < n" for v i keys
    unfolding on_ok_thread_def
    by (rule sat_bind [OF idle_sat [OF keeps_wrapping [OF idle.allocate_subnet] that(1)]])
      (auto intro!: sat_place_vm that(2) sat_anything split: result.split)
  have choose: "keeps (sound n) same_cores (on_value (\<lambda>i. i < n)) (look (select_core_or_fail (requirement_of inp)))"
    by (rule keeps_look)
      (auto simp: select_core_or_fail_def select_core_Some_iff same_cores_def sound_core(2) split: option.split)
  have key: "creation_sat n ?u (\<lambda>_ _. True) (on_ok_thread (wrapping ''CreateVM: failed to generate SSH key'' (Return (ce_ssh e)))
      (\<lambda>keys. if in_Users inp = [] then abort_thread empty_chain ''CreateVM: at least one user is required''
        else on_ok_thread (wrapping ''CreateVM: failed to allocate CMS subnet''
          (allocate_cms_subnet_thread (ce_subnet e) (in_SubnetType inp) ?u)) (\<lambda>cms.
            place_vm_thread e inp i (fst cms) (snd cms) (fst keys) (snd keys)))) v"
    if "placed n ?u ?es v" "i < n" for v i
    using place [OF that] refuse
    by (cases "ce_ssh e") (simp_all add: on_ok_thread_def wrapping_def map_thread_result_def)
  show ?thesis
    unfolding create_vm_thread_def on_ok_thread_def [of "look (select_core_or_fail (requirement_of inp))"]
    by (rule sat_bind [OF idle_sat [OF choose assms]]) (auto intro!: key sat_anything split: result.split)
qed

section \<open>The server\<close>

definition created_uuid :: "api_request \<Rightarrow> uuid option" where
  "created_uuid rq =
     (if rq_method rq = ''POST'' \<and> rq_path rq = ''/vm''
      then (case unmarshal api_create_fields zero_api_create (rq_body rq) of Ok r \<Rightarrow> Some (ac_UUID r) | _ \<Rightarrow> None)
      else None)"

lemma created_uuid_iff: "created_uuid rq = Some u \<longleftrightarrow> creates u rq"
  by (auto simp: created_uuid_def creates_def split: result.split)

lemma sat_context:
  "creation_sat n u (\<lambda>_ _. True) t (sv_context s) \<Longrightarrow>
   sat (in_server (not_own n u)) (in_server (only_entries n (Some u))) (\<lambda>_ _. True) (context_thread t) s"
  unfolding context_thread_def
  by (drule sat_zoom [where R' = "in_server (not_own n u)" and G' = "in_server (only_entries n (Some u))"
        and get = sv_context and put = "\<lambda>w s. s\<lparr>sv_context := w\<rparr>"]) (simp_all add: in_server_def)

lemma sat_serve_create:
  assumes "created_uuid rq = Some u" "placed n u (replicate n None) (sv_context s)"
  shows "sat (in_server (not_own n u)) (in_server (only_entries n (Some u))) (\<lambda>_ _. True) (serve_thread e rq) s"
proof -
  from assms(1) have rq: "creates u rq" by (simp add: created_uuid_iff)
  then obtain r where r: "unmarshal api_create_fields zero_api_create (rq_body rq) = Ok r" "ac_UUID r = u"
    by (auto simp: creates_def split: result.splits)
  have "creation_sat n u (\<lambda>_ _. True) (create_vm_thread (ae_create e) (to_service_input r)) (sv_context s)"
    using sat_create_vm [of n "to_service_input r" "sv_context s" "ae_create e"] assms(2) r(2) by simp
  note run = sat_context [OF this]
  have "sat (in_server (not_own n u)) (in_server (only_entries n (Some u))) (\<lambda>_ _. True) (create_vm_handler_thread e rq) s"
    using r(1)
    by (simp add: sat_map_any [OF run] create_vm_handler_thread_def with_body_thread_def bad_request_thread_def reply_thread_def)
  then show ?thesis
    using rq by (simp add: sat_map_any serve_thread_def route_threads_def creates_def method_matches_def)
qed

lemma sat_serve_other:
  assumes "created_uuid rq = None" "sound n (sv_context s)"
    "\<And>s s'. R s s' \<Longrightarrow> sound n (sv_context s) \<Longrightarrow> sound n (sv_context s')"
  shows "sat R (in_server (only_entries n None)) (\<lambda>_ _. True) (serve_thread e rq) s"
proof -
  have none: "\<not> creates u rq" for u using assms(1) created_uuid_iff [of rq u] by simp
  have "keeps_server (sound n) same_cores (\<lambda>_. True) (serve_thread e rq)"
    by (rule idle.serve) (use none in auto)
  from keeps_sat [OF this, of s R "in_server (only_entries n None)"] have
    "sat R (in_server (only_entries n None)) (\<lambda>r s. sound n (sv_context s) \<and> True) (serve_thread e rq) s"
    using assms(2,3) idle_only by (auto simp: in_server_def moves_def)
  then show ?thesis by (rule sat_weaken) simp_all
qed

section \<open>Properties\<close>

definition created_uuids :: "(api_env \<times> api_request) list \<Rightarrow> uuid list" where
  "created_uuids rqs = concat (map (\<lambda>(e, rq). case created_uuid rq of None \<Rightarrow> [] | Some u \<Rightarrow> [u]) rqs)"

lemma created_mem_iff: "u \<in> set (created_uuids rqs) \<longleftrightarrow> (\<exists>c \<in> set rqs. created_uuid (snd c) = Some u)"
  by (force simp: created_uuids_def split: option.splits)

lemma created_Cons:
  "created_uuids (c # rqs) = (case created_uuid (snd c) of None \<Rightarrow> [] | Some u \<Rightarrow> [u]) @ created_uuids rqs"
  by (simp add: created_uuids_def split_beta)

lemma created_mem:
  assumes "i < length rqs" "created_uuid (snd (rqs ! i)) = Some u"
  shows "u \<in> set (created_uuids rqs)"
  using assms(2) nth_mem [OF assms(1)] by (auto simp: created_mem_iff)

lemma created_once:
  assumes "distinct (created_uuids rqs)" "i < length rqs" "j < length rqs" "created_uuid (snd (rqs ! i)) = Some u"
    "created_uuid (snd (rqs ! j)) = Some u"
  shows "i = j"
  using assms
proof (induction rqs arbitrary: i j)
  case (Cons c rqs)
  have "distinct (created_uuids rqs)" using Cons.prems(1) by (simp add: created_Cons)
  note IH = Cons.IH [OF this]
  have first: "created_uuid (snd c) \<noteq> Some u" if "k < length rqs" "created_uuid (snd (rqs ! k)) = Some u" for k
    using Cons.prems(1) created_mem [OF that] by (auto simp: created_Cons)
  show ?case
  proof (cases i)
    case 0
    then show ?thesis using Cons.prems(3-5) first by (cases j) auto
  next
    case (Suc i')
    then show ?thesis using Cons.prems(2-5) first IH by (cases j) auto
  qed
qed simp

definition guarantee :: "nat \<Rightarrow> (api_env \<times> api_request) list \<Rightarrow> nat \<Rightarrow> server \<Rightarrow> server \<Rightarrow> bool" where
  "guarantee n rqs i s s' \<longleftrightarrow> i < length rqs \<and> in_server (only_entries n (created_uuid (snd (rqs ! i)))) s s'"

lemma books_balance:
  assumes "turn\<^sup>*\<^sup>* (s, serve_pool rqs) (s', ts')" "wf_context (sv_context s)" "distinct (created_uuids rqs)"
    and "\<forall>u \<in> set (created_uuids rqs). \<forall>c \<in> set (Cores (Resources (sv_context s))). vms_of c u = None"
  shows "books (sv_context s') = books (sv_context s)"
proof -
  define n where "n = length (Cores (Resources (sv_context s)))"
  have sound: "sound n (sv_context s)" using assms(2) by (simp add: sound_def n_def)
  let ?G = "guarantee n rqs" and ?Q = "\<lambda>_ _ _. True"
  have sat: "sat (others ?G i) (?G i) (?Q i) (serve_pool rqs ! i) s" if i: "i < length rqs" for i
  proof (cases "created_uuid (snd (rqs ! i))")
    case None
    have "sat (others ?G i) (in_server (only_entries n None)) (?Q i) (serve_thread (fst (rqs ! i)) (snd (rqs ! i))) s"
      by (rule sat_serve_other [OF None sound]) (auto simp: others_def guarantee_def in_server_def only_entries_def)
    then have "sat (others ?G i) (?G i) (?Q i) (serve_thread (fst (rqs ! i)) (snd (rqs ! i))) s"
      by (rule sat_weaken) (simp_all add: guarantee_def i None)
    with i show ?thesis by (simp add: serve_pool_nth)
  next
    case (Some u)
    have "u \<in> set (created_uuids rqs)" using created_mem [OF i Some] .
    then have "placed n u (replicate n None) (sv_context s)"
      using sound assms(4) by (auto simp: placed_def entries_of_def n_def intro!: nth_equalityI)
    note run = sat_serve_create [OF Some this, of "fst (rqs ! i)"]
    have "in_server (not_own n u) r r'" if other: "others ?G i r r'" for r r'
    proof -
      obtain j where j: "j \<noteq> i" "j < length rqs" "in_server (only_entries n (created_uuid (snd (rqs ! j)))) r r'"
        using other by (auto simp: others_def guarantee_def)
      then have "created_uuid (snd (rqs ! j)) \<noteq> Some u" using created_once [OF assms(3) i j(2) Some] by auto
      with j(3) show ?thesis by (auto simp: in_server_def only_entries_def not_own_def)
    qed
    with run have "sat (others ?G i) (?G i) (?Q i) (serve_thread (fst (rqs ! i)) (snd (rqs ! i))) s"
      by (rule sat_weaken) (simp_all add: guarantee_def i Some)
    with i show ?thesis by (simp add: serve_pool_nth)
  qed
  have "(some_step ?G)\<^sup>*\<^sup>* s s'"
    by (rule rely_guarantee.pool_rule(1) [where Q = ?Q, OF assms(1)]) (simp_all add: sat)
  then show ?thesis
    by (induction rule: rtranclp_induct) (auto simp: some_step_def guarantee_def in_server_def only_entries_def)
qed

text \<open>C13: the books of the cores are right modulo \<open>2 ^ 32\<close> under every interleaving of requests that
  create different VMs not yet placed: whatever is allocated, rolled back or left half done, free
  memory, CPU and disk of every core plus what its VMs use, added as machine words, stay the
  same. Nothing is lost or counted twice, even where the free counters themselves wrap around.\<close>

theorem concurrent_books_balance:
  assumes "turn\<^sup>*\<^sup>* (s, serve_pool rqs) (s', ts')" "wf_context (sv_context s)" "distinct (created_uuids rqs)"
    and "\<forall>u \<in> set (created_uuids rqs). \<forall>c \<in> set (Cores (Resources (sv_context s))). vms_of c u = None"
  shows "map word_ledger (Cores (Resources (sv_context s'))) = map word_ledger (Cores (Resources (sv_context s)))"
  using books_balance [OF assms] by (simp add: books_def)

text \<open>C8: a free counter wraps around only when the core is overcommitted: in every interleaving of
  requests that create different VMs not yet placed, on every core free plus used memory is what it
  was, counted in natural numbers, exactly as long as the VMs on the core take no more than the core
  had for them, and the same holds for CPUs and disk. No failure, rollback or overlap of requests
  alone makes a counter wrong.\<close>

theorem counters_wrap_only_when_overcommitted:
  assumes "turn\<^sup>*\<^sup>* (s, serve_pool rqs) (s', ts')" "wf_context (sv_context s)" "distinct (created_uuids rqs)"
    and "\<forall>u \<in> set (created_uuids rqs). \<forall>c \<in> set (Cores (Resources (sv_context s))). vms_of c u = None"
    and "i < length (Cores (Resources (sv_context s)))" "in_word_range (ledger (Cores (Resources (sv_context s)) ! i))"
  defines "c \<equiv> Cores (Resources (sv_context s)) ! i" and "c' \<equiv> Cores (Resources (sv_context s')) ! i"
  shows "(unat (FreeMemory c') + used VM_Memory c' = unat (FreeMemory c) + used VM_Memory c \<longleftrightarrow>
      used VM_Memory c' \<le> unat (FreeMemory c) + used VM_Memory c) \<and>
    (unat (FreeCPU c') + used VM_Cpu c' = unat (FreeCPU c) + used VM_Cpu c \<longleftrightarrow>
      used VM_Cpu c' \<le> unat (FreeCPU c) + used VM_Cpu c) \<and>
    (unat (FreeDisk c') + used VM_Disk c' = unat (FreeDisk c) + used VM_Disk c \<longleftrightarrow>
      used VM_Disk c' \<le> unat (FreeDisk c) + used VM_Disk c)"
proof -
  have books: "books (sv_context s') = books (sv_context s)" by (rule books_balance) fact+
  then have "length (Cores (Resources (sv_context s'))) = length (Cores (Resources (sv_context s)))"
    unfolding books_def by (rule map_eq_imp_length_eq)
  with books assms(5) have "word_ledger c' = word_ledger c"
    by (metis (no_types) books_def c_def c'_def nth_map)
  then have "FreeMemory c' + word_used VM_Memory c' = FreeMemory c + word_used VM_Memory c"
    "FreeCPU c' + word_used VM_Cpu c' = FreeCPU c + word_used VM_Cpu c"
    "FreeDisk c' + word_used VM_Disk c' = FreeDisk c + word_used VM_Disk c"
    by (simp_all add: word_ledger_def)
  then show ?thesis
    using assms(6) by (auto simp: ledger_def in_word_range_def free_exact c_def [symmetric])
qed

theorem concurrent_books_balance_witness:
  "\<exists>s' ts'. turn\<^sup>*\<^sup>* (fresh_server demo_context, serve_pool [(demo_api_env, post_vm demo_body), (demo_api_env, info_request ''vm-1'')]) (s', ts') \<and>
     map word_ledger (Cores (Resources (sv_context s'))) = map word_ledger (Cores demo_rm)"
proof -
  let ?rqs = "[(demo_api_env, post_vm demo_body), (demo_api_env, info_request ''vm-1'')]"
  have turns: "turn\<^sup>*\<^sup>* (fresh_server demo_context, serve_pool ?rqs)
      (serve_all ?rqs (fresh_server demo_context), map Return (serve_replies ?rqs (fresh_server demo_context)))"
    by (rule sequence_turns)
  have "created_uuid (post_vm demo_body) = Some ''vm-1''" "created_uuid (info_request ''vm-1'') = None"
    using demo_body_decodes by (simp_all add: created_uuid_def post_vm_def info_request_def demo_create_request_def)
  then have uuids: "created_uuids ?rqs = [''vm-1'']" by (simp add: created_uuids_def)
  have cores: "Cores (Resources (sv_context (fresh_server demo_context))) = Cores demo_rm"
    by (simp add: fresh_server_def demo_context_def)
  have "\<forall>u \<in> set (created_uuids ?rqs). \<forall>c \<in> set (Cores (Resources (sv_context (fresh_server demo_context)))). vms_of c u = None"
    unfolding uuids cores by (simp add: demo_defs vms_of_def)
  moreover have "wf_context (sv_context (fresh_server demo_context))" by (simp add: fresh_server_def wf_demo_context)
  moreover have "distinct (created_uuids ?rqs)" by (simp add: uuids)
  ultimately have "map word_ledger (Cores (Resources (sv_context (serve_all ?rqs (fresh_server demo_context))))) = map word_ledger (Cores demo_rm)"
    using concurrent_books_balance [OF turns] cores by simp
  then show ?thesis using turns by blast
qed

theorem counters_wrap_only_when_overcommitted_witness:
  "\<exists>s' ts'. turn\<^sup>*\<^sup>* (fresh_server demo_context, serve_pool [(demo_api_env, post_vm demo_body)]) (s', ts') \<and>
     used VM_Memory (Cores (Resources (sv_context s')) ! 1) = 4096 \<and>
     unat (FreeMemory (Cores (Resources (sv_context s')) ! 1)) + 4096 = 49152"
proof -
  let ?rqs = "[(demo_api_env, post_vm demo_body)]"
  obtain rp s' where made: "serve demo_api_env (post_vm demo_body) (fresh_server demo_context) = (Some rp, s')"
    "sv_context s' = demo_after_create"
    using demo_created by blast
  obtain ts' where turns: "turn\<^sup>*\<^sup>* (fresh_server demo_context, serve_pool ?rqs) (s', ts')"
    using sequence_turns [of "fresh_server demo_context" ?rqs] made(1) by (auto simp: serve_all_def serve_step_def)
  have "created_uuid (post_vm demo_body) = Some ''vm-1''"
    using demo_body_decodes by (simp add: created_uuid_def post_vm_def demo_create_request_def)
  then have uuids: "created_uuids ?rqs = [''vm-1'']" by (simp add: created_uuids_def)
  have cores: "Cores (Resources (sv_context (fresh_server demo_context))) = Cores demo_rm"
    by (simp add: fresh_server_def demo_context_def)
  have before: "Cores demo_rm ! 1 = demo_core" "used f demo_core = 0" "length (Cores demo_rm) = 2"
    "FreeMemory demo_core = 49152" "FreeCPU demo_core = 9999" "FreeDisk demo_core = 409600" for f
    by (simp_all add: demo_rm_def used_def vms_of_def demo_core_def)
  have "in_word_range (ledger demo_core)"
    by (simp add: in_word_range_def ledger_def before)
  moreover have "\<forall>u \<in> set (created_uuids ?rqs). \<forall>c \<in> set (Cores demo_rm). vms_of c u = None"
    unfolding uuids by (simp add: demo_defs vms_of_def)
  moreover have "wf_context (sv_context (fresh_server demo_context))" by (simp add: fresh_server_def wf_demo_context)
  moreover have "distinct (created_uuids ?rqs)" by (simp add: uuids)
  moreover have "used VM_Memory (Cores (Resources (sv_context s')) ! 1) = 4096"
    using demo_after_create_known(8) made(2) by simp
  ultimately have "unat (FreeMemory (Cores (Resources (sv_context s')) ! 1)) + 4096 = 49152"
    using counters_wrap_only_when_overcommitted [OF turns, of 1] by (simp add: cores before del: One_nat_def)
  then show ?thesis using turns \<open>used VM_Memory (Cores (Resources (sv_context s')) ! 1) = 4096\<close> by blast
qed

end
