(* ===== verification/Logger.thy ===== *)
theory Logger
  imports GoStd "HOL-Library.Sublist"
begin

text \<open>
  \<open>util/logger.go\<close>: the search for the project directory, the arguments of a log call, the
  line that is written and where it goes. Of \<open>fmt\<close> and \<open>path/filepath\<close> what this file uses is
  written out: the verbs without flags, and \<open>Dir\<close> with the cleaning it does (Unix paths). The
  file of the caller, the time and the outcome of opening a log file are arguments.
\<close>

section \<open>Paths\<close>

text \<open>One component of a path, onto the components kept so far, innermost first.\<close>

fun clean_step :: "bool \<Rightarrow> string \<Rightarrow> string list \<Rightarrow> string list" where
  "clean_step rooted c st =
     (if c = [] \<or> c = ''.'' then st
      else if c = ''..'' then
        (case st of
           [] \<Rightarrow> if rooted then [] else [c]
         | t # ts \<Rightarrow> if t = ''..'' then c # st else ts)
      else c # st)"

definition path_clean :: "string \<Rightarrow> string" where
  "path_clean p =
     (let rooted = (p \<noteq> [] \<and> hd p = CHR ''/'');
          st = rev (fold (clean_step rooted) (split_on CHR ''/'' p) []);
          s = (if rooted then [CHR ''/''] else []) @ join_with CHR ''/'' st
      in if s = [] then ''.'' else s)"

text \<open>\<open>filepath.Dir\<close>: everything up to the last separator, cleaned.\<close>

definition up_to_slash :: "string \<Rightarrow> string" where
  "up_to_slash p = rev (dropWhile (\<lambda>c. c \<noteq> CHR ''/'') (rev p))"

definition path_dir :: "string \<Rightarrow> string" where
  "path_dir p = path_clean (up_to_slash p)"

subsection \<open>Cleaning does not lengthen a path\<close>

text \<open>The space a list of components takes, each with one separator.\<close>

definition path_space :: "string list \<Rightarrow> nat" where
  "path_space cs = sum_list (map (\<lambda>c. Suc (length c)) cs)"

lemma path_space_simps [simp]:
  "path_space [] = 0" "path_space (c # cs) = Suc (length c) + path_space cs"
  "path_space (cs @ ds) = path_space cs + path_space ds" "path_space (rev cs) = path_space cs"
  by (simp_all add: path_space_def rev_map [symmetric])

lemma path_space_split: "path_space (split_on c s) = Suc (length s)"
proof (induction s)
  case (Cons x s)
  then show ?case by (cases "split_on c s") auto
qed simp

lemma length_join_with: "length (join_with c cs) = path_space cs - 1"
proof (induction c cs rule: join_with.induct)
  case (3 c p q ps)
  then show ?case by simp
qed simp_all

lemma clean_step_space:
  "path_space (clean_step rooted c st) \<le> path_space st + (if c = [] then 0 else Suc (length c))"
  by (cases st) auto

lemma clean_steps_space:
  "path_space (fold (clean_step rooted) cs st) + count_list cs [] \<le> path_space st + path_space cs"
proof (induction cs arbitrary: st)
  case (Cons c cs)
  have "path_space (fold (clean_step rooted) cs (clean_step rooted c st)) + count_list cs [] \<le>
      path_space (clean_step rooted c st) + path_space cs"
    by (rule Cons.IH)
  with clean_step_space [of rooted c st] show ?case by (cases "c = []") (simp_all del: clean_step.simps)
qed simp

lemma split_on_snoc: "split_on c (s @ [c]) = split_on c s @ [[]]"
  by (induction s) auto

lemma path_clean_shorter:
  assumes "q \<noteq> []"
  shows "length (path_clean (q @ ''/'')) \<le> length q"
proof -
  define rooted where "rooted = (hd q = CHR ''/'')"
  define st where "st = rev (fold (clean_step rooted) (split_on CHR ''/'' (q @ ''/'')) [])"
  have "path_space st + count_list (split_on CHR ''/'' (q @ ''/'')) [] \<le> length q + 2"
    using clean_steps_space [of rooted "split_on CHR ''/'' (q @ ''/'')" "[]"] by (simp add: st_def path_space_split)
  moreover have "count_list (split_on CHR ''/'' (q @ ''/'')) [] \<ge> (if rooted then 2 else 1)"
    using assms by (cases q) (auto simp: split_on_snoc rooted_def)
  ultimately have "path_space st \<le> (if rooted then length q else Suc (length q))"
    by (auto split: if_splits)
  moreover have "path_clean (q @ ''/'') =
      (if (if rooted then ''/'' else []) @ join_with CHR ''/'' st = [] then ''.''
       else (if rooted then ''/'' else []) @ join_with CHR ''/'' st)"
    using assms by (simp add: path_clean_def rooted_def st_def Let_def)
  moreover have "length q \<ge> 1" using assms by (cases q) simp_all
  ultimately show ?thesis by (cases rooted) (auto simp: length_join_with)
qed

definition path_rank :: "string \<Rightarrow> nat" where
  "path_rank p = (if p = ''.'' then 0 else Suc (length p))"

lemma path_dir_rank:
  assumes "path_dir p \<noteq> p"
  shows "path_rank (path_dir p) < path_rank p"
proof (cases "CHR ''/'' \<in> set p")
  case False
  then have "up_to_slash p = []" by (auto simp: up_to_slash_def)
  then have "path_dir p = ''.''" by (simp add: path_dir_def path_clean_def)
  with assms show ?thesis by (simp add: path_rank_def)
next
  case True
  then obtain q r where p: "p = q @ CHR ''/'' # r" "CHR ''/'' \<notin> set r"
    by (meson split_list_last)
  then have up: "up_to_slash p = q @ ''/''"
    by (auto simp: up_to_slash_def dropWhile_append)
  show ?thesis
  proof (cases "q = []")
    case True
    then have dir: "path_dir p = ''/''" by (simp add: path_dir_def up path_clean_def)
    with assms p True have "r \<noteq> []" by auto
    with dir p True show ?thesis by (cases r) (simp_all add: path_rank_def)
  next
    case False
    have "length (path_dir p) \<le> length q"
      unfolding path_dir_def up using False by (rule path_clean_shorter)
    with p show ?thesis by (cases q) (auto simp: path_rank_def)
  qed
qed

section \<open>The project directory\<close>

definition project_name :: string where
  "project_name = ''KWS_Control''"

function project_root :: "string \<Rightarrow> string" where
  "project_root dir =
     (if suffix project_name dir then dir
      else let parent = path_dir dir in if parent = dir then [] else project_root parent)"
  by pat_completeness auto

termination project_root
  by (relation "measure path_rank") (simp_all add: path_dir_rank)

declare project_root.simps [simp del]

lemma path_dir_fixed: "path_dir p = p \<Longrightarrow> (path_dir ^^ k) p = p"
  by (induction k) simp_all

lemma path_dir_iterates:
  "path_rank p \<le> n \<Longrightarrow> path_dir ((path_dir ^^ n) p) = (path_dir ^^ n) p"
proof (induction n arbitrary: p)
  case 0
  then have "p = ''.''" by (simp add: path_rank_def split: if_splits)
  then show ?case by (simp add: path_dir_def up_to_slash_def path_clean_def)
next
  case (Suc n)
  show ?case
  proof (cases "path_dir p = p")
    case True
    then show ?thesis by (simp add: path_dir_fixed)
  next
    case False
    with Suc path_dir_rank [of p] show ?thesis by (simp add: funpow_swap1)
  qed
qed

lemma project_root_find:
  "path_rank dir < n \<Longrightarrow> project_root dir =
     (case find (suffix project_name) (map (\<lambda>k. (path_dir ^^ k) dir) [0..<n]) of None \<Rightarrow> [] | Some d \<Rightarrow> d)"
proof (induction n arbitrary: dir)
  case (Suc n)
  have up: "map (\<lambda>k. (path_dir ^^ k) dir) [0..<Suc n] = dir # map (\<lambda>k. (path_dir ^^ k) (path_dir dir)) [0..<n]"
    by (simp add: map_upt_Suc funpow_swap1 del: upt_Suc)
  show ?case
  proof (cases "suffix project_name dir \<or> path_dir dir = dir")
    case True
    moreover have "find (suffix project_name) (map (\<lambda>k. (path_dir ^^ k) dir) [0..<n]) = None"
      if "path_dir dir = dir" "\<not> suffix project_name dir"
      using that by (simp add: find_None_iff path_dir_fixed)
    ultimately show ?thesis unfolding up by (auto simp: project_root.simps [of dir])
  next
    case False
    with path_dir_rank [of dir] Suc.prems have "path_rank (path_dir dir) < n" by simp
    with Suc.IH [OF this] False show ?thesis unfolding up by (simp add: project_root.simps [of dir])
  qed
qed simp

text \<open>C39: the search for the project directory ends for every path: after as many steps as the path
  has characters, and one more, it has reached a directory that is its own parent; and it
  returns the first directory on that way whose path ends in the name of the project, or
  nothing.\<close>

theorem project_root_search:
  "path_dir ((path_dir ^^ Suc (length dir)) dir) = (path_dir ^^ Suc (length dir)) dir \<and>
   project_root dir =
     (case find (suffix project_name) (map (\<lambda>k. (path_dir ^^ k) dir) [0..<length dir + 2]) of
        None \<Rightarrow> [] | Some d \<Rightarrow> d)"
proof -
  have "path_rank dir \<le> Suc (length dir)" by (simp add: path_rank_def)
  then show ?thesis
    using path_dir_iterates [of dir "Suc (length dir)"] project_root_find [of dir "length dir + 2"] by simp
qed

section \<open>The arguments of a log call\<close>

text \<open>The values the program logs, by their dynamic type.\<close>

datatype log_arg = BoolArg bool | StringArg string | IntArg int | ErrorArg error | NilArg

definition show_value :: "log_arg \<Rightarrow> string" where
  "show_value a =
     (case a of
        BoolArg b \<Rightarrow> if b then ''true'' else ''false''
      | StringArg s \<Rightarrow> s
      | IntArg n \<Rightarrow> itoa n
      | ErrorArg e \<Rightarrow> e
      | NilArg \<Rightarrow> ''<nil>'')"

text \<open>A value with its type, as \<open>fmt\<close> shows it where it does not fit.\<close>

definition typed_value :: "log_arg \<Rightarrow> string" where
  "typed_value a =
     (case a of
        BoolArg _ \<Rightarrow> ''bool='' @ show_value a
      | StringArg _ \<Rightarrow> ''string='' @ show_value a
      | IntArg _ \<Rightarrow> ''int='' @ show_value a
      | ErrorArg _ \<Rightarrow> ''*fmt.wrapError='' @ show_value a
      | NilArg \<Rightarrow> show_value a)"

definition format_verb :: "char \<Rightarrow> log_arg \<Rightarrow> string" where
  "format_verb v a =
     (if v = CHR ''v'' \<or>
         v = CHR ''s'' \<and> (case a of StringArg _ \<Rightarrow> True | ErrorArg _ \<Rightarrow> True | _ \<Rightarrow> False) \<or>
         v = CHR ''d'' \<and> (case a of IntArg _ \<Rightarrow> True | _ \<Rightarrow> False)
      then show_value a
      else ''%!'' @ v # ''('' @ typed_value a @ '')'')"

fun sprintf_loop :: "string \<Rightarrow> log_arg list \<Rightarrow> string" where
  "sprintf_loop [] [] = []"
| "sprintf_loop [] (a # as) = ''%!(EXTRA '' @ concat (typed_value a # map (\<lambda>b. '', '' @ typed_value b) as) @ '')''"
| "sprintf_loop (c # cs) as =
     (if c \<noteq> CHR ''%'' then c # sprintf_loop cs as
      else (case cs of
              [] \<Rightarrow> ''%!(NOVERB)'' @ sprintf_loop [] as
            | v # ds \<Rightarrow>
                if v = CHR ''%'' then CHR ''%'' # sprintf_loop ds as
                else (case as of
                        [] \<Rightarrow> ''%!'' @ v # ''(MISSING)'' @ sprintf_loop ds []
                      | a # bs \<Rightarrow> format_verb v a @ sprintf_loop ds bs)))"

definition is_string :: "log_arg \<Rightarrow> bool" where
  "is_string a = (case a of StringArg _ \<Rightarrow> True | _ \<Rightarrow> False)"

text \<open>\<open>Sprint\<close> puts a space between two operands when neither is a string.\<close>

fun sprint :: "log_arg list \<Rightarrow> string" where
  "sprint (a # b # as) =
     show_value a @ (if is_string a \<or> is_string b then [] else '' '') @ sprint (b # as)"
| "sprint [a] = show_value a"
| "sprint [] = []"

text \<open>The loop that takes the booleans out; the last one decides.\<close>

fun take_bools :: "log_arg list \<Rightarrow> bool \<Rightarrow> log_arg list \<Rightarrow> bool \<times> log_arg list" where
  "take_bools [] save kept = (save, kept)"
| "take_bools (BoolArg b # as) save kept = take_bools as b kept"
| "take_bools (a # as) save kept = take_bools as save (kept @ [a])"

fun join_words :: "string list \<Rightarrow> string" where
  "join_words (w # v # ws) = w @ '' '' @ join_words (v # ws)"
| "join_words [w] = w"
| "join_words [] = []"

definition parse_log_args :: "log_arg list \<Rightarrow> string \<times> bool" where
  "parse_log_args args =
     (if args = [] then ([], False)
      else let (save, kept) = take_bools args False []
           in (case kept of
                 [] \<Rightarrow> ([], save)
               | StringArg f # a # as \<Rightarrow>
                   if CHR ''%'' \<in> set f then (sprintf_loop f (a # as), save)
                   else (join_words (map show_value kept), save)
               | _ \<Rightarrow> (join_words (map show_value kept), save)))"

section \<open>The line\<close>

text \<open>\<open>strings.Replace\<close> of the first occurrence, and what follows one.\<close>

fun replace_first :: "string \<Rightarrow> string \<Rightarrow> string \<Rightarrow> string" where
  "replace_first old new s =
     (if prefix old s then new @ drop (length old) s
      else (case s of [] \<Rightarrow> [] | c # cs \<Rightarrow> c # replace_first old new cs))"

fun after_first :: "string \<Rightarrow> string \<Rightarrow> string option" where
  "after_first x s =
     (if prefix x s then Some (drop (length x) s)
      else (case s of [] \<Rightarrow> None | c # cs \<Rightarrow> after_first x cs))"

declare replace_first.simps [simp del] after_first.simps [simp del]

datatype log_level = InfoLevel | WarnLevel | ErrorLevel

definition level_text :: "log_level \<Rightarrow> string" where
  "level_text l = (case l of InfoLevel \<Rightarrow> ''INFO'' | WarnLevel \<Rightarrow> ''WARNING'' | ErrorLevel \<Rightarrow> ''ERROR'')"

definition repository_prefix :: string where
  "repository_prefix = ''KWS_Control/''"

text \<open>\<open>Format\<close>: time and level, the message, the caller if the entry has one.\<close>

definition format_entry ::
  "string \<Rightarrow> string \<Rightarrow> log_level \<Rightarrow> string \<Rightarrow> (string \<times> nat) option \<Rightarrow> string" where
  "format_entry root time level msg caller =
     time @ '' ['' @ level_text level @ ''] '' @ msg @
     (case caller of
        None \<Rightarrow> []
      | Some (file, line) \<Rightarrow>
          (let short = (if root = [] then file else replace_first root [] (replace_first (root @ ''/'') [] file))
           in '' ['' @ replace_first repository_prefix [] short @ '':'' @ nat_digits line @ '']'')) @
     [CHR 0x0A]"

section \<open>The loggers\<close>

datatype log_target = StdErr | StdOut | LogFile string

record log_sink =
  sk_targets :: "log_target list"
  sk_root :: string

record enhanced_logger =
  systemLogger :: log_sink
  infoLogger :: log_sink
  warnLogger :: log_sink
  errorLogger :: log_sink

text \<open>A logger of \<open>logrus\<close> writes to standard error until it is told otherwise.\<close>

definition new_logger :: "string \<Rightarrow> log_sink" where
  "new_logger source = \<lparr>sk_targets = [StdErr], sk_root = project_root (path_dir source)\<rparr>"

definition create_logger_with_file :: "(string \<Rightarrow> error option) \<Rightarrow> string \<Rightarrow> string \<Rightarrow> log_sink" where
  "create_logger_with_file open_file filename root =
     (let path = ''logs/'' @ filename
      in \<lparr>sk_targets = (case open_file path of Some _ \<Rightarrow> [StdOut] | None \<Rightarrow> [StdOut, LogFile path]), sk_root = root\<rparr>)"

definition new_enhanced_logger :: "(string \<Rightarrow> error option) \<Rightarrow> string \<Rightarrow> enhanced_logger" where
  "new_enhanced_logger open_file source =
     (let root = project_root (path_dir source)
      in \<lparr>systemLogger = new_logger source,
          infoLogger = create_logger_with_file open_file ''info.log'' root,
          warnLogger = create_logger_with_file open_file ''warn.log'' root,
          errorLogger = create_logger_with_file open_file ''error.log'' root\<rparr>)"

text \<open>\<open>GetLogger\<close>, and \<open>GetEnhancedLogger\<close> that nobody calls, build new loggers on every call.\<close>

definition get_logger :: "(string \<Rightarrow> error option) \<Rightarrow> string \<Rightarrow> enhanced_logger" where
  "get_logger open_file source = new_enhanced_logger open_file source"

definition sink_files :: "log_sink \<Rightarrow> string list" where
  "sink_files sk = concat (map (\<lambda>t. case t of LogFile p \<Rightarrow> [p] | _ \<Rightarrow> []) (sk_targets sk))"

definition opened_files :: "enhanced_logger \<Rightarrow> string list" where
  "opened_files l = concat (map sink_files [systemLogger l, infoLogger l, warnLogger l, errorLogger l])"

type_synonym written = "(log_target \<times> string) list"

text \<open>The caller is never reported to the formatter: \<open>SetReportCaller(false)\<close>.\<close>

definition emit :: "log_sink \<Rightarrow> string \<Rightarrow> log_level \<Rightarrow> string \<Rightarrow> written" where
  "emit sk time level msg = map (\<lambda>t. (t, format_entry (sk_root sk) time level msg None)) (sk_targets sk)"

definition saving_logger :: "enhanced_logger \<Rightarrow> log_level \<Rightarrow> log_sink" where
  "saving_logger l level =
     (case level of InfoLevel \<Rightarrow> infoLogger l | WarnLevel \<Rightarrow> warnLogger l | ErrorLevel \<Rightarrow> errorLogger l)"

text \<open>\<open>Info\<close>, \<open>Warn\<close> and \<open>Error\<close>, by their level.\<close>

definition log_at :: "enhanced_logger \<Rightarrow> log_level \<Rightarrow> string \<Rightarrow> log_arg list \<Rightarrow> written" where
  "log_at l level time args =
     (case parse_log_args args of
        (msg, save) \<Rightarrow> emit (if save then saving_logger l level else systemLogger l) time level msg)"

definition short_file :: "string \<Rightarrow> string" where
  "short_file file = (case after_first repository_prefix file of None \<Rightarrow> file | Some rest \<Rightarrow> rest)"

definition caller_prefix :: "string \<times> nat \<Rightarrow> string" where
  "caller_prefix c = ''['' @ short_file (fst c) @ '':'' @ nat_digits (snd c) @ ''] ''"

text \<open>\<open>DebugInfo\<close>, \<open>DebugWarn\<close> and \<open>DebugError\<close>, by their level, and \<open>Println\<close>.\<close>

definition debug_at ::
  "enhanced_logger \<Rightarrow> log_level \<Rightarrow> string \<Rightarrow> (string \<times> nat) option \<Rightarrow> string \<Rightarrow> log_arg list \<Rightarrow> written" where
  "debug_at l level time caller f args =
     emit (systemLogger l) time level
       (sprintf_loop ((case caller of None \<Rightarrow> [] | Some c \<Rightarrow> caller_prefix c) @ f) args)"

definition log_println ::
  "enhanced_logger \<Rightarrow> string \<Rightarrow> (string \<times> nat) option \<Rightarrow> log_arg list \<Rightarrow> written" where
  "log_println l time caller args =
     emit (systemLogger l) time InfoLevel ((case caller of None \<Rightarrow> [] | Some c \<Rightarrow> caller_prefix c) @ sprint args)"

section \<open>What a call opens\<close>

text \<open>Every call opens the files that can be opened, each with a descriptor of its own, and nothing
  closes them: \<open>n\<close> calls hold up to \<open>3 * n\<close> descriptors until they are collected.\<close>

lemma get_logger_opens:
  "opened_files (get_logger open_file source) =
     filter (\<lambda>p. open_file p = None) [''logs/info.log'', ''logs/warn.log'', ''logs/error.log'']"
  by (simp add: opened_files_def sink_files_def get_logger_def new_enhanced_logger_def new_logger_def
      create_logger_with_file_def Let_def split: option.split)

section \<open>What the flag does\<close>

definition is_bool :: "log_arg \<Rightarrow> bool" where
  "is_bool a = (case a of BoolArg _ \<Rightarrow> True | _ \<Rightarrow> False)"

definition bool_args :: "log_arg list \<Rightarrow> bool list" where
  "bool_args as = concat (map (\<lambda>a. case a of BoolArg b \<Rightarrow> [b] | _ \<Rightarrow> []) as)"

lemma take_bools_eq:
  "take_bools as save kept = (last (save # bool_args as), kept @ filter (\<lambda>a. \<not> is_bool a) as)"
  by (induction as save kept rule: take_bools.induct) (auto simp: is_bool_def bool_args_def)

lemma no_bool_args: "bool_args (filter (\<lambda>a. \<not> is_bool a) as) = []"
  by (induction as) (auto simp: is_bool_def bool_args_def split: log_arg.split)

text \<open>Booleans are taken out of the arguments wherever they stand, not only at the end, and the last
  of them decides whether the line is kept in the file of its level: the message is the one of
  the other arguments.\<close>

theorem parse_log_args_bools:
  "parse_log_args args =
     (fst (parse_log_args (filter (\<lambda>a. \<not> is_bool a) args)), last (False # bool_args args))"
proof -
  have [simp]: "bool_args [] = []" by (simp add: bool_args_def)
  have "parse_log_args args =
      (case take_bools args False [] of (save, kept) \<Rightarrow> (fst (parse_log_args kept), save))"
    by (auto simp: parse_log_args_def take_bools_eq no_bool_args Let_def split: list.splits log_arg.splits)
  then show ?thesis by (simp add: take_bools_eq)
qed

end
