(* ===== verification/Spec2Isabelle.thy ===== *)
theory Spec2Isabelle
  imports Network Crypto Keygen Repository GuacConfig Interleaving ServerProperties LockedOperations Races Books Logger
begin

text \<open>
  Verification library of KWS\_Control, the control server that places virtual machines on
  hypervisor machines (the cores) and keeps them in step with its stores (\<open>src/\<close>, Go).

  \<^bold>\<open>The program.\<close> \<open>main.go\<close> tests Redis, reads the configuration and the databases, asks the cores
  for their resources (\<open>startup\<close>) and serves HTTP (\<open>api\<close>). A handler decodes its body and calls one
  operation of \<open>service\<close>. The operations work on one shared \<open>ControlContext\<close> (\<open>structure\<close>): the
  resource manager with the table of the cores, the MySQL instance tables behind the interface
  \<open>VMRepository\<close>, the tables of Guacamole (\<open>pkg/guacamole\<close>) and the last subnet that was given out;
  the status documents are in Redis. They call the cores, the CMS and Guacamole over HTTP
  (\<open>client\<close>) and an S3-compatible store for snapshots.

  \<^bold>\<open>Theories and sources.\<close>
  \<^item> \<open>Prelude\<close>, \<open>GoStd\<close>, \<open>Sha256\<close>, \<open>Json\<close>: outcomes of a Go call (a value, an error, a panic), the
    locale of an invariant along a history (\<open>invariant_steps\<close>), and what the program uses of
    \<open>strings\<close>, \<open>strconv\<close>, \<open>crypto/sha256\<close>, \<open>encoding/json\<close>.
  \<^item> \<open>Network\<close> (\<open>pkg/network\<close>), \<open>Crypto\<close> (\<open>pkg/crypto\<close>), \<open>Keygen\<close> (\<open>pkg/ssh\<close>), \<open>Logger\<close>
    (\<open>util/logger.go\<close>): the leaf packages. \<open>Network\<close> numbers the /24 prefixes and holds the locale
    \<open>subnet_supply\<close>.
  \<^item> \<open>Cleanup\<close> (\<open>service/cleanup.go\<close>): the rollback chain, with the locale \<open>reversible\<close> of actions
    that can be undone.
  \<^item> \<open>ResourceManager\<close> (\<open>structure/vm.go\<close>, \<open>resource_manager.go\<close>), \<open>Repository\<close>
    (\<open>structure/mysql_vm_repository.go\<close>; the Go interface is the locale \<open>vm_repository\<close>), \<open>GuacConfig\<close>
    (\<open>pkg/guacamole/config.go\<close>), \<open>RedisStore\<close> (\<open>service/redis.go\<close>, \<open>startup/redis.go\<close>; locale
    \<open>kv_store\<close>): the stores.
  \<^item> \<open>Clients\<close> (\<open>client\<close>, \<open>client/model\<close>): the requests that are sent and the decoding of the answers.
  \<^item> \<open>ControlContext\<close> (\<open>structure/control_infra.go\<close>, \<open>service/network.go\<close>), \<open>VmService\<close>
    (\<open>service/vm.go\<close>, \<open>service/guacamole.go\<close>), \<open>Snapshots\<close> (\<open>client/rustfs.go\<close>,
    \<open>service/external_snap.go\<close>): the service operations, each a function from an environment and a
    state to a result and a state.
  \<^item> \<open>Startup\<close> (\<open>startup\<close>, \<open>main.go\<close>) and \<open>Handlers\<close> (\<open>api\<close>, \<open>util/response.go\<close>): the two ends.
  \<^item> \<open>VmLifecycle\<close>, \<open>VmProperties\<close>, \<open>SubnetSupply\<close>, \<open>StartupProperties\<close>, \<open>ServerProperties\<close>: what
    follows for whole operations and histories.
  \<^item> \<open>Threads\<close>: programs cut into steps, pools of them that interleave, and three ways to reason about
    a pool (what every step keeps, who caused a change, rely and guarantee; locale \<open>stepwise\<close>).
    \<open>RequestThreads\<close>: every operation and handler once more as a thread. \<open>Concurrency\<close>,
    \<open>Races\<close>, \<open>Books\<close>: what holds in every interleaving of requests. The locale
    \<open>step_contract\<close> names what a step of the code must keep; it is interpreted for the invariants of
    the state, for the row of a VM and for requests that leave the placement alone. \<open>Interleaving\<close>:
    a smaller relation for the placement, where the code falls short.
  \<^item> \<open>Locks\<close>: goroutines that share data behind a \<open>sync.RWMutex\<close>, access by access, with the two facts
    about all code that is \<open>balanced\<close>. \<open>LockedOperations\<close>: every critical section of the program as such code.

  \<^bold>\<open>Conventions.\<close> A struct is a record with the fields of the source, a \<open>uint32\<close> a word that wraps
  around, a Go map a partial map, a \<open>*Core\<close> the index of the core. Whatever a database, Redis, the
  network or the SDK may do to a call is a field of an environment record, so that a theorem that
  quantifies over the environment covers every failure; a commit may also fail behind an effect
  that took place (\<open>CommitLost\<close>). The calls that leave the server are recorded in \<open>trace\<close>. A panic
  ends the call with the state reached; \<open>net/http\<close> recovers it.

  \<^bold>\<open>What the lemmas show.\<close>
  \<^item> Per component: the subnet computation against the numbering of prefixes, the alphabet and the
    entropy of passwords, first fit and the bookkeeping of the cores, the instance tables in step
    and their round trips, the integrity of the Guacamole tables and the all-or-nothing of
    \<open>Configure\<close>, the decoding of every stored status document, the end of every search for the
    project directory.
  \<^item> \<open>CreateVM\<close>: what success establishes in all stores, that failure restores them, when it
    completes, the order of its outside calls, and where the code falls short (a UUID in use, the
    subnet type Add). \<open>DeleteVM\<close>, \<open>ShutdownVM\<close>: what they undo and what they leave.
  \<^item> Start and server: a successful start mirrors the database; from there every sequence of
    requests keeps \<open>wf_context\<close>; a created VM is reported with the sizes of the request, a deleted
    one is not found; the document sent to the core is the client's request.
  \<^item> Overlapping requests: alone each thread is its handler, and handling one request after the other
    is an interleaving; all interleavings keep the invariants of the state and the number of cores;
    one creation of a UUID wins; the books of the cores balance modulo
    \<open>2 ^ 32\<close>, and the counters are exact as long as no core is overcommitted. What goes wrong: a status
    update can bring back the document of a deleted VM, a core
    is overcommitted as choosing and taking are two critical sections, and calls that read the last
    subnet before one of them writes it share a subnet.
  \<^item> Locking: no goroutine blocks for good, the mutex is free when all have returned, and every execution access by
    access has the result of one in which the critical sections are single steps.
  \<^item> Start with several cores: goroutines that finish late write to an abandoned array, so that
    all but the last cores stay empty.

  \<^bold>\<open>Steps of a thread.\<close> Another request may run between any two of: a critical section of the mutex of
  the resource manager, a statement or transaction of a database, a Redis command, an HTTP call, a read or
  a write of \<open>Last_subnet\<close>, a call of a registered undo function. Taking a critical section as one step is
  justified in \<open>LockedOperations\<close>, whose atomic steps are those of \<open>RequestThreads\<close> (\<open>request_steps\<close>). A computation on local data belongs to
  the step before it. A call to the object store touches no state of the server, so the calls that one
  snapshot request makes are merged with its use of the client. Every outside call returns (the clients
  have timeouts). Writes that Go does not order are taken to be sequentially consistent.

  \<^bold>\<open>Bounds and schedules.\<close> No operation needs fuel: loops are structural recursion over the list the
  code ranges over, and the only search without such a list (\<open>project_root\<close>) has a termination
  proof. Discovery takes an arbitrary schedule of the goroutines and an arbitrary growth function of
  \<open>append\<close>; only \<open>slice_growth_loses_cores\<close> fixes the growth to doubling, which is what the Go
  runtime does for up to 256 elements. A goroutine is a single step there: its writes touch one
  core, and no other goroutine reads them before \<open>Wait\<close> when the addresses differ. JSON is modelled
  on parsed documents with byte strings; a number that is no integer keeps its literal.

  \<^bold>\<open>Not modelled.\<close> RSA, PKCS 1 and the OpenSSH format (arguments of \<open>generate_ssh_key\<close>, whose result
  is \<open>ce_ssh\<close> in the operations), YAML, the SQL driver, the Redis client, the AWS SDK and the HTTP
  transport (arguments, as above), the expiry of presigned URLs and the timeouts (errors that are
  injected), \<open>ListenAndServe\<close> and the printing in \<open>main.go\<close>. The log calls of the components are left
  out: \<open>Logger\<close> models what a call writes, and no other part depends on it.
  \<open>service/core_allocation.go\<close> and \<open>util/util.go\<close> hold no code, and \<open>client/model/snapshot.go\<close> only
  the messages of a call that is still to be written.
\<close>

end
